(* ===== verification/Prelude.thy ===== *)
theory Prelude
  imports Main "HOL-Library.Char_ord" "HOL-Library.List_Lexorder" "HOL-Library.Sublist"
    "HOL-Library.Multiset"
begin

text \<open>
  Shared ground of the development: the representation of Go's integers, instants and
  durations, the ranging over a Go map, \<open>sort.Slice\<close>, and the \<open>limit\<close>/\<open>offset\<close> window the
  listing operations share.

  \<^item> A \<^verbatim>\<open>time.Time\<close> is the number of nanoseconds since the zero time (January 1 of year 1, UTC),
    so that \<^verbatim>\<open>IsZero\<close>, \<^verbatim>\<open>Before\<close>, \<^verbatim>\<open>After\<close> and \<^verbatim>\<open>Equal\<close> are comparisons of integers. A
    \<^verbatim>\<open>time.Duration\<close> is its number of nanoseconds.
  \<^item> Operations that read \<^verbatim>\<open>time.Now()\<close> take the readings as an argument: \<open>clk i\<close> is the reading of
    the \<open>i\<close>-th call, in program order.
  \<^item> \<^verbatim>\<open>range\<close> over a Go map has no fixed order. An operation that ranges over a map takes the order
    of this iteration as an argument, a list of the keys; theorems hold for every order.
\<close>

named_theorems qsimps "state updates of the run queue"
named_theorems inv_intros "preservation of component invariants"

section \<open>Instants, durations and 64-bit integers\<close>

type_synonym gotime = int
type_synonym duration = int
type_synonym clock = "nat \<Rightarrow> gotime"

definition isZero :: "gotime \<Rightarrow> bool" where
  "isZero t \<longleftrightarrow> t = 0"

abbreviation maxInt64 :: int where
  "maxInt64 \<equiv> 9223372036854775807"

abbreviation minInt64 :: int where
  "minInt64 \<equiv> - 9223372036854775808"

text \<open>The value of an \<^verbatim>\<open>int64\<close> computation whose exact result is \<open>x\<close>: two's complement wrap-around.\<close>

definition wrap64 :: "int \<Rightarrow> int" where
  "wrap64 x = (x + 9223372036854775808) mod 18446744073709551616 - 9223372036854775808"

text \<open>\<^verbatim>\<open>int64(1) << n\<close>; shifts past the width give zero.\<close>

definition shl1 :: "nat \<Rightarrow> int" where
  "shl1 n = wrap64 (2 ^ n)"

text \<open>\<^verbatim>\<open>t.Sub(u)\<close> saturates at the extreme durations.\<close>

definition timeSub :: "gotime \<Rightarrow> gotime \<Rightarrow> duration" where
  "timeSub t u = (if t - u > maxInt64 then maxInt64 else if t - u < minInt64 then minInt64 else t - u)"

abbreviation millisecond :: duration where
  "millisecond \<equiv> 1000000"

abbreviation second :: duration where
  "second \<equiv> 1000000000"

lemma wrap64_id: "minInt64 \<le> x \<Longrightarrow> x \<le> maxInt64 \<Longrightarrow> wrap64 x = x"
  by (simp add: wrap64_def)

lemma wrap64_over:
  assumes "maxInt64 < x" and "x \<le> 2 * maxInt64"
  shows "wrap64 x = x - 18446744073709551616"
proof -
  have "(x + 9223372036854775808) mod 18446744073709551616
      = (x + 9223372036854775808 - 18446744073709551616) mod 18446744073709551616"
    by (rule minus_mod_self2[symmetric])
  also have "\<dots> = x + 9223372036854775808 - 18446744073709551616"
    using assms by (intro mod_pos_pos_trivial) auto
  finally show ?thesis by (simp add: wrap64_def)
qed

lemma wrap64_range: "minInt64 \<le> wrap64 x" "wrap64 x \<le> maxInt64"
proof -
  have "0 \<le> (x + 9223372036854775808) mod 18446744073709551616"
    and "(x + 9223372036854775808) mod 18446744073709551616 < 18446744073709551616"
    by simp_all
  then show "minInt64 \<le> wrap64 x" and "wrap64 x \<le> maxInt64"
    by (simp_all add: wrap64_def)
qed

lemma shl1_exact: "n \<le> 62 \<Longrightarrow> shl1 n = 2 ^ n"
proof -
  assume "n \<le> 62"
  then have "(2::int) ^ n \<le> 2 ^ 62" by (intro power_increasing) simp_all
  moreover have "(0::int) \<le> 2 ^ n" by simp
  ultimately show ?thesis unfolding shl1_def by (intro wrap64_id order_trans[OF _ \<open>0 \<le> 2 ^ n\<close>]) simp_all
qed

section \<open>Ranging over a Go map\<close>

definition iterates :: "'k list \<Rightarrow> ('k \<rightharpoonup> 'v) \<Rightarrow> bool" where
  "iterates ord m \<longleftrightarrow> distinct ord \<and> set ord = dom m"

text \<open>The values a \<^verbatim>\<open>for _, v := range m\<close> loop sees when the runtime yields the keys as in \<open>ord\<close>.\<close>

fun rangeValues :: "'k list \<Rightarrow> ('k \<rightharpoonup> 'v) \<Rightarrow> 'v list" where
  "rangeValues [] m = []"
| "rangeValues (k # ks) m = (case m k of None \<Rightarrow> rangeValues ks m | Some v \<Rightarrow> v # rangeValues ks m)"

lemma set_rangeValues: "set (rangeValues ord m) = {v. \<exists>k \<in> set ord. m k = Some v}"
  by (induction ord) (auto split: option.splits)

lemma set_rangeValues_iterates:
  "iterates ord m \<Longrightarrow> set (rangeValues ord m) = ran m"
  by (auto simp: iterates_def set_rangeValues ran_def dom_def)

lemma rangeValues_map_the: "set ord \<subseteq> dom m \<Longrightarrow> rangeValues ord m = map (the \<circ> m) ord"
  by (induction ord) auto

lemma length_rangeValues_iterates: "iterates ord m \<Longrightarrow> length (rangeValues ord m) = card (dom m)"
proof -
  assume it: "iterates ord m"
  then have "rangeValues ord m = map (the \<circ> m) ord"
    by (simp add: iterates_def rangeValues_map_the)
  with it show ?thesis by (metis iterates_def length_map distinct_card)
qed

lemma mset_rangeValues_iterates:
  assumes "iterates ord m" and "iterates ord' m"
  shows "mset (rangeValues ord m) = mset (rangeValues ord' m)"
proof -
  have "mset ord = mset ord'"
    using assms by (metis iterates_def set_eq_iff_mset_eq_distinct)
  moreover have "rangeValues ord m = map (the \<circ> m) ord" "rangeValues ord' m = map (the \<circ> m) ord'"
    using assms by (simp_all add: iterates_def rangeValues_map_the)
  ultimately show ?thesis by simp
qed

section \<open>sort.Slice\<close>

text \<open>
  \<^verbatim>\<open>sort.Slice(xs, less)\<close> leaves some permutation of \<open>xs\<close> in which no later element is less than
  an earlier one. It is modelled by an insertion sort over the caller's \<open>less\<close>. The library's sort is not
  stable; every slice the program sorts comes from a \<^verbatim>\<open>range\<close> over a map, whose order is
  already an argument, so every arrangement of equal elements arises from some order.
\<close>

fun insertBy :: "('a \<Rightarrow> 'a \<Rightarrow> bool) \<Rightarrow> 'a \<Rightarrow> 'a list \<Rightarrow> 'a list" where
  "insertBy lt x [] = [x]"
| "insertBy lt x (y # ys) = (if lt y x then y # insertBy lt x ys else x # y # ys)"

fun sortSlice :: "('a \<Rightarrow> 'a \<Rightarrow> bool) \<Rightarrow> 'a list \<Rightarrow> 'a list" where
  "sortSlice lt [] = []"
| "sortSlice lt (x # xs) = insertBy lt x (sortSlice lt xs)"

lemma mset_insertBy [simp]: "mset (insertBy lt x xs) = add_mset x (mset xs)"
  by (induction xs) auto

lemma mset_sortSlice [simp]: "mset (sortSlice lt xs) = mset xs"
  by (induction xs) auto

lemma set_sortSlice [simp]: "set (sortSlice lt xs) = set xs"
  by (metis mset_sortSlice set_mset_mset)

lemma set_insertBy [simp]: "set (insertBy lt x xs) = insert x (set xs)"
  by (induction xs) auto

lemma length_sortSlice [simp]: "length (sortSlice lt xs) = length xs"
  by (metis mset_sortSlice size_mset)

lemma distinct_map_sortSlice [simp]: "distinct (map f (sortSlice lt xs)) = distinct (map f xs)"
  by (metis mset_map mset_sortSlice mset_eq_imp_distinct_iff)

text \<open>The contract of a comparison function: a strict weak order.\<close>

locale less_func =
  fixes lt :: "'a \<Rightarrow> 'a \<Rightarrow> bool"
  assumes asym: "lt x y \<Longrightarrow> \<not> lt y x"
    and neg_trans: "lt x z \<Longrightarrow> lt x y \<or> lt y z"
begin

lemma irrefl: "\<not> lt x x"
  using asym by blast

lemma not_less_trans: "\<not> lt y x \<Longrightarrow> \<not> lt z y \<Longrightarrow> \<not> lt z x"
  using neg_trans by blast

lemma sorted_insertBy:
  "sorted_wrt (\<lambda>x y. \<not> lt y x) xs \<Longrightarrow> sorted_wrt (\<lambda>x y. \<not> lt y x) (insertBy lt x xs)"
proof (induction xs)
  case Nil
  then show ?case by simp
next
  case (Cons y ys)
  show ?case
  proof (cases "lt y x")
    case True
    with Cons show ?thesis using asym by auto
  next
    case False
    with Cons.prems have "\<forall>z \<in> set ys. \<not> lt z x"
      using not_less_trans by (metis sorted_wrt.simps(2))
    with False Cons.prems show ?thesis by simp
  qed
qed

lemma sorted_sortSlice: "sorted_wrt (\<lambda>x y. \<not> lt y x) (sortSlice lt xs)"
  by (induction xs) (auto intro: sorted_insertBy)

lemma hd_sortSlice_least:
  assumes "xs \<noteq> []" and "x \<in> set xs"
  shows "\<not> lt x (hd (sortSlice lt xs))"
proof -
  have ne: "sortSlice lt xs \<noteq> []"
    using assms(1) by (metis length_sortSlice length_0_conv)
  have "x \<in> set (sortSlice lt xs)" using assms(2) by simp
  with ne sorted_sortSlice[of xs] show ?thesis
    by (cases "sortSlice lt xs") (auto simp: irrefl)
qed

end

text \<open>When the comparison also separates distinct elements, the sorted slice is unique.\<close>

locale strict_less_func = less_func +
  fixes key :: "'a \<Rightarrow> 'k"
  assumes total: "key x \<noteq> key y \<Longrightarrow> lt x y \<or> lt y x"
begin

lemma sorted_unique:
  assumes "mset xs = mset ys" and "distinct (map key xs)"
    and "sorted_wrt (\<lambda>x y. \<not> lt y x) xs" and "sorted_wrt (\<lambda>x y. \<not> lt y x) ys"
  shows "xs = ys"
  using assms
proof (induction xs arbitrary: ys)
  case Nil
  then show ?case by simp
next
  case (Cons x xs)
  then obtain y ys' where ys: "ys = y # ys'" by (cases ys) auto
  have "x = y"
  proof (rule ccontr)
    assume ne: "x \<noteq> y"
    have sets: "set (x # xs) = set (y # ys')"
      using Cons.prems(1) ys by (metis set_mset_mset)
    then have "x \<in> set ys'" and yin: "y \<in> set xs" using ne by auto
    then have "\<not> lt x y" and "\<not> lt y x" using Cons.prems(3,4) ys by auto
    with total have "key x = key y" by blast
    with yin Cons.prems(2) show False by (auto simp: image_iff)
  qed
  moreover have "xs = ys'"
    using Cons.prems ys \<open>x = y\<close> by (intro Cons.IH) auto
  ultimately show ?case using ys by simp
qed

lemma sorted_strictly:
  assumes "sorted_wrt (\<lambda>x y. \<not> lt y x) xs" and "distinct (map key xs)"
  shows "sorted_wrt lt xs"
  using assms
proof (induction xs)
  case (Cons x xs)
  have "lt x y" if "y \<in> set xs" for y
  proof -
    have "\<not> lt y x" using Cons.prems(1) that by simp
    moreover have "key y \<noteq> key x"
      using Cons.prems(2) that by (metis distinct.simps(2) imageI list.set_map list.simps(9))
    ultimately show ?thesis using total by metis
  qed
  with Cons show ?case by simp
qed simp

lemma sortSlice_strictly: "distinct (map key xs) \<Longrightarrow> sorted_wrt lt (sortSlice lt xs)"
  by (rule sorted_strictly) (simp_all add: sorted_sortSlice)

lemma sortSlice_order_irrelevant:
  "mset xs = mset ys \<Longrightarrow> distinct (map key xs) \<Longrightarrow> sortSlice lt xs = sortSlice lt ys"
  by (rule sorted_unique) (simp_all add: sorted_sortSlice)

end

lemma sorted_wrt_strict:
  fixes f :: "'a \<Rightarrow> 'b::linorder"
  assumes "sorted_wrt (\<lambda>a b. \<not> f b < f a) xs" and "distinct (map f xs)"
  shows "sorted_wrt (\<lambda>a b. f a < f b) xs"
  using assms
proof (induction xs)
  case (Cons x xs)
  have "f x < f y" if "y \<in> set xs" for y
  proof -
    have "\<not> f y < f x" using Cons.prems(1) that by simp
    moreover have "f y \<noteq> f x" using Cons.prems(2) that by (metis distinct.simps(2) imageI list.set_map list.simps(9))
    ultimately show ?thesis by simp
  qed
  with Cons show ?case by simp
qed simp

section \<open>The limit/offset window of the listing operations\<close>

text \<open>
  The tail every listing operation ends with (\<^verbatim>\<open>internal/queue/memory_queue.go\<close>,
  \<^verbatim>\<open>internal/store/memory_store.go\<close>): defaults, an early return past the end, and a slice
  expression whose bounds check can panic (\<open>None\<close>) when \<^verbatim>\<open>offset + limit\<close> wraps around.
\<close>

definition sliceWindow :: "'a list \<Rightarrow> int \<Rightarrow> int \<Rightarrow> 'a list option" where
  "sliceWindow items limit offset =
     (let limit = (if limit \<le> 0 then 50 else limit);
          offset = (if offset < 0 then 0 else offset)
      in if offset \<ge> int (length items) then Some []
         else let end0 = wrap64 (offset + limit);
                  end1 = (if end0 > int (length items) then int (length items) else end0)
              in if end1 < offset then None
                 else Some (take (nat (end1 - offset)) (drop (nat offset) items)))"

lemma sliceWindow_exact:
  assumes "0 < limit" and "0 \<le> offset" and "limit \<le> maxInt64 - int (length items)"
  shows "sliceWindow items limit offset = Some (take (nat limit) (drop (nat offset) items))"
proof (cases "offset \<ge> int (length items)")
  case True
  then show ?thesis using assms by (simp add: sliceWindow_def Let_def)
next
  case False
  then have w: "wrap64 (offset + limit) = offset + limit"
    using assms by (intro wrap64_id) auto
  show ?thesis
  proof (cases "offset + limit > int (length items)")
    case True
    have "nat (int (length items) - offset) = length (drop (nat offset) items)"
      using False assms(2) by simp
    moreover have "length (drop (nat offset) items) \<le> nat limit"
      using True assms(2) by simp
    ultimately show ?thesis
      using assms False True w by (simp add: sliceWindow_def Let_def)
  next
    case nt: False
    then show ?thesis using assms False w by (simp add: sliceWindow_def Let_def)
  qed
qed

end
