(* ===== verification/GoStrings.thy ===== *)
theory GoStrings
  imports Prelude
begin

text \<open>
  The functions of Go's \<^verbatim>\<open>strings\<close>, \<^verbatim>\<open>strconv\<close> and \<^verbatim>\<open>fmt\<close> packages the program uses. A Go string is a
  sequence of bytes, an Isabelle \<^typ>\<open>string\<close> a list of 8-bit characters, and positions count bytes in
  both. \<open>TrimSpace\<close> removes the white space of \<^verbatim>\<open>unicode.IsSpace\<close> in its UTF-8 form. \<open>quote\<close>
  (\<^verbatim>\<open>%q\<close>) escapes what \<^verbatim>\<open>strconv.Quote\<close> escapes in ASCII and copies the bytes above it.
\<close>

section \<open>White space\<close>

definition spaceRunes :: "string list" where
  "spaceRunes =
     [[CHR 0x09], [CHR 0x0A], [CHR 0x0B], [CHR 0x0C], [CHR 0x0D], [CHR 0x20],
      [CHR 0xC2, CHR 0x85], [CHR 0xC2, CHR 0xA0], [CHR 0xE1, CHR 0x9A, CHR 0x80],
      [CHR 0xE2, CHR 0x80, CHR 0x80], [CHR 0xE2, CHR 0x80, CHR 0x81], [CHR 0xE2, CHR 0x80, CHR 0x82],
      [CHR 0xE2, CHR 0x80, CHR 0x83], [CHR 0xE2, CHR 0x80, CHR 0x84], [CHR 0xE2, CHR 0x80, CHR 0x85],
      [CHR 0xE2, CHR 0x80, CHR 0x86], [CHR 0xE2, CHR 0x80, CHR 0x87], [CHR 0xE2, CHR 0x80, CHR 0x88],
      [CHR 0xE2, CHR 0x80, CHR 0x89], [CHR 0xE2, CHR 0x80, CHR 0x8A], [CHR 0xE2, CHR 0x80, CHR 0xA8],
      [CHR 0xE2, CHR 0x80, CHR 0xA9], [CHR 0xE2, CHR 0x80, CHR 0xAF], [CHR 0xE2, CHR 0x81, CHR 0x9F],
      [CHR 0xE3, CHR 0x80, CHR 0x80]]"

text \<open>Remove runes of the list from the front for as long as one is there.\<close>

function stripRunes :: "string list \<Rightarrow> string \<Rightarrow> string" where
  "stripRunes rs s =
     (case find (\<lambda>r. r \<noteq> [] \<and> prefix r s) rs of
        None \<Rightarrow> s
      | Some r \<Rightarrow> stripRunes rs (drop (length r) s))"
  by pat_completeness auto
termination
  by (relation "measure (\<lambda>(rs, s). length s)")
    (auto simp: find_Some_iff prefix_def)

declare stripRunes.simps [simp del]

definition trimSpace :: "string \<Rightarrow> string" where
  "trimSpace s = rev (stripRunes (map rev spaceRunes) (rev (stripRunes spaceRunes s)))"

section \<open>Prefixes, searching, splitting\<close>

text \<open>\<^verbatim>\<open>strings.ToLower\<close> and \<^verbatim>\<open>strings.ToUpper\<close>, on ASCII text.\<close>

definition lowerChar :: "char \<Rightarrow> char" where
  "lowerChar c = (if CHR ''A'' \<le> c \<and> c \<le> CHR ''Z'' then char_of (of_char c + 32 :: nat) else c)"

definition upperChar :: "char \<Rightarrow> char" where
  "upperChar c = (if CHR ''a'' \<le> c \<and> c \<le> CHR ''z'' then char_of (of_char c - 32 :: nat) else c)"

definition toLower :: "string \<Rightarrow> string" where
  "toLower s = map lowerChar s"

definition toUpper :: "string \<Rightarrow> string" where
  "toUpper s = map upperChar s"

definition hasPrefix :: "string \<Rightarrow> string \<Rightarrow> bool" where
  "hasPrefix s p \<longleftrightarrow> prefix p s"

definition trimPrefix :: "string \<Rightarrow> string \<Rightarrow> string" where
  "trimPrefix s p = (if prefix p s then drop (length p) s else s)"

text \<open>\<^verbatim>\<open>strings.Index\<close>: the first position of \<open>sub\<close>, \<^const>\<open>None\<close> for Go's \<open>-1\<close>.\<close>

fun strIndex :: "string \<Rightarrow> string \<Rightarrow> nat option" where
  "strIndex [] sub = (if sub = [] then Some 0 else None)"
| "strIndex (c # s) sub = (if prefix sub (c # s) then Some 0 else map_option Suc (strIndex s sub))"

definition strContains :: "string \<Rightarrow> string \<Rightarrow> bool" where
  "strContains s sub \<longleftrightarrow> strIndex s sub \<noteq> None"

text \<open>\<^verbatim>\<open>strings.Split(s, sep)\<close> for a one-byte separator.\<close>

fun strSplit :: "string \<Rightarrow> char \<Rightarrow> string list" where
  "strSplit [] c = [[]]"
| "strSplit (x # xs) c =
     (if x = c then [] # strSplit xs c
      else case strSplit xs c of [] \<Rightarrow> [[x]] | p # ps \<Rightarrow> (x # p) # ps)"

text \<open>\<^verbatim>\<open>strings.SplitN(s, sep, 2)\<close> for a one-byte separator.\<close>

fun strSplit2 :: "string \<Rightarrow> char \<Rightarrow> string list" where
  "strSplit2 [] c = [[]]"
| "strSplit2 (x # xs) c =
     (if x = c then [[], xs]
      else case strSplit2 xs c of [] \<Rightarrow> [[x]] | p # ps \<Rightarrow> (x # p) # ps)"

section \<open>Numbers and quotation\<close>

fun natDigits :: "nat \<Rightarrow> string" where
  "natDigits n =
     (if n < 10 then [char_of (48 + n)] else natDigits (n div 10) @ [char_of (48 + n mod 10)])"

declare natDigits.simps [simp del]

text \<open>\<^verbatim>\<open>strconv.Itoa\<close> and \<^verbatim>\<open>%d\<close>.\<close>

definition itoa :: "int \<Rightarrow> string" where
  "itoa i = (if i < 0 then ''-'' @ natDigits (nat (- i)) else natDigits (nat i))"

definition hexDigit :: "nat \<Rightarrow> char" where
  "hexDigit n = (if n < 10 then char_of (48 + n) else char_of (87 + n))"

definition quoteChar :: "char \<Rightarrow> string" where
  "quoteChar c =
     (let n = (of_char c :: nat)
      in if c = CHR 0x22 then [CHR 0x5C, CHR 0x22]
         else if c = CHR 0x5C then [CHR 0x5C, CHR 0x5C]
         else if n = 7 then [CHR 0x5C, CHR ''a'']
         else if n = 8 then [CHR 0x5C, CHR ''b'']
         else if n = 12 then [CHR 0x5C, CHR ''f'']
         else if n = 10 then [CHR 0x5C, CHR ''n'']
         else if n = 13 then [CHR 0x5C, CHR ''r'']
         else if n = 9 then [CHR 0x5C, CHR ''t'']
         else if n = 11 then [CHR 0x5C, CHR ''v'']
         else if n < 32 \<or> n = 127 then [CHR 0x5C, CHR ''x'', hexDigit (n div 16), hexDigit (n mod 16)]
         else [c])"

definition quote :: "string \<Rightarrow> string" where
  "quote s = [CHR 0x22] @ concat (map quoteChar s) @ [CHR 0x22]"

section \<open>Lemmas\<close>

lemma stripRunes_suffix: "suffix (stripRunes rs s) s"
proof (induction rs s rule: stripRunes.induct)
  case (1 rs s)
  show ?case
  proof (cases "find (\<lambda>r. r \<noteq> [] \<and> prefix r s) rs")
    case None
    then show ?thesis by (simp add: stripRunes.simps[of rs s])
  next
    case (Some r)
    with "1.IH" have "suffix (stripRunes rs (drop (length r) s)) (drop (length r) s)" by simp
    with Some show ?thesis
      by (simp add: stripRunes.simps[of rs s]) (meson suffix_drop suffix_order.trans)
  qed
qed

lemma stripRunes_none: "r \<in> set rs \<Longrightarrow> r \<noteq> [] \<Longrightarrow> \<not> prefix r (stripRunes rs s)"
proof (induction rs s rule: stripRunes.induct)
  case (1 rs s)
  show ?case
  proof (cases "find (\<lambda>r. r \<noteq> [] \<and> prefix r s) rs")
    case None
    then have "stripRunes rs s = s" by (simp add: stripRunes.simps[of rs s])
    with None "1.prems" show ?thesis by (auto simp: find_None_iff)
  next
    case (Some r')
    then show ?thesis using "1.IH" "1.prems" by (simp add: stripRunes.simps[of rs s])
  qed
qed

lemma stripRunes_fixed: "(\<forall>r \<in> set rs. r \<noteq> [] \<longrightarrow> \<not> prefix r s) \<Longrightarrow> stripRunes rs s = s"
proof -
  assume "\<forall>r \<in> set rs. r \<noteq> [] \<longrightarrow> \<not> prefix r s"
  then have "find (\<lambda>r. r \<noteq> [] \<and> prefix r s) rs = None" by (auto simp: find_None_iff)
  then show ?thesis by (simp add: stripRunes.simps[of rs s])
qed

lemma spaceRunes_nonempty: "r \<in> set spaceRunes \<Longrightarrow> r \<noteq> []"
  by (auto simp: spaceRunes_def)

lemma trimSpace_no_trailing: "r \<in> set spaceRunes \<Longrightarrow> \<not> suffix r (trimSpace s)"
  using stripRunes_none[of "rev r" "map rev spaceRunes"] spaceRunes_nonempty[of r]
  by (auto simp: trimSpace_def suffix_to_prefix)

lemma trimSpace_prefix_left: "prefix (trimSpace s) (stripRunes spaceRunes s)"
  using stripRunes_suffix[of "map rev spaceRunes" "rev (stripRunes spaceRunes s)"]
  by (simp add: trimSpace_def suffix_to_prefix)

lemma trimSpace_no_leading: "r \<in> set spaceRunes \<Longrightarrow> \<not> prefix r (trimSpace s)"
  using stripRunes_none[of r spaceRunes s] spaceRunes_nonempty[of r] trimSpace_prefix_left[of s]
  by (meson prefix_order.trans)

lemma trimSpace_sublist: "sublist (trimSpace s) s"
  using trimSpace_prefix_left[of s] stripRunes_suffix[of spaceRunes s]
  by (meson prefix_imp_sublist sublist_order.order.trans suffix_imp_sublist)

lemma trimSpace_id:
  assumes "\<And>r. r \<in> set spaceRunes \<Longrightarrow> \<not> prefix r s \<and> \<not> suffix r s"
  shows "trimSpace s = s"
proof -
  have "stripRunes spaceRunes s = s" using assms by (simp add: stripRunes_fixed)
  moreover have "stripRunes (map rev spaceRunes) (rev s) = rev s"
    using assms by (intro stripRunes_fixed) (auto simp: suffix_to_prefix)
  ultimately show ?thesis by (simp add: trimSpace_def)
qed

lemma trimSpace_idem [simp]: "trimSpace (trimSpace s) = trimSpace s"
  by (rule trimSpace_id) (simp add: trimSpace_no_leading trimSpace_no_trailing)

lemma strIndex_Some:
  "strIndex s sub = Some i \<Longrightarrow> i \<le> length s \<and> prefix sub (drop i s) \<and> (\<forall>j < i. \<not> prefix sub (drop j s))"
proof (induction s arbitrary: i)
  case Nil
  then show ?case by (simp split: if_splits)
next
  case (Cons c s)
  show ?case
  proof (cases "prefix sub (c # s)")
    case True
    with Cons.prems show ?thesis by simp
  next
    case False
    with Cons.prems obtain k where k: "strIndex s sub = Some k" and i: "i = Suc k" by auto
    from Cons.IH[OF k] False i show ?thesis by (auto simp: less_Suc_eq_0_disj)
  qed
qed

lemma strIndex_None: "strIndex s sub = None \<longleftrightarrow> (\<forall>j. \<not> prefix sub (drop j s))"
proof (induction s)
  case Nil
  then show ?case by simp
next
  case (Cons c s)
  have "(\<forall>j. \<not> prefix sub (drop j (c # s))) \<longleftrightarrow>
        \<not> prefix sub (c # s) \<and> (\<forall>j. \<not> prefix sub (drop j s))"
    by (metis drop0 drop_Suc_Cons nat.exhaust)
  with Cons show ?case by simp
qed

lemma strContains_iff: "strContains s sub \<longleftrightarrow> sublist sub s"
proof -
  have "(\<exists>j. prefix sub (drop j s)) \<longleftrightarrow> sublist sub s"
  proof
    assume "\<exists>j. prefix sub (drop j s)"
    then show "sublist sub s"
      by (meson prefix_imp_sublist sublist_drop sublist_order.order.trans)
  next
    assume "sublist sub s"
    then obtain p q where "s = p @ sub @ q" by (auto simp: sublist_def)
    then have "prefix sub (drop (length p) s)" by simp
    then show "\<exists>j. prefix sub (drop j s)" by blast
  qed
  then show ?thesis by (simp add: strContains_def strIndex_None del: not_None_eq)
qed

lemma strSplit2_spec:
  "(c \<notin> set s \<and> strSplit2 s c = [s]) \<or>
   (\<exists>a b. s = a @ c # b \<and> c \<notin> set a \<and> strSplit2 s c = [a, b])"
proof (induction s)
  case Nil
  then show ?case by simp
next
  case (Cons x xs)
  show ?case
  proof (cases "x = c")
    case True
    then show ?thesis by (auto intro!: exI[of _ "[]"])
  next
    case False
    from Cons.IH show ?thesis
    proof
      assume "c \<notin> set xs \<and> strSplit2 xs c = [xs]"
      with False show ?thesis by simp
    next
      assume "\<exists>a b. xs = a @ c # b \<and> c \<notin> set a \<and> strSplit2 xs c = [a, b]"
      then obtain a b where "xs = a @ c # b" "c \<notin> set a" "strSplit2 xs c = [a, b]" by blast
      with False have "x # xs = (x # a) @ c # b \<and> c \<notin> set (x # a) \<and> strSplit2 (x # xs) c = [x # a, b]"
        by simp
      then show ?thesis by blast
    qed
  qed
qed

lemma strSplit2_pair: "c \<notin> set a \<Longrightarrow> strSplit2 (a @ c # b) c = [a, b]"
  by (induction a) auto

end
