(* ===== verification/Domain.thy ===== *)
theory Domain
  imports GoStrings
begin

text \<open>
  The types of \<^verbatim>\<open>internal/domain/types.go\<close>. Struct fields carry a prefix naming their struct, since a
  record's selectors are global names. The typed string constants are datatypes; the zero value
  \<^verbatim>\<open>""\<close> of each is its constructor ending in \<open>Unset\<close>. A read-only
  \<^verbatim>\<open>map[string]string\<close> is the list of its bindings in the order a \<^verbatim>\<open>range\<close> loop yields them.
\<close>

type_synonym error = string
type_synonym bindings = "(string \<times> string) list"

datatype TaskStatus =
    TaskStatusUnset | TaskStatusPending | TaskStatusRunning | TaskStatusSuccess | TaskStatusFailed | TaskStatusSkipped

datatype RunStatus =
    RunStatusUnset | RunStatusPending | RunStatusRunning | RunStatusSuccess | RunStatusFailed | RunStatusCancelled

datatype CompensationStatus =
    CompensationStatusUnset | CompensationStatusNotRequired | CompensationStatusSuccess | CompensationStatusFailed
  | CompensationStatusSkipped

datatype RunJobStatus =
    RunJobStatusUnset | RunJobStatusQueued | RunJobStatusLeased | RunJobStatusSucceeded
  | RunJobStatusFailed | RunJobStatusDead | RunJobStatusCancelled

fun taskStatusString :: "TaskStatus \<Rightarrow> string" where
  "taskStatusString TaskStatusUnset = ''''"
| "taskStatusString TaskStatusPending = ''PENDING''"
| "taskStatusString TaskStatusRunning = ''RUNNING''"
| "taskStatusString TaskStatusSuccess = ''SUCCESS''"
| "taskStatusString TaskStatusFailed = ''FAILED''"
| "taskStatusString TaskStatusSkipped = ''SKIPPED''"

fun runStatusString :: "RunStatus \<Rightarrow> string" where
  "runStatusString RunStatusUnset = ''''"
| "runStatusString RunStatusPending = ''PENDING''"
| "runStatusString RunStatusRunning = ''RUNNING''"
| "runStatusString RunStatusSuccess = ''SUCCESS''"
| "runStatusString RunStatusFailed = ''FAILED''"
| "runStatusString RunStatusCancelled = ''CANCELLED''"

fun runJobStatusString :: "RunJobStatus \<Rightarrow> string" where
  "runJobStatusString RunJobStatusUnset = ''''"
| "runJobStatusString RunJobStatusQueued = ''QUEUED''"
| "runJobStatusString RunJobStatusLeased = ''LEASED''"
| "runJobStatusString RunJobStatusSucceeded = ''SUCCEEDED''"
| "runJobStatusString RunJobStatusFailed = ''FAILED''"
| "runJobStatusString RunJobStatusDead = ''DEAD_LETTER''"
| "runJobStatusString RunJobStatusCancelled = ''CANCELLED''"

record RetryPolicy =
  rp_MaxAttempts :: int
  rp_BackoffBase :: duration

record CompensationSpec =
  c_Action :: string
  c_Input :: bindings
  c_Timeout :: duration

record TaskNode =
  t_ID :: string
  t_Name :: string
  t_Action :: string
  t_Input :: bindings
  t_DependsOn :: "string list"
  t_Condition :: string
  t_RunAfter :: duration
  t_Timeout :: duration
  t_RetryPolicy :: RetryPolicy
  t_AllowFailure :: bool
  t_Compensation :: CompensationSpec

record Workflow =
  w_ID :: string
  w_Name :: string
  w_Description :: string
  w_Version :: string
  w_MaxConcurrency :: int
  w_FailFast :: bool
  w_CompensateOnFailure :: bool
  w_Timeout :: duration
  w_Tasks :: "TaskNode list"

record TaskResult =
  tr_TaskID :: string
  tr_Status :: TaskStatus
  tr_StartedAt :: gotime
  tr_FinishedAt :: gotime
  tr_Attempts :: int
  tr_Duration :: duration
  tr_Output :: string
  tr_Error :: string
  tr_UpstreamRef :: "string list"

type_synonym results = "string \<rightharpoonup> TaskResult"

record Run =
  r_ID :: string
  r_WorkflowID :: string
  r_RequestID :: string
  r_Status :: RunStatus
  r_CompensationStatus :: CompensationStatus
  r_CompensationResults :: "TaskResult list"
  r_StartedAt :: gotime
  r_FinishedAt :: gotime
  r_Duration :: duration
  r_Results :: results
  r_Error :: string

record ScheduleConfig =
  s_WorkflowID :: string
  s_Interval :: duration
  s_Cron :: string
  s_RunOnStartup :: bool
  s_AllowOverlap :: bool

record RunQueueJob =
  j_ID :: string
  j_WorkflowID :: string
  j_RunID :: string
  j_RequestID :: string
  j_Status :: RunJobStatus
  j_Attempts :: int
  j_MaxAttempts :: int
  j_LastError :: string
  j_LeaseOwner :: string
  j_LeaseUntil :: gotime
  j_AvailableAt :: gotime
  j_ReplayCount :: int
  j_ReplayedBy :: string
  j_ReplayReason :: string
  j_ReplayedAt :: gotime
  j_CreatedAt :: gotime
  j_UpdatedAt :: gotime

record RunJobTransition =
  tn_JobID :: string
  tn_FromStatus :: RunJobStatus
  tn_ToStatus :: RunJobStatus
  tn_Reason :: string
  tn_Actor :: string
  tn_CreatedAt :: gotime

section \<open>Zero values\<close>

text \<open>The zero value of a struct: what a composite literal leaves out, and what indexing a map with
  a missing key yields.\<close>

definition zeroCompensationSpec :: CompensationSpec where
  "zeroCompensationSpec = \<lparr>c_Action = '''', c_Input = [], c_Timeout = 0\<rparr>"

definition zeroTaskNode :: TaskNode where
  "zeroTaskNode =
     \<lparr>t_ID = '''', t_Name = '''', t_Action = '''', t_Input = [], t_DependsOn = [], t_Condition = '''',
      t_RunAfter = 0, t_Timeout = 0, t_RetryPolicy = \<lparr>rp_MaxAttempts = 0, rp_BackoffBase = 0\<rparr>,
      t_AllowFailure = False, t_Compensation = zeroCompensationSpec\<rparr>"

definition zeroTaskResult :: TaskResult where
  "zeroTaskResult =
     \<lparr>tr_TaskID = '''', tr_Status = TaskStatusUnset, tr_StartedAt = 0, tr_FinishedAt = 0,
      tr_Attempts = 0, tr_Duration = 0, tr_Output = '''', tr_Error = '''', tr_UpstreamRef = []\<rparr>"

definition zeroRunQueueJob :: RunQueueJob where
  "zeroRunQueueJob =
     \<lparr>j_ID = '''', j_WorkflowID = '''', j_RunID = '''', j_RequestID = '''', j_Status = RunJobStatusUnset,
      j_Attempts = 0, j_MaxAttempts = 0, j_LastError = '''', j_LeaseOwner = '''', j_LeaseUntil = 0,
      j_AvailableAt = 0, j_ReplayCount = 0, j_ReplayedBy = '''', j_ReplayReason = '''',
      j_ReplayedAt = 0, j_CreatedAt = 0, j_UpdatedAt = 0\<rparr>"

text \<open>A map access \<^verbatim>\<open>input[k]\<close> that yields the empty string for a missing key.\<close>

definition lookupOrEmpty :: "bindings \<Rightarrow> string \<Rightarrow> string" where
  "lookupOrEmpty bs k = (case map_of bs k of None \<Rightarrow> '''' | Some v \<Rightarrow> v)"

lemma runJobStatusString_inj [simp]: "runJobStatusString a = runJobStatusString b \<longleftrightarrow> a = b"
  by (cases a; cases b) auto

lemma taskStatusString_no_dollar [simp]: "CHR ''$'' \<notin> set (taskStatusString st)"
  by (cases st) auto

end
