(* ===== verification/Graph.thy ===== *)
theory Graph
  imports Domain
begin

text \<open>
  \<^verbatim>\<open>internal/engine/graph.go\<close>: workflow validation. \<open>hasCycle\<close> is the depth-first search with the
  three colours of the source; it is shown to decide whether the dependency relation has a cycle, for
  every order in which the runtime ranges over the adjacency map. \<open>ValidateWorkflow\<close> is shown to
  accept exactly the workflows described by \<open>valid_workflow\<close>.
\<close>

section \<open>Definitions\<close>

subsection \<open>Condition references\<close>

definition requireTaskExists ::
  "TaskNode \<Rightarrow> (string \<rightharpoonup> TaskNode) \<Rightarrow> string \<Rightarrow> string \<Rightarrow> error option" where
  "requireTaskExists task tasksByID condition pre =
     (let taskID = trimSpace (trimPrefix condition pre)
      in if taskID = '''' then Some (''task '' @ t_ID task @ '' has invalid condition syntax'')
         else if tasksByID taskID = None
           then Some (''task '' @ t_ID task @ '' condition references unknown task '' @ taskID)
         else None)"

definition validateConditionReference ::
  "TaskNode \<Rightarrow> (string \<rightharpoonup> TaskNode) \<Rightarrow> error option" where
  "validateConditionReference task tasksByID =
     (let condition = trimSpace (t_Condition task)
      in if condition = '''' \<or> condition = ''always'' then None
         else if hasPrefix condition ''on_success:''
           then requireTaskExists task tasksByID condition ''on_success:''
         else if hasPrefix condition ''on_failed:''
           then requireTaskExists task tasksByID condition ''on_failed:''
         else if hasPrefix condition ''output_contains:''
           then (let parts = strSplit2 (trimPrefix condition ''output_contains:'') (CHR '':'')
                 in if length parts \<noteq> 2 \<or> trimSpace (parts ! 0) = ''''
                      then Some (''task '' @ t_ID task @ '' has invalid condition syntax'')
                    else if tasksByID (trimSpace (parts ! 0)) = None
                      then Some (''task '' @ t_ID task @ '' condition references unknown task ''
                                 @ trimSpace (parts ! 0))
                    else None)
         else Some (''task '' @ t_ID task @ '' has unsupported condition '' @ quote condition))"

subsection \<open>Cycle detection\<close>

text \<open>
  The adjacency map \<^verbatim>\<open>adj\<close> maps a task to the tasks that depend on it. It is an association list, so
  that its key set is finite and its iteration order explicit.
\<close>

type_synonym adjacency = "(string \<times> string list) list"

definition adjOf :: "adjacency \<Rightarrow> string \<Rightarrow> string list" where
  "adjOf adj n = (case map_of adj n of None \<Rightarrow> [] | Some ns \<Rightarrow> ns)"

text \<open>\<^verbatim>\<open>adj[dep] = append(adj[dep], id)\<close>\<close>

fun adjAppend :: "adjacency \<Rightarrow> string \<Rightarrow> string \<Rightarrow> adjacency" where
  "adjAppend [] dep i = [(dep, [i])]"
| "adjAppend ((k, ns) # adj) dep i =
     (if k = dep then (k, ns @ [i]) # adj else (k, ns) # adjAppend adj dep i)"

text \<open>\<^verbatim>\<open>if _, exists := adj[id]; !exists { adj[id] = nil }\<close>\<close>

definition adjTouch :: "adjacency \<Rightarrow> string \<Rightarrow> adjacency" where
  "adjTouch adj i = (if map_of adj i = None then adj @ [(i, [])] else adj)"

fun buildAdj :: "TaskNode list \<Rightarrow> adjacency \<Rightarrow> adjacency" where
  "buildAdj [] adj = adj"
| "buildAdj (t # ts) adj =
     buildAdj ts (adjTouch (fold (\<lambda>dep a. adjAppend a dep (t_ID t)) (t_DependsOn t) adj) (t_ID t))"

datatype visit = unvisited | visiting | visited

text \<open>
  \<open>dfs adj ns st\<close> is the loop \<^verbatim>\<open>for _, next := range ns { if dfs(next) ... }\<close> with the body of the
  closure \<^verbatim>\<open>dfs\<close> unfolded at each node: the result says whether one of the calls returned true,
  together with the colours the search leaves behind.
\<close>

function dfs :: "adjacency \<Rightarrow> string list \<Rightarrow> (string \<Rightarrow> visit) \<Rightarrow> bool \<times> (string \<Rightarrow> visit)" where
  "dfs adj [] st = (False, st)"
| "dfs adj (node # rest) st =
     (if st node = visiting then (True, st)
      else if st node = visited then dfs adj rest st
      else case dfs adj (adjOf adj node) (st(node := visiting)) of
             (c, st') \<Rightarrow> if c then (True, st') else dfs adj rest (st'(node := visited)))"
  by pat_completeness auto

lemma dfs_dom_unvisited:
  "dfs_dom (adj, ns, st) \<Longrightarrow> snd (dfs adj ns st) n = unvisited \<Longrightarrow> st n = unvisited"
proof (induction adj ns st arbitrary: n rule: dfs.pinduct)
  case (1 adj st)
  then show ?case by (simp add: dfs.psimps)
next
  case (2 adj node rest st)
  obtain c st' where r: "dfs adj (adjOf adj node) (st(node := visiting)) = (c, st')"
    by fastforce
  show ?case
  proof (cases "st node = unvisited")
    case False
    then show ?thesis
      using 2 by (cases "st node") (auto simp: dfs.psimps)
  next
    case True
    then have "st' m = unvisited \<Longrightarrow> (st(node := visiting)) m = unvisited" for m
      using "2.IH"(2)[of m] r by (simp del: fun_upd_apply)
    then have step: "st' m = unvisited \<Longrightarrow> m \<noteq> node \<and> st m = unvisited" for m
      by (fastforce split: if_splits)
    show ?thesis
    proof (cases c)
      case True
      then show ?thesis using 2 r step \<open>st node = unvisited\<close> by (simp add: dfs.psimps)
    next
      case False
      then have "(st'(node := visited)) n = unvisited"
        using "2.IH"(3)[OF _ _ r[symmetric], of n] "2.prems" "2.hyps" r \<open>st node = unvisited\<close>
        by (simp add: dfs.psimps del: fun_upd_apply)
      then show ?thesis using step by (auto split: if_splits)
    qed
  qed
qed

termination dfs
proof (relation "inv_image (finite_psubset <*lex*> less_than)
    (\<lambda>(adj, ns, st). ({n \<in> fst ` set adj. st n = unvisited}, length ns))", goal_cases)
  case 1
  then show ?case by (auto intro: wf_finite_psubset)
next
  case (2 adj node rest st)
  then show ?case by simp
next
  case (3 adj node rest st)
  then have un: "st node = unvisited" by (cases "st node") auto
  show ?case
  proof (cases "node \<in> fst ` set adj")
    case True
    with un have "{n \<in> fst ` set adj. (st(node := visiting)) n = unvisited}
      \<subset> {n \<in> fst ` set adj. st n = unvisited}" by auto
    then show ?thesis by (simp add: finite_psubset_def)
  next
    case False
    then have "adjOf adj node = []"
      by (simp add: adjOf_def map_of_eq_None_iff[THEN iffD2])
    moreover have "{n \<in> fst ` set adj. (st(node := visiting)) n = unvisited}
      = {n \<in> fst ` set adj. st n = unvisited}" using False by auto
    ultimately show ?thesis by simp
  qed
next
  case (4 adj node rest st c st')
  then have "snd (dfs adj (adjOf adj node) (st(node := visiting))) = st'" by (metis snd_conv)
  with 4 have sub: "st' m = unvisited \<Longrightarrow> m \<noteq> node \<and> st m = unvisited" for m
    using dfs_dom_unvisited[of adj "adjOf adj node" "st(node := visiting)" m]
    by (auto split: if_splits)
  then have "{n \<in> fst ` set adj. (st'(node := visited)) n = unvisited}
      \<subseteq> {n \<in> fst ` set adj. st n = unvisited}" by (auto split: if_splits)
  then show ?case by (auto simp: finite_psubset_def)
qed

text \<open>\<^verbatim>\<open>for n := range adj { if state[n] == unvisited && dfs(n) { return true } }\<close>\<close>

fun rangeDfs :: "adjacency \<Rightarrow> string list \<Rightarrow> (string \<Rightarrow> visit) \<Rightarrow> bool" where
  "rangeDfs adj [] st = False"
| "rangeDfs adj (n # ns) st =
     (if st n = unvisited
      then case dfs adj [n] st of (c, st') \<Rightarrow> if c then True else rangeDfs adj ns st'
      else rangeDfs adj ns st)"

definition hasCycleOrder :: "string list \<Rightarrow> TaskNode list \<Rightarrow> bool" where
  "hasCycleOrder ord tasks = rangeDfs (buildAdj tasks []) ord (\<lambda>_. unvisited)"

definition hasCycle :: "TaskNode list \<Rightarrow> bool" where
  "hasCycle tasks = hasCycleOrder (map fst (buildAdj tasks [])) tasks"

subsection \<open>ValidateWorkflow\<close>

fun checkTaskIDs :: "TaskNode list \<Rightarrow> string set \<Rightarrow> error option" where
  "checkTaskIDs [] seen = None"
| "checkTaskIDs (t # ts) seen =
     (if t_ID t = '''' then Some ''task id is required''
      else if t_ID t \<in> seen then Some (''duplicate task id: '' @ t_ID t)
      else checkTaskIDs ts (insert (t_ID t) seen))"

definition tasksByID :: "TaskNode list \<Rightarrow> string \<rightharpoonup> TaskNode" where
  "tasksByID tasks = fold (\<lambda>t m. m(t_ID t \<mapsto> t)) tasks Map.empty"

definition checkTask :: "(string \<rightharpoonup> TaskNode) \<Rightarrow> TaskNode \<Rightarrow> error option" where
  "checkTask byID t =
     (if t_RunAfter t < 0 then Some (''task '' @ t_ID t @ '' has negative runAfter'')
      else if c_Action (t_Compensation t) = '''' \<and> c_Input (t_Compensation t) \<noteq> []
        then Some (''task '' @ t_ID t @ '' has compensation input without compensation action'')
      else if c_Timeout (t_Compensation t) < 0
        then Some (''task '' @ t_ID t @ '' has negative compensation timeout'')
      else case find (\<lambda>dep. byID dep = None) (t_DependsOn t) of
             Some dep \<Rightarrow> Some (''task '' @ t_ID t @ '' depends on unknown task '' @ dep)
           | None \<Rightarrow> validateConditionReference t byID)"

fun checkTasks :: "(string \<rightharpoonup> TaskNode) \<Rightarrow> TaskNode list \<Rightarrow> error option" where
  "checkTasks byID [] = None"
| "checkTasks byID (t # ts) =
     (case checkTask byID t of Some e \<Rightarrow> Some e | None \<Rightarrow> checkTasks byID ts)"

definition ValidateWorkflow :: "Workflow \<Rightarrow> error option" where
  "ValidateWorkflow workflow =
     (if w_ID workflow = '''' then Some ''workflow id is required''
      else if w_Tasks workflow = [] then Some ''workflow must contain at least one task''
      else case checkTaskIDs (w_Tasks workflow) {} of
             Some e \<Rightarrow> Some e
           | None \<Rightarrow>
               (case checkTasks (tasksByID (w_Tasks workflow)) (w_Tasks workflow) of
                  Some e \<Rightarrow> Some e
                | None \<Rightarrow> if hasCycle (w_Tasks workflow)
                          then Some ''workflow contains cyclic dependencies'' else None))"

section \<open>The search decides cyclicity\<close>

definition edges :: "adjacency \<Rightarrow> (string \<times> string) set" where
  "edges adj = {(u, v). v \<in> set (adjOf adj u)}"

text \<open>What holds of the finished nodes at every moment of the search: their successors are finished
  too, and none of them lies on a cycle.\<close>

definition finished_ok :: "adjacency \<Rightarrow> (string \<Rightarrow> visit) \<Rightarrow> bool" where
  "finished_ok adj st \<longleftrightarrow>
     (\<forall>u v. st u = visited \<longrightarrow> (u, v) \<in> edges adj \<longrightarrow> st v = visited) \<and>
     (\<forall>u. st u = visited \<longrightarrow> (u, u) \<notin> (edges adj)\<^sup>+)"

lemma finished_ok_trancl:
  assumes "finished_ok adj st" and "(u, v) \<in> (edges adj)\<^sup>+" and "st u = visited"
  shows "st v = visited"
  using assms(2,3)
  by (induction rule: trancl_induct) (use assms(1) in \<open>auto simp: finished_ok_def\<close>)

lemma finished_ok_finish:
  assumes ok: "finished_ok adj st" and grey: "st node = visiting"
    and succ: "\<And>v. (node, v) \<in> edges adj \<Longrightarrow> st v = visited"
  shows "finished_ok adj (st(node := visited))"
proof -
  have "(node, node) \<notin> (edges adj)\<^sup>+"
  proof
    assume "(node, node) \<in> (edges adj)\<^sup>+"
    then obtain v where "(node, v) \<in> edges adj" and "v = node \<or> (v, node) \<in> (edges adj)\<^sup>+"
      by (meson tranclD rtranclD)
    with succ finished_ok_trancl[OF ok] have "st node = visited" by blast
    with grey show False by simp
  qed
  then show ?thesis using ok succ by (auto simp: finished_ok_def)
qed

lemma dfs_False:
  assumes "dfs adj ns st = (False, st')" and "finished_ok adj st"
  shows "finished_ok adj st' \<and> (\<forall>n \<in> set ns. st' n = visited) \<and>
         (\<forall>n. (st' n = visiting) = (st n = visiting)) \<and> (\<forall>n. st n = visited \<longrightarrow> st' n = visited)"
  using assms
proof (induction adj ns st arbitrary: st' rule: dfs.induct)
  case (1 adj st)
  then show ?case by simp
next
  case (2 adj node rest st)
  show ?case
  proof (cases "st node")
    case unvisited
    obtain c s1 where r: "dfs adj (adjOf adj node) (st(node := visiting)) = (c, s1)" by fastforce
    with "2.prems"(1) unvisited have "\<not> c" and run: "dfs adj rest (s1(node := visited)) = (False, st')"
      by (auto split: if_splits)
    have ok0: "finished_ok adj (st(node := visiting))"
      using "2.prems"(2) unvisited by (auto simp: finished_ok_def)
    have *: "finished_ok adj s1 \<and> (\<forall>n \<in> set (adjOf adj node). s1 n = visited) \<and>
      (\<forall>n. (s1 n = visiting) = ((st(node := visiting)) n = visiting)) \<and>
      (\<forall>n. (st(node := visiting)) n = visited \<longrightarrow> s1 n = visited)"
      using "2.IH"(2)[OF _ _ _ ok0] unvisited r \<open>\<not> c\<close> by (simp del: fun_upd_apply)
    then have s1node: "s1 node = visiting" by simp
    have ok1: "finished_ok adj (s1(node := visited))"
      using * s1node by (intro finished_ok_finish) (auto simp: edges_def)
    have "finished_ok adj st' \<and> (\<forall>n \<in> set rest. st' n = visited) \<and>
      (\<forall>n. (st' n = visiting) = ((s1(node := visited)) n = visiting)) \<and>
      (\<forall>n. (s1(node := visited)) n = visited \<longrightarrow> st' n = visited)"
      using "2.IH"(3)[OF _ _ r[symmetric] _ run ok1] unvisited \<open>\<not> c\<close> by (simp del: fun_upd_apply)
    with * unvisited show ?thesis by (auto split: if_splits)
  next
    case visiting
    with "2.prems" show ?thesis by simp
  next
    case visited
    with "2.prems" "2.IH"(1) show ?thesis by auto
  qed
qed

text \<open>A \<open>True\<close> answer exhibits a cycle, provided every node on the stack reaches the nodes still to
  be looked at.\<close>

lemma dfs_True:
  assumes "fst (dfs adj ns st)" and "finished_ok adj st"
    and "\<And>g n. st g = visiting \<Longrightarrow> n \<in> set ns \<Longrightarrow> (g, n) \<in> (edges adj)\<^sup>+"
  shows "\<exists>x. (x, x) \<in> (edges adj)\<^sup>+"
  using assms
proof (induction adj ns st rule: dfs.induct)
  case (1 adj st)
  then show ?case by simp
next
  case (2 adj node rest st)
  show ?case
  proof (cases "st node")
    case unvisited
    obtain c s1 where r: "dfs adj (adjOf adj node) (st(node := visiting)) = (c, s1)" by fastforce
    have ok0: "finished_ok adj (st(node := visiting))"
      using "2.prems"(2) unvisited by (auto simp: finished_ok_def)
    have reach: "(g, n) \<in> (edges adj)\<^sup>+"
      if "(st(node := visiting)) g = visiting" and "n \<in> set (adjOf adj node)" for g n
    proof -
      have e: "(node, n) \<in> edges adj" using that(2) by (simp add: edges_def)
      show ?thesis
      proof (cases "g = node")
        case True
        with e show ?thesis by auto
      next
        case False
        with that(1) "2.prems"(3)[of g node] have "(g, node) \<in> (edges adj)\<^sup>+" by simp
        with e show ?thesis by (rule trancl_into_trancl[rotated])
      qed
    qed
    show ?thesis
    proof (cases c)
      case True
      then show ?thesis using "2.IH"(2)[OF _ _ _ ok0 reach] unvisited r by (simp del: fun_upd_apply)
    next
      case False
      have post: "finished_ok adj s1 \<and> (\<forall>n \<in> set (adjOf adj node). s1 n = visited) \<and>
        (\<forall>n. (s1 n = visiting) = ((st(node := visiting)) n = visiting))"
        using dfs_False[of adj "adjOf adj node" "st(node := visiting)" s1] r ok0 False
        by (simp del: fun_upd_apply)
      then have ok1: "finished_ok adj (s1(node := visited))"
        by (intro finished_ok_finish) (auto simp: edges_def)
      have "(g, n) \<in> (edges adj)\<^sup>+" if "(s1(node := visited)) g = visiting" "n \<in> set rest" for g n
        using that post "2.prems"(3)[of g n] by (auto split: if_splits)
      then show ?thesis
        using "2.IH"(3)[OF _ _ r[symmetric] _ _ ok1] "2.prems"(1) unvisited r False
        by (simp del: fun_upd_apply)
    qed
  next
    case visiting
    with "2.prems"(3)[of node node] show ?thesis by auto
  next
    case visited
    with 2 show ?thesis by simp
  qed
qed

lemma rangeDfs_correct:
  assumes "finished_ok adj st" and "\<And>n. st n \<noteq> visiting"
  shows "(rangeDfs adj ns st \<longrightarrow> (\<exists>x. (x, x) \<in> (edges adj)\<^sup>+)) \<and>
         (\<not> rangeDfs adj ns st \<longrightarrow> (\<forall>n \<in> set ns. (n, n) \<notin> (edges adj)\<^sup>+))"
  using assms
proof (induction ns arbitrary: st)
  case Nil
  then show ?case by simp
next
  case (Cons n ns)
  show ?case
  proof (cases "st n = unvisited")
    case False
    with Cons.prems(2)[of n] have "st n = visited" by (cases "st n") auto
    with Cons.prems(1) have "(n, n) \<notin> (edges adj)\<^sup>+" by (auto simp: finished_ok_def)
    with False Cons.IH[OF Cons.prems] show ?thesis by simp
  next
    case True
    obtain c st' where r: "dfs adj [n] st = (c, st')" by fastforce
    show ?thesis
    proof (cases c)
      case True
      with r have "fst (dfs adj [n] st)" by simp
      from dfs_True[OF this Cons.prems(1)] Cons.prems(2) have "\<exists>x. (x, x) \<in> (edges adj)\<^sup>+" by blast
      then show ?thesis using \<open>st n = unvisited\<close> r True by simp
    next
      case False
      with r have run: "dfs adj [n] st = (False, st')" by simp
      note post = dfs_False[OF run Cons.prems(1)]
      then have "(n, n) \<notin> (edges adj)\<^sup>+" by (auto simp: finished_ok_def)
      moreover have "\<And>m. st' m \<noteq> visiting" using post Cons.prems(2) by auto
      ultimately show ?thesis
        using Cons.IH[of st'] post \<open>st n = unvisited\<close> r False by simp
    qed
  qed
qed

subsection \<open>The adjacency map is the dependency relation\<close>

definition depends :: "TaskNode list \<Rightarrow> (string \<times> string) set" where
  "depends tasks = {(d, i). \<exists>t \<in> set tasks. i = t_ID t \<and> d \<in> set (t_DependsOn t)}"

lemma adjOf_adjAppend:
  "adjOf (adjAppend adj dep i) n = (if n = dep then adjOf adj n @ [i] else adjOf adj n)"
  by (induction adj) (auto simp: adjOf_def split: if_splits)

lemma adjOf_fold_append:
  "set (adjOf (fold (\<lambda>dep a. adjAppend a dep i) deps adj) n) =
     set (adjOf adj n) \<union> (if n \<in> set deps then {i} else {})"
  by (induction deps arbitrary: adj) (auto simp: adjOf_adjAppend)

lemma adjOf_adjTouch [simp]: "adjOf (adjTouch adj i) n = adjOf adj n"
  by (auto simp: adjTouch_def adjOf_def map_add_def split: option.splits)

lemma edges_buildAdj: "edges (buildAdj tasks adj) = edges adj \<union> depends tasks"
  by (induction tasks arbitrary: adj)
    (auto simp: edges_def depends_def adjOf_fold_append split: if_splits)

lemma edges_Nil [simp]: "edges [] = {}"
  by (simp add: edges_def adjOf_def)

lemma edges_source_key: "(u, v) \<in> edges adj \<Longrightarrow> u \<in> set (map fst adj)"
  by (cases "map_of adj u") (auto simp: edges_def adjOf_def dest!: map_of_SomeD intro: rev_image_eqI)

lemma hasCycleOrder_iff:
  assumes "set ord = set (map fst (buildAdj tasks []))"
  shows "hasCycleOrder ord tasks \<longleftrightarrow> \<not> acyclic (depends tasks)"
proof -
  let ?adj = "buildAdj tasks []"
  have E: "edges ?adj = depends tasks" by (simp add: edges_buildAdj)
  have pre: "finished_ok ?adj (\<lambda>_. unvisited)" by (simp add: finished_ok_def)
  have "(rangeDfs ?adj ord (\<lambda>_. unvisited) \<longrightarrow> (\<exists>x. (x, x) \<in> (depends tasks)\<^sup>+)) \<and>
        (\<not> rangeDfs ?adj ord (\<lambda>_. unvisited) \<longrightarrow> (\<forall>n \<in> set ord. (n, n) \<notin> (depends tasks)\<^sup>+))"
    using rangeDfs_correct[OF pre, of ord] E by simp
  moreover have "x \<in> set ord" if "(x, x) \<in> (depends tasks)\<^sup>+" for x
    using that edges_source_key[of x _ ?adj] E assms by (metis tranclD)
  ultimately show ?thesis unfolding hasCycleOrder_def acyclic_def by blast
qed

lemma hasCycle_iff: "hasCycle tasks \<longleftrightarrow> \<not> acyclic (depends tasks)"
  unfolding hasCycle_def by (rule hasCycleOrder_iff) simp

section \<open>What ValidateWorkflow accepts\<close>

text \<open>The three forms of a condition, and the task each refers to.\<close>

definition condition_target :: "string \<Rightarrow> string option" where
  "condition_target c =
     (let c = trimSpace c
      in if hasPrefix c ''on_success:'' then Some (trimSpace (drop 11 c))
         else if hasPrefix c ''on_failed:'' then Some (trimSpace (drop 10 c))
         else if hasPrefix c ''output_contains:'' \<and> CHR '':'' \<in> set (drop 16 c)
           then Some (trimSpace (takeWhile (\<lambda>x. x \<noteq> CHR '':'') (drop 16 c)))
         else None)"

definition valid_condition :: "string set \<Rightarrow> string \<Rightarrow> bool" where
  "valid_condition ids c \<longleftrightarrow>
     trimSpace c = '''' \<or> trimSpace c = ''always'' \<or>
     (\<exists>i. condition_target c = Some i \<and> i \<noteq> '''' \<and> i \<in> ids)"

definition valid_task :: "string set \<Rightarrow> TaskNode \<Rightarrow> bool" where
  "valid_task ids t \<longleftrightarrow>
     0 \<le> t_RunAfter t \<and> 0 \<le> c_Timeout (t_Compensation t) \<and>
     (c_Input (t_Compensation t) \<noteq> [] \<longrightarrow> c_Action (t_Compensation t) \<noteq> '''') \<and>
     set (t_DependsOn t) \<subseteq> ids \<and> valid_condition ids (t_Condition t)"

definition valid_workflow :: "Workflow \<Rightarrow> bool" where
  "valid_workflow w \<longleftrightarrow>
     w_ID w \<noteq> '''' \<and> w_Tasks w \<noteq> [] \<and>
     distinct (map t_ID (w_Tasks w)) \<and> (\<forall>t \<in> set (w_Tasks w). t_ID t \<noteq> '''') \<and>
     (\<forall>t \<in> set (w_Tasks w). valid_task (t_ID ` set (w_Tasks w)) t) \<and>
     acyclic (depends (w_Tasks w))"

lemma dom_tasksByID_fold: "dom (fold (\<lambda>t m. m(t_ID t \<mapsto> t)) ts m) = dom m \<union> t_ID ` set ts"
  by (induction ts arbitrary: m) auto

lemma dom_tasksByID [simp]: "dom (tasksByID ts) = t_ID ` set ts"
  by (simp add: tasksByID_def dom_tasksByID_fold)

lemma tasksByID_None: "tasksByID ts i = None \<longleftrightarrow> i \<notin> t_ID ` set ts"
  by (metis domIff dom_tasksByID)

lemma tasksByID_fold_distinct:
  "distinct (map t_ID ts) \<Longrightarrow> t \<in> set ts \<Longrightarrow> fold (\<lambda>t m. m(t_ID t \<mapsto> t)) ts m (t_ID t) = Some t"
proof (induction ts arbitrary: m)
  case Nil
  then show ?case by simp
next
  case (Cons u ts)
  have keep: "i \<notin> t_ID ` set ts \<Longrightarrow> fold (\<lambda>t m. m(t_ID t \<mapsto> t)) ts m' i = m' i" for m' i
    by (induction ts arbitrary: m') auto
  show ?case
  proof (cases "t = u")
    case True
    with Cons.prems have "fold (\<lambda>t m. m(t_ID t \<mapsto> t)) ts (m(t_ID u \<mapsto> u)) (t_ID u) = Some u"
      by (subst keep) simp_all
    with True show ?thesis by (simp del: fun_upd_apply)
  next
    case False
    with Cons show ?thesis by simp
  qed
qed

lemma tasksByID_distinct: "distinct (map t_ID ts) \<Longrightarrow> t \<in> set ts \<Longrightarrow> tasksByID ts (t_ID t) = Some t"
  unfolding tasksByID_def by (rule tasksByID_fold_distinct)

lemma tasksByID_SomeD: "distinct (map t_ID ts) \<Longrightarrow> tasksByID ts i = Some t \<Longrightarrow> t \<in> set ts \<and> t_ID t = i"
  by (metis domI dom_tasksByID imageE option.inject tasksByID_distinct)

lemma checkTaskIDs_None:
  "checkTaskIDs ts seen = None \<longleftrightarrow>
     distinct (map t_ID ts) \<and> (\<forall>t \<in> set ts. t_ID t \<noteq> '''' \<and> t_ID t \<notin> seen)"
proof (induction ts arbitrary: seen)
  case Nil
  then show ?case by simp
next
  case (Cons t ts)
  have "t_ID t \<notin> t_ID ` set ts \<longleftrightarrow> (\<forall>u \<in> set ts. t_ID u \<noteq> t_ID t)" by (metis image_iff)
  with Cons show ?case by auto
qed

lemma strSplit2_colon:
  "(length (strSplit2 s c) = 2) = (c \<in> set s)"
  "c \<in> set s \<Longrightarrow> strSplit2 s c ! 0 = takeWhile (\<lambda>x. x \<noteq> c) s"
proof -
  show "(length (strSplit2 s c) = 2) = (c \<in> set s)" using strSplit2_spec[of c s] by auto
  assume "c \<in> set s"
  then obtain a b where "s = a @ c # b" "c \<notin> set a" "strSplit2 s c = [a, b]"
    using strSplit2_spec[of c s] by auto
  then show "strSplit2 s c ! 0 = takeWhile (\<lambda>x. x \<noteq> c) s"
    by (auto simp: takeWhile_append)
qed

lemma trimPrefix_drop: "hasPrefix s p \<Longrightarrow> trimPrefix s p = drop (length p) s"
  by (simp add: hasPrefix_def trimPrefix_def)

lemma requireTaskExists_None:
  "hasPrefix c p \<Longrightarrow> requireTaskExists t (tasksByID ts) c p = None \<longleftrightarrow>
     trimSpace (drop (length p) c) \<noteq> '''' \<and> trimSpace (drop (length p) c) \<in> t_ID ` set ts"
  by (simp add: requireTaskExists_def trimPrefix_drop tasksByID_None Let_def)

lemma validateConditionReference_None:
  "validateConditionReference t (tasksByID ts) = None \<longleftrightarrow> valid_condition (t_ID ` set ts) (t_Condition t)"
proof -
  let ?c = "trimSpace (t_Condition t)"
  note defs = validateConditionReference_def valid_condition_def condition_target_def Let_def
  consider (plain) "?c = '''' \<or> ?c = ''always''"
    | (succ) "?c \<noteq> ''''" "?c \<noteq> ''always''" "hasPrefix ?c ''on_success:''"
    | (fail) "?c \<noteq> ''''" "?c \<noteq> ''always''" "\<not> hasPrefix ?c ''on_success:''" "hasPrefix ?c ''on_failed:''"
    | (out) "?c \<noteq> ''''" "?c \<noteq> ''always''" "\<not> hasPrefix ?c ''on_success:''" "\<not> hasPrefix ?c ''on_failed:''"
    by blast
  then show ?thesis
  proof cases
    case plain
    then show ?thesis by (auto simp: defs)
  next
    case succ
    then show ?thesis by (simp add: defs requireTaskExists_None eval_nat_numeral)
  next
    case fail
    then show ?thesis by (simp add: defs requireTaskExists_None eval_nat_numeral)
  next
    case out
    show ?thesis
    proof (cases "hasPrefix ?c ''output_contains:''")
      case True
      then have tp: "trimPrefix ?c ''output_contains:'' = drop 16 ?c" by (simp add: trimPrefix_drop eval_nat_numeral)
      show ?thesis
      proof (cases "CHR '':'' \<in> set (drop 16 ?c)")
        case colon: True
        then have "strSplit2 (drop 16 ?c) (CHR '':'') ! 0 = takeWhile (\<lambda>x. x \<noteq> CHR '':'') (drop 16 ?c)"
          and "length (strSplit2 (drop 16 ?c) (CHR '':'')) = 2"
          using strSplit2_colon by blast+
        with True out tp colon show ?thesis by (simp add: defs tasksByID_None)
      next
        case nocolon: False
        then have "length (strSplit2 (drop 16 ?c) (CHR '':'')) \<noteq> 2" using strSplit2_colon(1) by blast
        with True out tp nocolon show ?thesis by (simp add: defs)
      qed
    next
      case False
      with out show ?thesis by (simp add: defs)
    qed
  qed
qed

lemma checkTask_None:
  "checkTask (tasksByID ts) t = None \<longleftrightarrow> valid_task (t_ID ` set ts) t"
proof (cases "find (\<lambda>dep. tasksByID ts dep = None) (t_DependsOn t)")
  case None
  then have "set (t_DependsOn t) \<subseteq> t_ID ` set ts" by (auto simp: find_None_iff tasksByID_None)
  with None show ?thesis by (auto simp: checkTask_def valid_task_def validateConditionReference_None)
next
  case (Some dep)
  then have "dep \<in> set (t_DependsOn t)" "dep \<notin> t_ID ` set ts"
    by (auto simp: find_Some_iff tasksByID_None)
  then have "\<not> set (t_DependsOn t) \<subseteq> t_ID ` set ts" by blast
  with Some show ?thesis by (simp add: checkTask_def valid_task_def)
qed

lemma checkTasks_None: "checkTasks byID ts = None \<longleftrightarrow> (\<forall>t \<in> set ts. checkTask byID t = None)"
  by (induction ts) (auto split: option.splits)

lemma ValidateWorkflow_iff: "ValidateWorkflow w = None \<longleftrightarrow> valid_workflow w"
proof -
  have "ValidateWorkflow w = None \<longleftrightarrow>
      w_ID w \<noteq> '''' \<and> w_Tasks w \<noteq> [] \<and> checkTaskIDs (w_Tasks w) {} = None \<and>
      checkTasks (tasksByID (w_Tasks w)) (w_Tasks w) = None \<and> \<not> hasCycle (w_Tasks w)"
    by (auto simp: ValidateWorkflow_def split: option.splits if_splits)
  then show ?thesis
    by (auto simp: valid_workflow_def checkTaskIDs_None checkTasks_None checkTask_None hasCycle_iff)
qed

end
