(* ===== verification/Templates.thy ===== *)
theory Templates
  imports Graph
begin

text \<open>
  The parts of \<^verbatim>\<open>internal/engine/executor.go\<close> that read the results collected so far:
  \<open>evaluateCondition\<close> decides whether a ready task runs, \<open>resolveInputTemplates\<close> replaces the
  \<^verbatim>\<open>${task.field}\<close> references of its input. The replacement loop rescans the text it inserts, so it
  need not end: \<open>resolveValue\<close> is a \<^theory_text>\<open>partial_function\<close> into \<^typ>\<open>(error + string) option\<close>
  whose value \<^const>\<open>None\<close> is divergence.
\<close>

section \<open>Definitions\<close>

definition evaluateCondition :: "TaskNode \<Rightarrow> results \<Rightarrow> bool \<times> string" where
  "evaluateCondition task results =
     (let condition = trimSpace (t_Condition task)
      in if condition = '''' \<or> condition = ''always'' then (True, '''')
         else if hasPrefix condition ''on_success:''
           then (let taskID = trimSpace (trimPrefix condition ''on_success:'')
                 in case results taskID of
                      None \<Rightarrow> (False, ''condition not met: '' @ condition)
                    | Some res \<Rightarrow> if tr_Status res \<noteq> TaskStatusSuccess
                                  then (False, ''condition not met: '' @ condition) else (True, ''''))
         else if hasPrefix condition ''on_failed:''
           then (let taskID = trimSpace (trimPrefix condition ''on_failed:'')
                 in case results taskID of
                      None \<Rightarrow> (False, ''condition not met: '' @ condition)
                    | Some res \<Rightarrow> if tr_Status res \<noteq> TaskStatusFailed
                                  then (False, ''condition not met: '' @ condition) else (True, ''''))
         else if hasPrefix condition ''output_contains:''
           then (let parts = strSplit2 (trimPrefix condition ''output_contains:'') (CHR '':'')
                 in if length parts \<noteq> 2 then (False, ''invalid condition syntax: '' @ condition)
                    else (let taskID = trimSpace (parts ! 0); needle = parts ! 1
                          in case results taskID of
                               None \<Rightarrow> (False, ''condition not met: '' @ condition)
                             | Some res \<Rightarrow> if \<not> strContains (tr_Output res) needle
                                           then (False, ''condition not met: '' @ condition)
                                           else (True, '''')))
         else (False, ''unsupported condition: '' @ condition))"

text \<open>One turn of the loop in \<open>resolveValue\<close>: leave it, fail, or continue with the next text.\<close>

datatype templateStep = TemplateDone | TemplateError error | TemplateNext string

definition resolveField :: "TaskResult \<Rightarrow> string \<Rightarrow> error + string" where
  "resolveField res field =
     (if field = ''output'' then Inr (tr_Output res)
      else if field = ''status'' then Inr (taskStatusString (tr_Status res))
      else if field = ''error'' then Inr (tr_Error res)
      else Inl (''unsupported template field '' @ quote field))"

definition resolveStep :: "string \<Rightarrow> results \<Rightarrow> string \<Rightarrow> templateStep" where
  "resolveStep raw results output =
     (case strIndex output ''${'' of
        None \<Rightarrow> TemplateDone
      | Some start \<Rightarrow>
          (case strIndex (drop start output) ''}'' of
             None \<Rightarrow> TemplateError (''unclosed template in input: '' @ raw)
           | Some endRelative \<Rightarrow>
               (let end0 = start + endRelative;
                    token = trimSpace (take (end0 - (start + 2)) (drop (start + 2) output));
                    parts = strSplit token (CHR ''.'')
                in if length parts \<noteq> 2 then TemplateError (''invalid template token '' @ quote token)
                   else (let taskID = trimSpace (parts ! 0); field = trimSpace (parts ! 1)
                         in case results taskID of
                              None \<Rightarrow> TemplateError (''template references unknown task '' @ quote taskID)
                            | Some res \<Rightarrow>
                                (case resolveField res field of
                                   Inl e \<Rightarrow> TemplateError e
                                 | Inr replacement \<Rightarrow>
                                     TemplateNext (take start output @ replacement
                                                   @ drop (end0 + 1) output))))))"

partial_function (option) resolveLoop ::
  "string \<Rightarrow> results \<Rightarrow> string \<Rightarrow> (error + string) option" where
  "resolveLoop raw results output =
     (case resolveStep raw results output of
        TemplateDone \<Rightarrow> Some (Inr output)
      | TemplateError e \<Rightarrow> Some (Inl e)
      | TemplateNext output' \<Rightarrow> resolveLoop raw results output')"

declare resolveLoop.simps [code]

definition resolveValue :: "string \<Rightarrow> results \<Rightarrow> (error + string) option" where
  "resolveValue raw results = resolveLoop raw results raw"

fun resolveInputTemplates :: "bindings \<Rightarrow> results \<Rightarrow> (error + bindings) option" where
  "resolveInputTemplates [] results = Some (Inr [])"
| "resolveInputTemplates ((k, v) # input) results =
     (case resolveValue v results of
        None \<Rightarrow> None
      | Some (Inl e) \<Rightarrow> Some (Inl e)
      | Some (Inr next) \<Rightarrow>
          (case resolveInputTemplates input results of
             None \<Rightarrow> None
           | Some (Inl e) \<Rightarrow> Some (Inl e)
           | Some (Inr rest) \<Rightarrow> Some (Inr ((k, next) # rest))))"

section \<open>Conditions\<close>

text \<open>The condition of a task that passed validation is never reported as malformed, and its verdict
  is a statement about the result of the task it names.\<close>

lemma evaluateCondition_always:
  "trimSpace (t_Condition t) \<in> {'''', ''always''} \<Longrightarrow> evaluateCondition t results = (True, '''')"
  by (auto simp: evaluateCondition_def Let_def)

lemma evaluateCondition_on_failed:
  assumes "hasPrefix (trimSpace (t_Condition t)) ''on_failed:''"
  shows "fst (evaluateCondition t results) \<longleftrightarrow>
     (\<exists>res. results (trimSpace (drop 10 (trimSpace (t_Condition t)))) = Some res \<and>
            tr_Status res = TaskStatusFailed)"
proof -
  let ?c = "trimSpace (t_Condition t)"
  obtain rest where c: "?c = ''on_failed:'' @ rest"
    using assms by (auto simp: hasPrefix_def prefix_def)
  then have "?c \<noteq> ''''" "?c \<noteq> ''always''" "\<not> hasPrefix ?c ''on_success:''"
    by (auto simp: hasPrefix_def)
  moreover have "trimPrefix ?c ''on_failed:'' = drop 10 ?c"
    using assms by (simp add: trimPrefix_drop eval_nat_numeral)
  ultimately show ?thesis
    using assms by (auto simp: evaluateCondition_def Let_def split: option.splits)
qed

section \<open>Templates: termination\<close>

lemma resolveStep_next:
  assumes "resolveStep raw results out = TemplateNext out'"
  shows "\<exists>pre tok post repl res taskID. out = pre @ ''${'' @ tok @ ''}'' @ post \<and>
     out' = pre @ repl @ post \<and> results taskID = Some res \<and>
     repl \<in> {tr_Output res, taskStatusString (tr_Status res), tr_Error res}"
proof -
  obtain start where st: "strIndex out ''${'' = Some start"
    using assms by (auto simp: resolveStep_def split: option.splits)
  obtain er where er: "strIndex (drop start out) ''}'' = Some er"
    using assms st by (auto simp: resolveStep_def split: option.splits)
  have p1: "prefix ''${'' (drop start out)" using strIndex_Some[OF st] by simp
  have p2: "prefix ''}'' (drop (start + er) out)"
    using strIndex_Some[OF er] by (simp add: add.commute)
  have "er \<noteq> 0" "er \<noteq> 1"
  proof -
    from p1 obtain w where w: "drop start out = ''${'' @ w" by (auto simp: prefix_def)
    have "prefix ''}'' (drop er (drop start out))" using p2 by (simp add: add.commute)
    then show "er \<noteq> 0" "er \<noteq> 1" by (auto simp: w intro: ccontr)
  qed
  then have er2: "2 \<le> er" by simp
  let ?tok = "take (start + er - (start + 2)) (drop (start + 2) out)"
  have split1: "out = take start out @ ''${'' @ drop (start + 2) out"
  proof -
    from p1 obtain w where w: "drop start out = ''${'' @ w" by (auto simp: prefix_def)
    have "drop (start + 2) out = drop 2 (drop start out)" by (simp add: add.commute)
    with w have "drop start out = ''${'' @ drop (start + 2) out" by (simp add: eval_nat_numeral)
    then show ?thesis by (metis append_take_drop_id)
  qed
  have split2: "drop (start + 2) out = ?tok @ ''}'' @ drop (start + er + 1) out"
  proof -
    have "drop (start + er) out = ''}'' @ drop (start + er + 1) out"
      using p2 by (auto simp: prefix_def) (metis drop_Suc drop_drop plus_1_eq_Suc tl_drop list.sel(3))
    moreover have "drop (start + er) out = drop (er - 2) (drop (start + 2) out)"
    proof -
      have "er - 2 + (start + 2) = start + er" using er2 by simp
      then show ?thesis by (simp only: drop_drop)
    qed
    ultimately have "drop (start + 2) out =
        take (er - 2) (drop (start + 2) out) @ ''}'' @ drop (start + er + 1) out"
      by (metis append_take_drop_id)
    then show ?thesis by (simp add: numeral_2_eq_2)
  qed
  from assms st er obtain taskID res repl field where
    "results taskID = Some res" and rf: "resolveField res field = Inr repl" and
    "out' = take start out @ repl @ drop (start + er + 1) out"
    by (auto simp: resolveStep_def Let_def split: option.splits if_splits sum.splits)
  moreover have "repl \<in> {tr_Output res, taskStatusString (tr_Status res), tr_Error res}"
    using rf by (auto simp: resolveField_def split: if_splits)
  ultimately show ?thesis using split1 split2
    by (intro exI[of _ "take start out"] exI[of _ ?tok] exI[of _ "drop (start + er + 1) out"]
        exI[of _ repl] exI[of _ res] exI[of _ taskID] conjI) simp_all
qed

text \<open>If no output and no error text contains a dollar sign, every turn of the loop removes one from the
  text, so the loop ends.\<close>

definition dollarFree :: "results \<Rightarrow> bool" where
  "dollarFree results \<longleftrightarrow>
     (\<forall>i res. results i = Some res \<longrightarrow> CHR ''$'' \<notin> set (tr_Output res) \<and> CHR ''$'' \<notin> set (tr_Error res))"

lemma resolveStep_decreases:
  assumes "resolveStep raw results out = TemplateNext out'" and "dollarFree results"
  shows "count_list out' (CHR ''$'') < count_list out (CHR ''$'')"
proof -
  obtain pre tok post repl res taskID where
    *: "out = pre @ ''${'' @ tok @ ''}'' @ post" "out' = pre @ repl @ post"
       "results taskID = Some res"
       "repl \<in> {tr_Output res, taskStatusString (tr_Status res), tr_Error res}"
    using resolveStep_next[OF assms(1)] by blast
  have "CHR ''$'' \<notin> set repl"
    using *(3,4) assms(2) by (auto simp: dollarFree_def)
  then have "count_list repl (CHR ''$'') = 0" by (simp add: count_list_0_iff)
  then show ?thesis using *(1,2) by simp
qed

lemma resolveLoop_terminates: "dollarFree results \<Longrightarrow> \<exists>r. resolveLoop raw results out = Some r"
proof (induction "count_list out (CHR ''$'')" arbitrary: out rule: less_induct)
  case less
  show ?case
  proof (cases "resolveStep raw results out")
    case (TemplateNext out')
    with less obtain r where "resolveLoop raw results out' = Some r"
      using resolveStep_decreases by blast
    with TemplateNext show ?thesis by (simp add: resolveLoop.simps)
  qed (simp_all add: resolveLoop.simps)
qed

text \<open>Whenever the loop returns a text, that text holds no reference any more.\<close>

lemma resolveStep_done: "resolveStep raw results out = TemplateDone \<longleftrightarrow> strIndex out ''${'' = None"
  by (auto simp: resolveStep_def Let_def split: option.splits if_splits sum.splits)

lemma resolveLoop_done:
  assumes "resolveLoop raw results out = Some (Inr v)"
  shows "\<not> strContains v ''${''"
proof -
  have "\<forall>v. r = Inr v \<longrightarrow> strIndex v ''${'' = None" if "resolveLoop raw results out = Some r" for r
  proof (rule resolveLoop.raw_induct[where P = "\<lambda>_ _ _ r. \<forall>v. r = Inr v \<longrightarrow> strIndex v ''${'' = None", OF _ that])
    fix f raw results out r
    assume IH: "\<And>a b c y. f a b c = Some y \<Longrightarrow> \<forall>v. y = Inr v \<longrightarrow> strIndex v ''${'' = None"
      and eq: "(case resolveStep raw results out of
           TemplateDone \<Rightarrow> Some (Inr out)
         | TemplateError e \<Rightarrow> Some (Inl e)
         | TemplateNext out' \<Rightarrow> f raw results out') = Some r"
    show "\<forall>v. r = Inr v \<longrightarrow> strIndex v ''${'' = None"
      using eq IH resolveStep_done
      by (cases "resolveStep raw results out") auto
  qed
  then show ?thesis using assms by (simp add: strContains_def)
qed

lemma resolveValue_plain: "\<not> strContains v ''${'' \<Longrightarrow> resolveValue v results = Some (Inr v)"
  by (simp add: resolveValue_def resolveLoop.simps strContains_def resolveStep_done[THEN iffD2])

lemma resolveInputTemplates_plain:
  "(\<forall>(k, v) \<in> set input. \<not> strContains v ''${'') \<Longrightarrow> resolveInputTemplates input results = Some (Inr input)"
  by (induction input) (auto simp: resolveValue_plain)

lemma resolveInputTemplates_terminates:
  "dollarFree results \<Longrightarrow> resolveInputTemplates input results \<noteq> None"
proof (induction input results rule: resolveInputTemplates.induct)
  case (2 k v input results)
  then obtain r where "resolveValue v results = Some r"
    using resolveLoop_terminates by (metis resolveValue_def)
  with 2 show ?case by (auto split: option.splits sum.splits)
qed simp

section \<open>Templates: what a reference is replaced by\<close>

lemma strIndex_first: "c \<notin> set a \<Longrightarrow> strIndex (a @ c # sub @ b) (c # sub) = Some (length a)"
proof (induction a)
  case Nil
  then show ?case by (simp add: prefix_def)
next
  case (Cons x a)
  then show ?case by simp
qed

lemma strIndex_absent: "c \<notin> set s \<Longrightarrow> strIndex s (c # sub) = None"
  by (induction s) auto

lemma strSplit_absent: "c \<notin> set s \<Longrightarrow> strSplit s c = [s]"
  by (induction s) auto

lemma strSplit_once: "c \<notin> set a \<Longrightarrow> c \<notin> set b \<Longrightarrow> strSplit (a @ c # b) c = [a, b]"
  by (induction a) (auto simp: strSplit_absent)

lemma resolveStep_ref:
  assumes "CHR ''$'' \<notin> set a" and "CHR ''}'' \<notin> set tok" and "strSplit (trimSpace tok) (CHR ''.'') = [i, f]"
    and "results (trimSpace i) = Some res" and "resolveField res (trimSpace f) = Inr v"
  shows "resolveStep raw results (a @ ''${'' @ tok @ ''}'' @ b) = TemplateNext (a @ v @ b)"
proof -
  let ?out = "a @ ''${'' @ tok @ ''}'' @ b"
  have 1: "strIndex ?out ''${'' = Some (length a)"
    using strIndex_first[OF assms(1), of "''{''"] by simp
  have 2: "strIndex (drop (length a) ?out) ''}'' = Some (2 + length tok)"
    using strIndex_first[of "CHR ''}''" "''${'' @ tok" "[]" b] assms(2) by simp
  have 3: "take (length a + (2 + length tok) - (length a + 2)) (drop (length a + 2) ?out) = tok" by simp
  have 4: "drop (length a + (2 + length tok) + 1) ?out = b" by (simp add: eval_nat_numeral)
  show ?thesis
    unfolding resolveStep_def 1 option.case 2 Let_def 3 4 using assms(3,4,5) by simp
qed

text \<open>An input text as a sequence of literal text and references.\<close>

datatype segment = Literal string | Ref string string

fun renderSegment :: "segment \<Rightarrow> string" where
  "renderSegment (Literal s) = s"
| "renderSegment (Ref task field) = ''${'' @ task @ ''.'' @ field @ ''}''"

fun segmentValue :: "results \<Rightarrow> segment \<Rightarrow> string" where
  "segmentValue results (Literal s) = s"
| "segmentValue results (Ref task field) =
     (case results task of
        None \<Rightarrow> ''''
      | Some res \<Rightarrow> (case resolveField res field of Inl e \<Rightarrow> '''' | Inr v \<Rightarrow> v))"

definition plainName :: "string \<Rightarrow> bool" where
  "plainName s \<longleftrightarrow> trimSpace s = s \<and> CHR ''.'' \<notin> set s \<and> CHR ''}'' \<notin> set s"

fun segment_ok :: "results \<Rightarrow> segment \<Rightarrow> bool" where
  "segment_ok results (Literal s) \<longleftrightarrow> CHR ''$'' \<notin> set s"
| "segment_ok results (Ref task field) \<longleftrightarrow>
     plainName task \<and> results task \<noteq> None \<and> field \<in> {''output'', ''status'', ''error''}"

lemma prefix_before_dot: "c \<notin> set r \<Longrightarrow> prefix r (a @ c # b) \<Longrightarrow> prefix r a"
  by (auto simp: prefix_append prefix_Cons)

lemma suffix_after_dot: "c \<notin> set r \<Longrightarrow> suffix r (a @ c # b) \<Longrightarrow> suffix r b"
  using prefix_before_dot[of c "rev r" "rev b" "rev a"] by (simp add: suffix_to_prefix)

lemma spaceRunes_no_dot: "r \<in> set spaceRunes \<Longrightarrow> CHR ''.'' \<notin> set r"
  by (auto simp: spaceRunes_def)

lemma trimSpace_dotted:
  assumes "trimSpace a = a" and "trimSpace b = b"
  shows "trimSpace (a @ ''.'' @ b) = a @ ''.'' @ b"
proof (rule trimSpace_id, intro conjI)
  fix r
  assume r: "r \<in> set spaceRunes"
  show "\<not> prefix r (a @ ''.'' @ b)"
    using prefix_before_dot[OF spaceRunes_no_dot[OF r], of a b] trimSpace_no_leading[OF r, of a] assms(1)
    by auto
  show "\<not> suffix r (a @ ''.'' @ b)"
    using suffix_after_dot[OF spaceRunes_no_dot[OF r], of a b] trimSpace_no_trailing[OF r, of b] assms(2)
    by auto
qed

lemma fieldName_plain:
  assumes "field \<in> {''output'', ''status'', ''error''}"
  shows "plainName field" and "\<exists>v. resolveField res field = Inr v"
proof -
  have "trimSpace ''output'' = ''output''" "trimSpace ''status'' = ''status''" "trimSpace ''error'' = ''error''"
    by code_simp+
  with assms show "plainName field" by (auto simp: plainName_def)
  show "\<exists>v. resolveField res field = Inr v" using assms by (auto simp: resolveField_def)
qed

lemma resolveField_dollarFree:
  "dollarFree results \<Longrightarrow> results i = Some res \<Longrightarrow> resolveField res f = Inr v \<Longrightarrow> CHR ''$'' \<notin> set v"
  by (auto simp: resolveField_def dollarFree_def split: if_splits)

lemma resolveStep_Ref:
  assumes "segment_ok results (Ref task field)" and "CHR ''$'' \<notin> set a"
  shows "resolveStep raw results (a @ renderSegment (Ref task field) @ b) =
           TemplateNext (a @ segmentValue results (Ref task field) @ b)"
proof -
  from assms(1) obtain res v where res: "results task = Some res" and v: "resolveField res field = Inr v"
    using fieldName_plain(2) by force
  have names: "plainName task" "plainName field"
    using assms(1) fieldName_plain(1) by auto
  then have tok: "trimSpace (task @ ''.'' @ field) = task @ ''.'' @ field"
    by (intro trimSpace_dotted) (auto simp: plainName_def)
  have "strSplit (trimSpace (task @ ''.'' @ field)) (CHR ''.'') = [task, field]"
    unfolding tok using names strSplit_once[of "CHR ''.''" task field] by (simp add: plainName_def)
  from resolveStep_ref[OF assms(2) _ this, of results res v raw b] names res v
  show ?thesis by (simp add: plainName_def)
qed

lemma resolveLoop_segments:
  assumes "dollarFree results" and "\<forall>s \<in> set segs. segment_ok results s" and "CHR ''$'' \<notin> set a"
  shows "resolveLoop raw results (a @ concat (map renderSegment segs)) =
           Some (Inr (a @ concat (map (segmentValue results) segs)))"
  using assms(2,3)
proof (induction segs arbitrary: a)
  case Nil
  then have "resolveStep raw results a = TemplateDone"
    by (simp add: resolveStep_done strIndex_absent)
  then show ?case by (simp add: resolveLoop.simps)
next
  case (Cons s segs)
  show ?case
  proof (cases s)
    case (Literal l)
    with Cons.IH[of "a @ l"] Cons.prems show ?thesis by simp
  next
    case (Ref task field)
    let ?v = "segmentValue results (Ref task field)"
    have ok: "segment_ok results (Ref task field)" using Cons.prems(1) Ref by simp
    have "CHR ''$'' \<notin> set ?v"
      using resolveField_dollarFree[OF assms(1)]
      by (auto split: option.split sum.split dest!: sym[of "Some _"] sym[of "Inr _"])
    with Cons.IH[of "a @ ?v"] Cons.prems
    have "resolveLoop raw results (a @ ?v @ concat (map renderSegment segs)) =
       Some (Inr (a @ ?v @ concat (map (segmentValue results) segs)))" by simp
    moreover note resolveStep_Ref[OF ok Cons.prems(2), of raw "concat (map renderSegment segs)"]
    ultimately show ?thesis
      using Ref by (subst resolveLoop.simps) simp
  qed
qed

section \<open>Templates: divergence\<close>

text \<open>A recorded text that contains a reference to itself is inserted again and again.\<close>

lemma resolveLoop_diverges:
  assumes self: "\<And>a b. CHR ''$'' \<notin> set a \<Longrightarrow>
      resolveStep raw results (a @ ref @ b) = TemplateNext (a @ p @ ref @ q @ b)"
    and p: "CHR ''$'' \<notin> set p" and a: "CHR ''$'' \<notin> set a"
  shows "resolveLoop raw results (a @ ref @ b) = None"
proof (rule ccontr)
  assume "resolveLoop raw results (a @ ref @ b) \<noteq> None"
  then obtain r where ret: "resolveLoop raw results (a @ ref @ b) = Some r" by blast
  have "\<forall>a b. raw' = raw \<longrightarrow> res' = results \<longrightarrow> out = a @ ref @ b \<longrightarrow> CHR ''$'' \<in> set a"
    if "resolveLoop raw' res' out = Some r" for raw' res' out r
  proof (rule resolveLoop.raw_induct[where P = "\<lambda>raw' res' out r. \<forall>a b. raw' = raw \<longrightarrow> res' = results
      \<longrightarrow> out = a @ ref @ b \<longrightarrow> CHR ''$'' \<in> set a", OF _ that], intro allI impI, rule ccontr)
    fix f raw' res' out r a b
    assume IH: "\<And>raw' res' out r. f raw' res' out = Some r \<Longrightarrow>
        \<forall>a b. raw' = raw \<longrightarrow> res' = results \<longrightarrow> out = a @ ref @ b \<longrightarrow> CHR ''$'' \<in> set a"
      and eq: "(case resolveStep raw' res' out of
           TemplateDone \<Rightarrow> Some (Inr out)
         | TemplateError e \<Rightarrow> Some (Inl e)
         | TemplateNext out' \<Rightarrow> f raw' res' out') = Some r"
      and same: "raw' = raw" "res' = results" and out: "out = a @ ref @ b"
      and a: "CHR ''$'' \<notin> set a"
    from self[OF a, of b] eq same out have "f raw results (a @ p @ ref @ q @ b) = Some r" by simp
    from IH[OF this] have "CHR ''$'' \<in> set (a @ p)"
      by (metis append.assoc)
    with a p show False by simp
  qed
  from this[OF ret] a show False by blast
qed

lemma resolveValue_self_reference:
  assumes "plainName i" and "results i = Some res" and "tr_Error res = p @ ''${'' @ i @ ''.error}'' @ q"
    and "CHR ''$'' \<notin> set p"
  shows "resolveValue (''${'' @ i @ ''.error}'') results = None"
proof -
  let ?ref = "renderSegment (Ref i ''error'')"
  have ok: "segment_ok results (Ref i ''error'')" using assms(1,2) by simp
  have val: "segmentValue results (Ref i ''error'') = p @ ?ref @ q"
    using assms(2,3) by (simp add: resolveField_def)
  have "resolveLoop ?ref results ([] @ ?ref @ []) = None"
    using resolveStep_Ref[OF ok] val assms(4)
    by (intro resolveLoop_diverges[where p = p and q = q]) simp_all
  then show ?thesis by (simp add: resolveValue_def)
qed

end
