(* ===== verification/Actions.thy ===== *)
theory Actions
  imports Domain
begin

text \<open>
  \<^verbatim>\<open>internal/actions/registry.go\<close>: the action registry and the three built-in actions, and
  \<^verbatim>\<open>strconv.Atoi\<close>, by which they read numbers. What an action sees of the world during one call of
  \<^verbatim>\<open>Execute\<close> is a value of a type \<open>'e\<close>; for the built-in actions it is \<open>builtinEnv\<close>: the
  context error if the context is done before the timer fires, and the number \<^verbatim>\<open>rand.Intn(100)\<close> draws.
\<close>

section \<open>Definitions\<close>

text \<open>An error returned by \<^verbatim>\<open>Execute\<close>: its text, and whether \<^verbatim>\<open>errors.Is\<close> finds
  \<^verbatim>\<open>context.Canceled\<close> or \<^verbatim>\<open>context.DeadlineExceeded\<close> in it.\<close>

datatype execError = ExecError (errText: error) (isContextError: bool)

type_synonym 'e action = "'e \<Rightarrow> bindings \<Rightarrow> execError + string"

record 'e Registry =
  reg_actions :: "string \<rightharpoonup> 'e action"

definition NewRegistry :: "'e Registry" where
  "NewRegistry = \<lparr>reg_actions = Map.empty\<rparr>"

definition Register :: "string \<Rightarrow> 'e action \<Rightarrow> 'e Registry \<Rightarrow> 'e Registry" where
  "Register name act r = r\<lparr>reg_actions := (reg_actions r)(name \<mapsto> act)\<rparr>"

definition Get :: "'e Registry \<Rightarrow> string \<Rightarrow> 'e action option" where
  "Get r name = reg_actions r name"

subsection \<open>strconv.Atoi\<close>

definition isDigit :: "char \<Rightarrow> bool" where
  "isDigit c \<longleftrightarrow> 48 \<le> (of_char c :: nat) \<and> (of_char c :: nat) \<le> 57"

datatype numError = ErrSyntax | ErrRange

fun parseUint :: "string \<Rightarrow> nat \<Rightarrow> numError + nat" where
  "parseUint [] n = Inr n"
| "parseUint (c # cs) n =
     (if \<not> isDigit c then Inl ErrSyntax
      else let n1 = n * 10 + (of_char c - 48)
           in if n1 > 18446744073709551615 then Inl ErrRange else parseUint cs n1)"

fun splitSign :: "string \<Rightarrow> bool \<times> string" where
  "splitSign [] = (False, [])"
| "splitSign (c # cs) =
     (if c = CHR ''-'' then (True, cs) else if c = CHR ''+'' then (False, cs) else (False, c # cs))"

definition parseInt :: "string \<Rightarrow> numError + int" where
  "parseInt s =
     (case splitSign s of (neg, ds) \<Rightarrow>
        if ds = [] then Inl ErrSyntax
        else case parseUint ds 0 of
               Inl e \<Rightarrow> Inl e
             | Inr un \<Rightarrow> if \<not> neg \<and> un \<ge> 9223372036854775808 then Inl ErrRange
                         else if neg \<and> un > 9223372036854775808 then Inl ErrRange
                         else Inr (if neg then - int un else int un))"

definition atoi :: "string \<Rightarrow> error + int" where
  "atoi s =
     (case parseInt s of
        Inr i \<Rightarrow> Inr i
      | Inl ErrSyntax \<Rightarrow> Inl (''strconv.Atoi: parsing '' @ quote s @ '': invalid syntax'')
      | Inl ErrRange \<Rightarrow> Inl (''strconv.Atoi: parsing '' @ quote s @ '': value out of range''))"

subsection \<open>Built-in actions\<close>

record builtinEnv =
  be_ctxDone :: "error option"
  be_rand :: int

definition PrintAction :: "builtinEnv action" where
  "PrintAction env input =
     (let message = lookupOrEmpty input ''message''
      in if message = '''' then Inr ''print action executed'' else Inr message)"

definition WaitAction :: "builtinEnv action" where
  "WaitAction env input =
     (let msRaw = lookupOrEmpty input ''durationMs'';
          msRaw = (if msRaw = '''' then ''100'' else msRaw)
      in case atoi msRaw of
           Inl err \<Rightarrow> Inl (ExecError (''invalid durationMs: '' @ err) False)
         | Inr durationMs \<Rightarrow>
             (case be_ctxDone env of
                Some err \<Rightarrow> Inl (ExecError err True)
              | None \<Rightarrow> Inr (''waited for '' @ itoa durationMs @ ''ms'')))"

definition randomFailDecide :: "builtinEnv \<Rightarrow> int \<Rightarrow> execError + string" where
  "randomFailDecide env threshold =
     (if be_rand env < threshold then Inl (ExecError ''random failure triggered'' False)
      else Inr ''random success'')"

definition RandomFailAction :: "builtinEnv action" where
  "RandomFailAction env input =
     (let val = lookupOrEmpty input ''failPercent''
      in if val \<noteq> ''''
         then (case atoi val of
                 Inl err \<Rightarrow> Inl (ExecError (''invalid failPercent: '' @ err) False)
               | Inr parsed \<Rightarrow>
                   if parsed < 0 \<or> parsed > 100
                   then Inl (ExecError ''failPercent must be between 0 and 100'' False)
                   else randomFailDecide env parsed)
         else randomFailDecide env 50)"

definition RegisterBuiltins :: "builtinEnv Registry \<Rightarrow> builtinEnv Registry" where
  "RegisterBuiltins r =
     Register ''randomFail'' RandomFailAction (Register ''wait'' WaitAction (Register ''print'' PrintAction r))"

section \<open>Reading back printed numbers\<close>

lemma of_char_digit: "n < 10 \<Longrightarrow> of_char (char_of (48 + n :: nat)) = (48 + n :: nat)"
  by (simp add: of_char_of take_bit_eq_mod)

lemma isDigit_digit: "n < 10 \<Longrightarrow> isDigit (char_of (48 + n :: nat))"
  by (simp add: isDigit_def of_char_digit)

lemma parseUint_append:
  "parseUint (xs @ ys) n = (case parseUint xs n of Inl e \<Rightarrow> Inl e | Inr m \<Rightarrow> parseUint ys m)"
  by (induction xs n rule: parseUint.induct) (auto simp: Let_def)

lemma parseUint_natDigits: "n \<le> 18446744073709551615 \<Longrightarrow> parseUint (natDigits n) 0 = Inr n"
proof (induction n rule: natDigits.induct)
  case (1 n)
  show ?case
  proof (cases "n < 10")
    case True
    then show ?thesis
      by (simp add: natDigits.simps[of n] isDigit_digit of_char_digit)
  next
    case False
    have "n div 10 * 10 + n mod 10 = n" by presburger
    with False "1.IH" "1.prems" show ?thesis
      by (simp add: natDigits.simps[of n] parseUint_append isDigit_digit of_char_digit Let_def)
  qed
qed

lemma natDigits_head: "\<exists>c ds. natDigits n = c # ds \<and> isDigit c"
proof (induction n rule: natDigits.induct)
  case (1 n)
  then show ?case by (cases "n < 10") (auto simp: natDigits.simps[of n] isDigit_digit simp del: char_of_eq_iff)
qed

lemma splitSign_natDigits: "splitSign (natDigits n) = (False, natDigits n)"
proof -
  obtain c ds where "natDigits n = c # ds" and "isDigit c" using natDigits_head by blast
  moreover have "\<not> isDigit (CHR ''-'')" "\<not> isDigit (CHR ''+'')" by (simp_all add: isDigit_def)
  ultimately show ?thesis by auto
qed

lemma natDigits_nonempty [simp]: "natDigits n \<noteq> []"
  using natDigits_head[of n] by auto

lemma parseInt_itoa: "minInt64 \<le> i \<Longrightarrow> i \<le> maxInt64 \<Longrightarrow> parseInt (itoa i) = Inr i"
  by (auto simp: parseInt_def itoa_def splitSign_natDigits parseUint_natDigits)

lemma atoi_itoa: "minInt64 \<le> i \<Longrightarrow> i \<le> maxInt64 \<Longrightarrow> atoi (itoa i) = Inr i"
  by (simp add: atoi_def parseInt_itoa)

lemma atoi_range: "atoi s = Inr i \<Longrightarrow> minInt64 \<le> i \<and> i \<le> maxInt64"
  by (auto simp: atoi_def parseInt_def split: sum.splits prod.splits if_splits numError.splits)

section \<open>The registry\<close>

lemma Get_Register [simp]: "Get (Register n a r) m = (if m = n then Some a else Get r m)"
  by (simp add: Get_def Register_def)

lemma Get_NewRegistry [simp]: "Get NewRegistry n = None"
  by (simp add: Get_def NewRegistry_def)

lemma Get_RegisterBuiltins:
  "Get (RegisterBuiltins r) n =
     (if n = ''print'' then Some PrintAction else if n = ''wait'' then Some WaitAction
      else if n = ''randomFail'' then Some RandomFailAction else Get r n)"
  by (simp add: RegisterBuiltins_def)

end
