(* ===== verification/TaskRunner.thy ===== *)
theory TaskRunner
  imports Actions
begin

text \<open>
  \<^verbatim>\<open>runTask\<close> of \<^verbatim>\<open>internal/engine/executor.go\<close>: one task with its retries. The environment of the
  goroutine is a \<open>taskEnv\<close>: its readings of the clock, what each call of \<^verbatim>\<open>Execute\<close> sees, and, for
  each wait between attempts, the context error if the context is done before the timer fires. Beside the
  result, the attempt loop returns the durations it passes to \<^verbatim>\<open>time.After\<close>. The \<^verbatim>\<open>int\<close> counters of
  the loop are unbounded integers; the 64-bit product that gives a wait wraps around.
\<close>

section \<open>Definitions\<close>

record 'e taskEnv =
  te_now :: clock
  te_exec :: "nat \<Rightarrow> 'e"
  te_wait :: "nat \<Rightarrow> error option"

definition taskMaxAttempts :: "TaskNode \<Rightarrow> int" where
  "taskMaxAttempts task =
     (if rp_MaxAttempts (t_RetryPolicy task) \<le> 0 then 1 else rp_MaxAttempts (t_RetryPolicy task))"

definition taskBackoff :: "TaskNode \<Rightarrow> duration" where
  "taskBackoff task =
     (if rp_BackoffBase (t_RetryPolicy task) \<le> 0 then 100 * millisecond
      else rp_BackoffBase (t_RetryPolicy task))"

text \<open>\<^verbatim>\<open>backoff * time.Duration(1<<(attempt-1))\<close>\<close>

definition backoffWait :: "duration \<Rightarrow> int \<Rightarrow> duration" where
  "backoffWait backoff attempt = wrap64 (backoff * shl1 (nat (attempt - 1)))"

datatype attemptOutcome = Succeeded string | GaveUp error

text \<open>The attempt loop from attempt number \<open>attempt\<close>: what it ends with, the number of the last
  attempt, and the waits.\<close>

function attemptLoop ::
  "'e action \<Rightarrow> 'e taskEnv \<Rightarrow> TaskNode \<Rightarrow> int \<Rightarrow> error \<Rightarrow> attemptOutcome \<times> int \<times> duration list" where
  "attemptLoop act env task attempt lastErr =
     (if attempt \<le> taskMaxAttempts task
      then (case act (te_exec env (nat attempt)) (t_Input task) of
              Inr out \<Rightarrow> (Succeeded out, attempt, [])
            | Inl err \<Rightarrow>
                if isContextError err then (GaveUp (errText err), attempt, [])
                else if attempt < taskMaxAttempts task
                  then (let wait = backoffWait (taskBackoff task) attempt
                        in case te_wait env (nat attempt) of
                             Some ctxErr \<Rightarrow> (GaveUp ctxErr, attempt, [wait])
                           | None \<Rightarrow>
                               (case attemptLoop act env task (attempt + 1) (errText err) of
                                  (r, n, ws) \<Rightarrow> (r, n, wait # ws)))
                else (GaveUp (errText err), attempt, []))
      else (GaveUp lastErr, attempt - 1, []))"
  by pat_completeness auto
termination
  by (relation "measure (\<lambda>(act, env, task, attempt, lastErr). nat (taskMaxAttempts task - attempt + 1))") auto

declare attemptLoop.simps [simp del]

definition runTask :: "'e Registry \<Rightarrow> 'e taskEnv \<Rightarrow> TaskNode \<Rightarrow> TaskResult" where
  "runTask registry env task =
     (let start = te_now env 0;
          finish = te_now env 1;
          res = zeroTaskResult\<lparr>tr_TaskID := t_ID task, tr_Status := TaskStatusRunning, tr_StartedAt := start\<rparr>
      in case Get registry (t_Action task) of
           None \<Rightarrow> res\<lparr>tr_Status := TaskStatusFailed, tr_FinishedAt := finish,
                       tr_Duration := timeSub finish start,
                       tr_Error := ''action not found: '' @ t_Action task\<rparr>
         | Some act \<Rightarrow>
             (case attemptLoop act env task 1 '''' of
                (Succeeded out, n, ws) \<Rightarrow>
                  res\<lparr>tr_Attempts := n, tr_Status := TaskStatusSuccess, tr_Output := out,
                      tr_FinishedAt := finish, tr_Duration := timeSub finish start\<rparr>
              | (GaveUp err, n, ws) \<Rightarrow>
                  res\<lparr>tr_Attempts := n, tr_Status := TaskStatusFailed, tr_Error := err,
                      tr_FinishedAt := finish, tr_Duration := timeSub finish start\<rparr>))"

section \<open>What the attempt loop does\<close>

text \<open>The attempt loop never runs with \<open>attempt\<close> past the maximum from a start at one, so the error
  it was given first is never reported.\<close>

lemma taskMaxAttempts_pos: "1 \<le> taskMaxAttempts task"
  by (simp add: taskMaxAttempts_def)

definition retryable :: "'e action \<Rightarrow> 'e taskEnv \<Rightarrow> TaskNode \<Rightarrow> int \<Rightarrow> bool" where
  "retryable act env task k \<longleftrightarrow>
     (\<exists>err. act (te_exec env (nat k)) (t_Input task) = Inl err \<and> \<not> isContextError err) \<and>
     te_wait env (nat k) = None"

text \<open>The contract of the retry loop: a maximal run of retryable attempts, then the reason to stop.\<close>

definition attempt_spec ::
  "'e action \<Rightarrow> 'e taskEnv \<Rightarrow> TaskNode \<Rightarrow> int \<Rightarrow> attemptOutcome \<Rightarrow> int \<Rightarrow> duration list \<Rightarrow> bool" where
  "attempt_spec act env task first r n ws \<longleftrightarrow>
     first \<le> n \<and> n \<le> taskMaxAttempts task \<and>
     (\<forall>k. first \<le> k \<and> k < n \<longrightarrow> retryable act env task k) \<and>
     (case r of
        Succeeded out \<Rightarrow>
          act (te_exec env (nat n)) (t_Input task) = Inr out \<and>
          ws = map (backoffWait (taskBackoff task)) [first..n - 1]
      | GaveUp e \<Rightarrow>
          (\<exists>err. act (te_exec env (nat n)) (t_Input task) = Inl err \<and>
             (if isContextError err \<or> n = taskMaxAttempts task
              then e = errText err \<and> ws = map (backoffWait (taskBackoff task)) [first..n - 1]
              else te_wait env (nat n) = Some e \<and> ws = map (backoffWait (taskBackoff task)) [first..n])))"

lemma attempt_spec_step:
  assumes "attempt_spec act env task (k + 1) r n ws" and "retryable act env task k"
  shows "attempt_spec act env task k r n (backoffWait (taskBackoff task) k # ws)"
proof -
  have le: "k + 1 \<le> n" using assms(1) by (simp add: attempt_spec_def)
  have between: "retryable act env task j" if "k \<le> j" "j < n" for j
    using assms that by (cases "j = k") (auto simp: attempt_spec_def)
  have "[k..n - 1] = k # [k + 1..n - 1]" "[k..n] = k # [k + 1..n]"
    using le by (simp_all add: upto_rec1)
  then show ?thesis
    using assms(1) le between
    by (auto simp: attempt_spec_def split: attemptOutcome.splits if_splits)
qed

lemma attemptLoop_spec:
  assumes "attempt \<le> taskMaxAttempts task" and "attemptLoop act env task attempt lastErr = (r, n, ws)"
  shows "attempt_spec act env task attempt r n ws"
  using assms
proof (induction act env task attempt lastErr arbitrary: r n ws rule: attemptLoop.induct)
  case (1 act env task attempt lastErr)
  show ?case
  proof (cases "act (te_exec env (nat attempt)) (t_Input task)")
    case (Inr out)
    with "1.prems" have "r = Succeeded out" "n = attempt" "ws = []"
      by (simp_all add: attemptLoop.simps[of act env task attempt lastErr])
    with Inr "1.prems"(1) show ?thesis by (auto simp: attempt_spec_def)
  next
    case (Inl err)
    show ?thesis
    proof (cases "isContextError err \<or> attempt = taskMaxAttempts task")
      case True
      with Inl "1.prems" have "r = GaveUp (errText err)" "n = attempt" "ws = []"
        by (auto simp: attemptLoop.simps[of act env task attempt lastErr] split: if_splits)
      with Inl True "1.prems"(1) show ?thesis by (auto simp: attempt_spec_def)
    next
      case False
      then have lt: "attempt < taskMaxAttempts task" using "1.prems"(1) by simp
      show ?thesis
      proof (cases "te_wait env (nat attempt)")
        case (Some e)
        with Inl False lt "1.prems" have "r = GaveUp e" "n = attempt"
          "ws = [backoffWait (taskBackoff task) attempt]"
          by (auto simp: attemptLoop.simps[of act env task attempt lastErr])
        with Inl Some False "1.prems"(1) show ?thesis by (auto simp: attempt_spec_def)
      next
        case None
        obtain r' n' ws' where rec: "attemptLoop act env task (attempt + 1) (errText err) = (r', n', ws')"
          using prod_cases3 by blast
        with Inl None False lt "1.prems" have eqs: "r = r'" "n = n'"
          "ws = backoffWait (taskBackoff task) attempt # ws'"
          by (auto simp: attemptLoop.simps[of act env task attempt lastErr])
        have "attempt_spec act env task (attempt + 1) r' n' ws'"
          using "1.IH"[OF "1.prems"(1) Inl _ lt refl None _ rec] False lt by simp
        then show ?thesis
          using attempt_spec_step Inl None False eqs by (fastforce simp: retryable_def)
      qed
    qed
  qed
qed

text \<open>The waits double as long as the product fits in 64 bits.\<close>

lemma backoffWait_exact:
  assumes "0 < backoff" and "1 \<le> attempt" and "backoff * 2 ^ nat (attempt - 1) \<le> maxInt64"
  shows "backoffWait backoff attempt = backoff * 2 ^ nat (attempt - 1)"
proof -
  have "1 * (2::int) ^ nat (attempt - 1) \<le> backoff * 2 ^ nat (attempt - 1)"
    using assms(1) by (intro mult_right_mono) simp_all
  also note assms(3)
  also have "maxInt64 < 2 ^ 63" by simp
  finally have "(2::int) ^ nat (attempt - 1) < 2 ^ 63" by simp
  then have "nat (attempt - 1) < 63" by (rule power_less_imp_less_exp[rotated]) simp
  then have "shl1 (nat (attempt - 1)) = 2 ^ nat (attempt - 1)" by (intro shl1_exact) simp
  moreover have "0 \<le> backoff * 2 ^ nat (attempt - 1)" using assms(1) by simp
  then have "wrap64 (backoff * 2 ^ nat (attempt - 1)) = backoff * 2 ^ nat (attempt - 1)"
    using assms(3) by (intro wrap64_id) linarith+
  ultimately show ?thesis by (simp add: backoffWait_def)
qed

lemma runTask_TaskID [simp]: "tr_TaskID (runTask reg env task) = t_ID task"
  by (auto simp: runTask_def Let_def split: option.splits prod.splits attemptOutcome.splits)

lemma runTask_status: "tr_Status (runTask reg env task) \<in> {TaskStatusSuccess, TaskStatusFailed}"
  by (auto simp: runTask_def Let_def split: option.splits prod.splits attemptOutcome.splits)

end
