(* ===== verification/Dispatch.thy ===== *)
theory Dispatch
  imports Templates TaskRunner
begin

text \<open>
  The scheduling loop of \<^verbatim>\<open>Executor.runWithID\<close> (\<^verbatim>\<open>internal/engine/executor.go\<close>, lines 86 to 256).
  Its local variables are the record \<open>execState\<close>; the goroutines that were started and have not been
  received from are the list \<open>x_active\<close>, whose length is the code's \<^verbatim>\<open>active\<close> counter. The inner loop
  that starts ready tasks is \<open>dispatch\<close>, one turn of it \<open>dispatchOne\<close>. The \<^verbatim>\<open>select\<close> waits for one of
  two events: the context is done, or some running task delivers its result; which one happens, and what
  the task did, is an \<open>execEvent\<close>. \<open>runLoop\<close> runs the outer loop along a list of events.

  Time: \<open>clk (x_tick s)\<close> is the next reading of the clock in the scheduling goroutine. The delay
  \<^verbatim>\<open>RunAfter\<close> only lets time pass and does not change the loop's variables.
\<close>

section \<open>Definitions\<close>

record execState =
  x_remainingDeps :: "string \<Rightarrow> int"
  x_blocked :: "string \<Rightarrow> bool"
  x_ready :: "string list"
  x_active :: "(string \<times> TaskNode) list"
  x_completed :: nat
  x_results :: results
  x_failFast :: bool
  x_tick :: nat

definition maxConcurrency :: "Workflow \<Rightarrow> int" where
  "maxConcurrency w = (if w_MaxConcurrency w \<le> 0 then 1 else w_MaxConcurrency w)"

definition initRemaining :: "TaskNode list \<Rightarrow> string \<Rightarrow> int" where
  "initRemaining ts = fold (\<lambda>t m. m(t_ID t := int (length (t_DependsOn t)))) ts (\<lambda>_. 0)"

definition dependentsOf :: "TaskNode list \<Rightarrow> string \<Rightarrow> string list" where
  "dependentsOf ts =
     fold (\<lambda>t m. fold (\<lambda>dep m. m(dep := m dep @ [t_ID t])) (t_DependsOn t) m) ts (\<lambda>_. [])"

text \<open>\<open>ord\<close> is the order in which \<^verbatim>\<open>range remainingDeps\<close> yields the task ids.\<close>

definition initState :: "Workflow \<Rightarrow> string list \<Rightarrow> execState" where
  "initState w ord =
     \<lparr>x_remainingDeps = initRemaining (w_Tasks w), x_blocked = (\<lambda>_. False),
      x_ready = filter (\<lambda>i. initRemaining (w_Tasks w) i = 0) ord, x_active = [], x_completed = 0,
      x_results = Map.empty, x_failFast = False, x_tick = 0\<rparr>"

definition lookupTask :: "Workflow \<Rightarrow> string \<Rightarrow> TaskNode" where
  "lookupTask w i = (case tasksByID (w_Tasks w) i of None \<Rightarrow> zeroTaskNode | Some t \<Rightarrow> t)"

definition releaseChild :: "bool \<Rightarrow> string \<Rightarrow> execState \<Rightarrow> execState" where
  "releaseChild block child s =
     (let n = x_remainingDeps s child - 1
      in s\<lparr>x_remainingDeps := (x_remainingDeps s)(child := n),
           x_blocked := (if block then (x_blocked s)(child := True) else x_blocked s),
           x_ready := (if n = 0 then x_ready s @ [child] else x_ready s)\<rparr>)"

definition blockChild :: "string \<Rightarrow> execState \<Rightarrow> execState" where
  "blockChild child s = s\<lparr>x_blocked := (x_blocked s)(child := True)\<rparr>"

definition immediateResult ::
  "clock \<Rightarrow> execState \<Rightarrow> string \<Rightarrow> TaskStatus \<Rightarrow> int \<Rightarrow> error \<Rightarrow> string list \<Rightarrow> TaskResult" where
  "immediateResult clk s taskID status attempts err deps =
     zeroTaskResult\<lparr>tr_TaskID := taskID, tr_Status := status, tr_StartedAt := clk (x_tick s),
       tr_FinishedAt := clk (Suc (x_tick s)), tr_Duration := 0, tr_Attempts := attempts,
       tr_Error := err, tr_UpstreamRef := deps\<rparr>"

definition recordResult :: "string \<Rightarrow> TaskResult \<Rightarrow> execState \<Rightarrow> execState" where
  "recordResult taskID res s =
     s\<lparr>x_results := (x_results s)(taskID \<mapsto> res), x_completed := Suc (x_completed s)\<rparr>"

definition tickTwice :: "execState \<Rightarrow> execState" where
  "tickTwice s = s\<lparr>x_tick := x_tick s + 2\<rparr>"

text \<open>One turn of the inner loop, for a nonempty ready list. \<^const>\<open>None\<close>: the resolution of the task's
  input does not end.\<close>

definition dispatchOne :: "Workflow \<Rightarrow> clock \<Rightarrow> execState \<Rightarrow> execState option" where
  "dispatchOne w clk s0 =
     (case x_ready s0 of
        [] \<Rightarrow> Some s0
      | taskID # rest \<Rightarrow>
          (let s = s0\<lparr>x_ready := rest\<rparr>;
               task = lookupTask w taskID;
               children = dependentsOf (w_Tasks w) taskID
           in if x_blocked s taskID
              then Some (fold (releaseChild True) children
                     (tickTwice (recordResult taskID (immediateResult clk s taskID TaskStatusSkipped 0
                        ''skipped due to upstream failure'' (t_DependsOn task)) s)))
              else case evaluateCondition task (x_results s) of (shouldRun, skipReason) \<Rightarrow>
                if \<not> shouldRun
                then Some (fold (releaseChild False) children
                       (tickTwice (recordResult taskID (immediateResult clk s taskID TaskStatusSkipped 0
                          skipReason (t_DependsOn task)) s)))
                else case resolveInputTemplates (t_Input task) (x_results s) of
                       None \<Rightarrow> None
                     | Some (Inl err) \<Rightarrow>
                         (let s1 = fold (releaseChild True) children
                                (tickTwice (recordResult taskID (immediateResult clk s taskID
                                   TaskStatusFailed 1 err (t_DependsOn task)) s))
                          in Some (if w_FailFast w \<and> \<not> t_AllowFailure task
                                   then s1\<lparr>x_failFast := True\<rparr> else s1))
                     | Some (Inr resolved) \<Rightarrow>
                         Some (s\<lparr>x_active := x_active s @ [(taskID, task\<lparr>t_Input := resolved\<rparr>)]\<rparr>)))"

definition canDispatch :: "Workflow \<Rightarrow> execState \<Rightarrow> bool" where
  "canDispatch w s \<longleftrightarrow> int (length (x_active s)) < maxConcurrency w \<and> x_ready s \<noteq> []"

subsection \<open>Why the inner loop ends\<close>

text \<open>Every turn takes a task from the ready list, and a child enters it only when its count of
  remaining dependencies drops from one to zero.\<close>

definition dispatchMeasure :: "Workflow \<Rightarrow> execState \<Rightarrow> nat" where
  "dispatchMeasure w s =
     length (x_ready s) + (\<Sum>i \<in> t_ID ` set (w_Tasks w). nat (x_remainingDeps s i))"

lemma set_dependents_fold:
  "set (fold (\<lambda>t m. fold (\<lambda>dep m. m(dep := m dep @ [t_ID t])) (t_DependsOn t) m) ts m d)
     \<subseteq> set (m d) \<union> t_ID ` set ts"
proof (induction ts arbitrary: m)
  case Nil
  then show ?case by simp
next
  case (Cons t ts)
  have "set (fold (\<lambda>dep m. m(dep := m dep @ [i])) deps m' d) \<subseteq> insert i (set (m' d))" for i deps m'
    by (induction deps arbitrary: m') (fastforce split: if_splits)+
  then have "set (fold (\<lambda>dep m. m(dep := m dep @ [t_ID t])) (t_DependsOn t) m d) \<subseteq> insert (t_ID t) (set (m d))" .
  with Cons.IH[of "fold (\<lambda>dep m. m(dep := m dep @ [t_ID t])) (t_DependsOn t) m"]
  show ?case by (simp del: fun_upd_apply) blast
qed

lemma set_dependentsOf: "set (dependentsOf ts d) \<subseteq> t_ID ` set ts"
  using set_dependents_fold[of ts "\<lambda>_. []" d] by (simp add: dependentsOf_def)

lemma releaseChild_measure:
  assumes "c \<in> t_ID ` set (w_Tasks w)"
  shows "dispatchMeasure w (releaseChild b c s) \<le> dispatchMeasure w s"
proof -
  let ?I = "t_ID ` set (w_Tasks w)"
  let ?r = "x_remainingDeps s"
  have fin: "finite ?I" by simp
  have "(\<Sum>i \<in> ?I. nat ((?r(c := ?r c - 1)) i)) = nat (?r c - 1) + (\<Sum>i \<in> ?I - {c}. nat (?r i))"
    using assms fin by (subst sum.remove[of _ c]) (auto intro!: sum.cong)
  moreover have "(\<Sum>i \<in> ?I. nat (?r i)) = nat (?r c) + (\<Sum>i \<in> ?I - {c}. nat (?r i))"
    by (rule sum.remove[OF fin assms])
  ultimately show ?thesis
    by (auto simp: dispatchMeasure_def releaseChild_def Let_def simp del: fun_upd_apply)
qed

lemma fold_releaseChild_measure:
  "set cs \<subseteq> t_ID ` set (w_Tasks w) \<Longrightarrow>
   dispatchMeasure w (fold (releaseChild b) cs s) \<le> dispatchMeasure w s"
proof (induction cs arbitrary: s)
  case (Cons c cs)
  then show ?case
    using releaseChild_measure[of c w b s] by (fastforce intro: order_trans)
qed simp

lemma dispatchOne_measure:
  assumes "dispatchOne w clk s = Some s'" and "x_ready s \<noteq> []"
  shows "dispatchMeasure w s' < dispatchMeasure w s"
proof -
  obtain i rest where r: "x_ready s = i # rest" using assms(2) by (cases "x_ready s") auto
  let ?s = "s\<lparr>x_ready := rest\<rparr>"
  have "dispatchMeasure w ?s < dispatchMeasure w s" using r by (simp add: dispatchMeasure_def)
  moreover have "dispatchMeasure w (fold (releaseChild b) (dependentsOf (w_Tasks w) i)
      (tickTwice (recordResult i res ?s))) \<le> dispatchMeasure w ?s" for b res
    using fold_releaseChild_measure[OF set_dependentsOf, of w b i "tickTwice (recordResult i res ?s)"]
    by (simp add: dispatchMeasure_def recordResult_def tickTwice_def)
  moreover have "dispatchMeasure w (t\<lparr>x_failFast := b\<rparr>) = dispatchMeasure w t"
    "dispatchMeasure w (t\<lparr>x_active := a\<rparr>) = dispatchMeasure w t" for t b a
    by (simp_all add: dispatchMeasure_def)
  ultimately have "dispatchMeasure w (fold (releaseChild b) (dependentsOf (w_Tasks w) i)
      (tickTwice (recordResult i res ?s))) < dispatchMeasure w s"
    "dispatchMeasure w (fold (releaseChild b) (dependentsOf (w_Tasks w) i)
      (tickTwice (recordResult i res ?s))\<lparr>x_failFast := True\<rparr>) < dispatchMeasure w s"
    "dispatchMeasure w (?s\<lparr>x_active := a\<rparr>) < dispatchMeasure w s" for b res a
    by (metis le_less_trans)+
  with assms(1) r show ?thesis
    by (auto simp: dispatchOne_def Let_def simp del: fold_simps
        split: if_splits prod.splits option.splits sum.splits)
qed

function dispatch :: "Workflow \<Rightarrow> clock \<Rightarrow> execState \<Rightarrow> execState option" where
  "dispatch w clk s =
     (if canDispatch w s
      then case dispatchOne w clk s of None \<Rightarrow> None | Some s' \<Rightarrow> dispatch w clk s'
      else Some s)"
  by pat_completeness auto
termination
  by (relation "measure (\<lambda>(w, clk, s). dispatchMeasure w s)")
    (auto simp: canDispatch_def intro: dispatchOne_measure)

declare dispatch.simps [simp del]

subsection \<open>The select statement and the outer loop\<close>

text \<open>An event of the \<^verbatim>\<open>select\<close>: the context is done with this error text, or the \<open>n\<close>-th running
  task (counted modulo their number) delivers its result, having run in the given environment.\<close>

datatype 'e execEvent = CtxDone error | Recv nat "'e taskEnv"

definition dropIndex :: "nat \<Rightarrow> 'a list \<Rightarrow> 'a list" where
  "dropIndex i xs = take i xs @ drop (Suc i) xs"

definition onResult :: "'e Registry \<Rightarrow> Workflow \<Rightarrow> nat \<Rightarrow> 'e taskEnv \<Rightarrow> execState \<Rightarrow> execState" where
  "onResult registry w n env s0 =
     (let i = n mod length (x_active s0);
          (taskID, task) = x_active s0 ! i;
          result = runTask registry env task;
          s1 = recordResult taskID result (s0\<lparr>x_active := dropIndex i (x_active s0)\<rparr>);
          currentTask = lookupTask w taskID;
          children = dependentsOf (w_Tasks w) taskID;
          failed = (tr_Status result = TaskStatusFailed);
          s2 = (if failed \<and> \<not> t_AllowFailure currentTask
                then (let s = fold blockChild children s1
                      in if w_FailFast w then s\<lparr>x_failFast := True\<rparr> else s)
                else s1)
      in fold (releaseChild False) children s2)"

text \<open>How the outer loop can be left: it never returns (\<open>Hung\<close>), it is still waiting when the events
  end (\<open>Waiting\<close>), its condition fails or it breaks (\<open>LoopLeft\<close>), or the context is done
  (\<open>Interrupted\<close>, with the run's status and error).\<close>

datatype loopOutcome =
    Hung | Waiting execState | LoopLeft execState | Interrupted execState RunStatus error

fun runLoop ::
  "'e Registry \<Rightarrow> Workflow \<Rightarrow> clock \<Rightarrow> execState \<Rightarrow> 'e execEvent list \<Rightarrow> loopOutcome" where
  "runLoop registry w clk s evs =
     (if x_completed s < length (w_Tasks w)
      then case dispatch w clk s of
             None \<Rightarrow> Hung
           | Some s1 \<Rightarrow>
               if x_active s1 = []
               then (if x_ready s1 = [] then LoopLeft s1
                     else Hung \<comment> \<open>\<^verbatim>\<open>continue\<close> in a state the inner loop does not change\<close>)
               else (case evs of
                       [] \<Rightarrow> Waiting s1
                     | CtxDone err # _ \<Rightarrow>
                         if x_failFast s1
                         then Interrupted s1 RunStatusFailed ''fail-fast: stopped after critical task failure''
                         else Interrupted s1 RunStatusCancelled err
                     | Recv n env # evs' \<Rightarrow> runLoop registry w clk (onResult registry w n env s1) evs')
      else LoopLeft s)"

declare runLoop.simps [simp del]

end
