(* ===== verification/DispatchInv.thy ===== *)
theory DispatchInv
  imports Dispatch
begin

text \<open>
  Invariants of the scheduling loop. \<open>estep\<close> lists what one step can do (start a task, finish one without
  running it, receive the result of one), \<open>sched_step\<close> are the code's own steps and every one of them
  is an \<open>estep\<close>. \<open>sched_inv\<close> relates the counters, the ready list and the running tasks to the recorded
  results; \<open>fail_inv\<close> says how failures travel to dependents.
\<close>

section \<open>Closed form of releasing children\<close>

fun newlyReady :: "string list \<Rightarrow> (string \<Rightarrow> int) \<Rightarrow> string list" where
  "newlyReady [] rem = []"
| "newlyReady (c # cs) rem =
     (if rem c = 1 then c # newlyReady cs (rem(c := rem c - 1)) else newlyReady cs (rem(c := rem c - 1)))"

lemma fold_releaseChild:
  "fold (releaseChild b) cs s =
     s\<lparr>x_remainingDeps := (\<lambda>c. x_remainingDeps s c - int (count_list cs c)),
       x_blocked := (\<lambda>c. x_blocked s c \<or> b \<and> c \<in> set cs),
       x_ready := x_ready s @ newlyReady cs (x_remainingDeps s)\<rparr>"
proof (induction cs arbitrary: s)
  case Nil
  then show ?case by simp
next
  case (Cons c cs)
  show ?case
    unfolding fold_simps Cons.IH
    by (rule execState.equality)
      (auto simp: releaseChild_def Let_def fun_eq_iff)
qed

lemma fold_blockChild:
  "fold blockChild cs s = s\<lparr>x_blocked := (\<lambda>c. x_blocked s c \<or> c \<in> set cs)\<rparr>"
proof (induction cs arbitrary: s)
  case Nil
  then show ?case by simp
next
  case (Cons c cs)
  show ?case
    unfolding fold_simps Cons.IH by (rule execState.equality) (auto simp: blockChild_def fun_eq_iff)
qed

lemma newlyReady_sub: "set (newlyReady cs r) \<subseteq> {c \<in> set cs. 0 < r c}"
  by (induction cs arbitrary: r) (fastforce split: if_splits)+

lemma newlyReady_spec:
  assumes "\<forall>c \<in> set cs. int (count_list cs c) \<le> r c"
  shows "distinct (newlyReady cs r) \<and> set (newlyReady cs r) = {c \<in> set cs. r c = int (count_list cs c)}"
  using assms
proof (induction cs arbitrary: r)
  case Nil
  then show ?case by simp
next
  case (Cons c cs)
  let ?r = "r(c := r c - 1)"
  have le: "\<forall>d \<in> set cs. int (count_list cs d) \<le> ?r d" using Cons.prems by auto
  note IH = Cons.IH[OF le]
  have ge: "int (count_list cs c) \<le> r c - 1" using Cons.prems by simp
  show ?case
  proof (cases "r c = 1")
    case True
    then have "count_list cs c = 0" using ge by simp
    then have "c \<notin> set cs" by (simp add: count_list_0_iff)
    then have "{d \<in> set cs. ?r d = int (count_list cs d)} = {d \<in> set cs. r d = int (count_list cs d)}"
      by auto
    with IH have eq: "set (newlyReady cs ?r) = {d \<in> set cs. r d = int (count_list cs d)}" by (simp only:)
    have "newlyReady (c # cs) r = c # newlyReady cs ?r" using True by simp
    then show ?thesis
      using True IH eq \<open>count_list cs c = 0\<close> \<open>c \<notin> set cs\<close> by (auto simp del: fun_upd_apply newlyReady.simps)
  next
    case False
    then have "c \<in> set cs" if "r c = int (count_list cs c) + 1"
      using that by (cases "c \<in> set cs") simp_all
    then have "{d \<in> set cs. ?r d = int (count_list cs d)}
        = {d \<in> set (c # cs). r d = int (count_list (c # cs) d)}"
      by (auto split: if_splits)
    moreover have "newlyReady (c # cs) r = newlyReady cs ?r" using False by simp
    ultimately show ?thesis using IH by (simp only:)
  qed
qed

section \<open>Children and dependencies\<close>

lemma count_dependents_inner:
  "count_list (fold (\<lambda>dep m. m(dep := m dep @ [i])) deps m d) j =
     count_list (m d) j + (if j = i then count_list deps d else 0)"
  by (induction deps arbitrary: m) (auto simp: count_list_append)

lemma count_dependents_fold:
  "count_list (fold (\<lambda>t m. fold (\<lambda>dep m. m(dep := m dep @ [t_ID t])) (t_DependsOn t) m) ts m d) j =
     count_list (m d) j + sum_list (map (\<lambda>t. if j = t_ID t then count_list (t_DependsOn t) d else 0) ts)"
  by (induction ts arbitrary: m) (simp_all add: count_dependents_inner del: fun_upd_apply)

lemma count_dependentsOf:
  assumes "distinct (map t_ID ts)" and "t \<in> set ts"
  shows "count_list (dependentsOf ts d) (t_ID t) = count_list (t_DependsOn t) d"
proof -
  have "sum_list (map (\<lambda>u. if t_ID t = t_ID u then count_list (t_DependsOn u) d else 0) ts)
      = count_list (t_DependsOn t) d"
    using assms
  proof (induction ts)
    case (Cons u us)
    show ?case
    proof (cases "t = u")
      case True
      with Cons.prems have "\<forall>v \<in> set us. t_ID t \<noteq> t_ID v" by force
      then have "map (\<lambda>v. if t_ID t = t_ID v then count_list (t_DependsOn v) d else 0) us = map (\<lambda>_. 0) us"
        by simp
      with True show ?thesis by (simp add: map_replicate_const sum_list_replicate del: map_eq_conv)
    next
      case False
      with Cons.prems have "t \<in> set us" by simp
      with Cons.prems have "t_ID t \<noteq> t_ID u" by (simp, metis imageI)
      with \<open>t \<in> set us\<close> Cons show ?thesis by simp
    qed
  qed simp
  then show ?thesis by (simp add: dependentsOf_def count_dependents_fold)
qed

abbreviation taskIDs :: "Workflow \<Rightarrow> string set" where
  "taskIDs w \<equiv> t_ID ` set (w_Tasks w)"

abbreviation depsOf :: "Workflow \<Rightarrow> string \<Rightarrow> string list" where
  "depsOf w i \<equiv> t_DependsOn (lookupTask w i)"

definition wellFormed :: "Workflow \<Rightarrow> bool" where
  "wellFormed w \<longleftrightarrow> distinct (map t_ID (w_Tasks w)) \<and>
     (\<forall>t \<in> set (w_Tasks w). set (t_DependsOn t) \<subseteq> taskIDs w) \<and> acyclic (depends (w_Tasks w))"

lemma valid_wellFormed: "ValidateWorkflow w = None \<Longrightarrow> wellFormed w"
  by (auto simp: ValidateWorkflow_iff valid_workflow_def wellFormed_def valid_task_def)

lemma lookupTask_ID: "wellFormed w \<Longrightarrow> t \<in> set (w_Tasks w) \<Longrightarrow> lookupTask w (t_ID t) = t"
  by (simp add: lookupTask_def wellFormed_def tasksByID_distinct)

lemma lookupTask_in:
  assumes "wellFormed w" and "i \<in> taskIDs w"
  shows "lookupTask w i \<in> set (w_Tasks w)" and "t_ID (lookupTask w i) = i"
  using assms lookupTask_ID by fastforce+

lemma count_children:
  assumes "wellFormed w" and "i \<in> taskIDs w"
  shows "count_list (dependentsOf (w_Tasks w) d) i = count_list (depsOf w i) d"
  using assms count_dependentsOf lookupTask_ID by (fastforce simp: wellFormed_def)

lemma child_iff:
  assumes "wellFormed w"
  shows "c \<in> set (dependentsOf (w_Tasks w) d) \<longleftrightarrow> c \<in> taskIDs w \<and> d \<in> set (depsOf w c)"
proof (cases "c \<in> taskIDs w")
  case True
  then show ?thesis using count_children[OF assms True, of d] by (metis count_list_0_iff)
next
  case False
  then show ?thesis using set_dependentsOf by blast
qed

lemma depsOf_in: "wellFormed w \<Longrightarrow> i \<in> taskIDs w \<Longrightarrow> set (depsOf w i) \<subseteq> taskIDs w"
  using lookupTask_in by (auto simp: wellFormed_def)

lemma depends_iff:
  "wellFormed w \<Longrightarrow> (d, i) \<in> depends (w_Tasks w) \<longleftrightarrow> i \<in> taskIDs w \<and> d \<in> set (depsOf w i)"
  by (auto simp: depends_def lookupTask_ID)

lemma card_taskIDs: "wellFormed w \<Longrightarrow> card (taskIDs w) = length (w_Tasks w)"
  by (metis wellFormed_def distinct_card length_map list.set_map)

lemma initRemaining_fold:
  "distinct (map t_ID ts) \<Longrightarrow>
   fold (\<lambda>t m. m(t_ID t := int (length (t_DependsOn t)))) ts m i =
     (case find (\<lambda>t. t_ID t = i) ts of None \<Rightarrow> m i | Some t \<Rightarrow> int (length (t_DependsOn t)))"
proof (induction ts arbitrary: m)
  case (Cons t ts)
  have "find (\<lambda>u. t_ID u = t_ID t) ts = None" using Cons.prems by (simp add: find_None_iff, metis imageI)
  with Cons show ?case by (auto split: option.splits)
qed simp

lemma initRemaining_deps:
  assumes "wellFormed w" and "i \<in> taskIDs w"
  shows "initRemaining (w_Tasks w) i = int (length (depsOf w i))"
proof -
  have "find (\<lambda>t. t_ID t = i) (w_Tasks w) \<noteq> None" using assms(2) by (auto simp: find_None_iff)
  then obtain t where t: "find (\<lambda>t. t_ID t = i) (w_Tasks w) = Some t" by blast
  then have "t \<in> set (w_Tasks w)" "t_ID t = i" by (auto simp: find_Some_iff)
  with t assms show ?thesis
    using lookupTask_ID by (fastforce simp: initRemaining_def initRemaining_fold wellFormed_def)
qed

section \<open>The steps of the loop\<close>

definition finishTask :: "Workflow \<Rightarrow> bool \<Rightarrow> string \<Rightarrow> TaskResult \<Rightarrow> execState \<Rightarrow> execState" where
  "finishTask w block i res s =
     fold (releaseChild block) (dependentsOf (w_Tasks w) i) (recordResult i res s)"

lemma finishTask_simps [simp]:
  "x_results (finishTask w b i res s) = (x_results s)(i \<mapsto> res)"
  "x_completed (finishTask w b i res s) = Suc (x_completed s)"
  "x_active (finishTask w b i res s) = x_active s"
  "x_remainingDeps (finishTask w b i res s) =
     (\<lambda>c. x_remainingDeps s c - int (count_list (dependentsOf (w_Tasks w) i) c))"
  "x_blocked (finishTask w b i res s) = (\<lambda>c. x_blocked s c \<or> b \<and> c \<in> set (dependentsOf (w_Tasks w) i))"
  "x_ready (finishTask w b i res s) =
     x_ready s @ newlyReady (dependentsOf (w_Tasks w) i) (x_remainingDeps s)"
  by (simp_all add: finishTask_def fold_releaseChild recordResult_def)

text \<open>What a task that is finished without being run gets as its result, and whether its
  children are blocked: it is blocked itself, its condition is false, or its input does not resolve.\<close>

inductive immediate :: "Workflow \<Rightarrow> execState \<Rightarrow> string \<Rightarrow> bool \<Rightarrow> TaskResult \<Rightarrow> bool" for w s i where
  imm_blocked: "x_blocked s i \<Longrightarrow> tr_Status res = TaskStatusSkipped \<Longrightarrow>
     tr_Error res = ''skipped due to upstream failure'' \<Longrightarrow> tr_TaskID res = i \<Longrightarrow> immediate w s i True res"
| imm_condition: "\<not> x_blocked s i \<Longrightarrow> evaluateCondition (lookupTask w i) (x_results s) = (False, reason) \<Longrightarrow>
     tr_Status res = TaskStatusSkipped \<Longrightarrow> tr_Error res = reason \<Longrightarrow> tr_TaskID res = i \<Longrightarrow>
     immediate w s i False res"
| imm_template: "\<not> x_blocked s i \<Longrightarrow>
     resolveInputTemplates (t_Input (lookupTask w i)) (x_results s) = Some (Inl err) \<Longrightarrow>
     tr_Status res = TaskStatusFailed \<Longrightarrow> tr_Error res = err \<Longrightarrow> tr_TaskID res = i \<Longrightarrow>
     immediate w s i True res"

text \<open>A failure that the task does not allow.\<close>

definition failedHard :: "Workflow \<Rightarrow> string \<Rightarrow> TaskResult \<Rightarrow> bool" where
  "failedHard w d res \<longleftrightarrow> tr_Status res = TaskStatusFailed \<and> \<not> t_AllowFailure (lookupTask w d)"

inductive estep :: "'e Registry \<Rightarrow> Workflow \<Rightarrow> execState \<Rightarrow> execState \<Rightarrow> bool" for reg w where
  Start: "x_ready s = i # rest \<Longrightarrow> int (length (x_active s)) < maxConcurrency w \<Longrightarrow> \<not> x_blocked s i \<Longrightarrow>
     fst (evaluateCondition (lookupTask w i) (x_results s)) \<Longrightarrow>
     resolveInputTemplates (t_Input (lookupTask w i)) (x_results s) = Some (Inr input) \<Longrightarrow>
     estep reg w s (s\<lparr>x_ready := rest, x_active := x_active s @ [(i, (lookupTask w i)\<lparr>t_Input := input\<rparr>)]\<rparr>)"
| Finish: "x_ready s = i # rest \<Longrightarrow> immediate w s i b res \<Longrightarrow>
     estep reg w s (finishTask w b i res (s\<lparr>x_ready := rest\<rparr>)
       \<lparr>x_tick := tick, x_failFast := x_failFast s \<or> w_FailFast w \<and> failedHard w i res\<rparr>)"
| Deliver: "k < length (x_active s) \<Longrightarrow> x_active s ! k = (i, task) \<Longrightarrow> res = runTask reg env task \<Longrightarrow>
     estep reg w s (finishTask w (failedHard w i res) i res (s\<lparr>x_active := dropIndex k (x_active s)\<rparr>)
       \<lparr>x_failFast := x_failFast s \<or> w_FailFast w \<and> failedHard w i res\<rparr>)"

inductive_cases estepE [consumes 1, case_names Start Finish Deliver]: "estep reg w s s'"
inductive_cases immediateE [consumes 1, case_names blocked condition template]: "immediate w s i b res"

text \<open>The code's steps: a turn of the inner loop, or a received result.\<close>

inductive sched_step :: "'e Registry \<Rightarrow> Workflow \<Rightarrow> clock \<Rightarrow> execState \<Rightarrow> execState \<Rightarrow> bool" for reg w clk where
  turn: "canDispatch w s \<Longrightarrow> dispatchOne w clk s = Some s' \<Longrightarrow> sched_step reg w clk s s'"
| receive: "\<not> canDispatch w s \<Longrightarrow> x_active s \<noteq> [] \<Longrightarrow> sched_step reg w clk s (onResult reg w n env s)"

abbreviation reachable :: "'e Registry \<Rightarrow> Workflow \<Rightarrow> clock \<Rightarrow> string list \<Rightarrow> execState \<Rightarrow> bool" where
  "reachable reg w clk ord s \<equiv> (sched_step reg w clk)\<^sup>*\<^sup>* (initState w ord) s"

lemma finish_tick:
  "fold (releaseChild b) (dependentsOf (w_Tasks w) i) (tickTwice (recordResult i res s)) =
     finishTask w b i res s\<lparr>x_tick := x_tick s + 2, x_failFast := x_failFast s\<rparr>"
  "fold (releaseChild b) (dependentsOf (w_Tasks w) i) (tickTwice (recordResult i res s))\<lparr>x_failFast := ff\<rparr> =
     finishTask w b i res s\<lparr>x_tick := x_tick s + 2, x_failFast := ff\<rparr>"
  by (simp_all add: finishTask_def fold_releaseChild recordResult_def tickTwice_def)

lemma dispatchOne_estep:
  assumes "canDispatch w s" and "dispatchOne w clk s = Some s'"
  shows "estep reg w s s'"
proof -
  obtain i rest where r: "x_ready s = i # rest" using assms(1) by (cases "x_ready s") (auto simp: canDispatch_def)
  obtain ok reason where cond: "evaluateCondition (lookupTask w i) (x_results s) = (ok, reason)" by fastforce
  have lt: "int (length (x_active s)) < maxConcurrency w" using assms(1) by (simp add: canDispatch_def)
  note step = assms(2)[unfolded dispatchOne_def r Let_def list.case finish_tick]
  have imm: "immediateResult clk s' i' st n err deps = res \<Longrightarrow>
      tr_Status res = st \<and> tr_Error res = err \<and> tr_TaskID res = i'" for s' i' st n err deps res
    by (auto simp: immediateResult_def)
  have finish: "estep reg w s (finishTask w b i res (s\<lparr>x_ready := rest\<rparr>)\<lparr>x_tick := tick, x_failFast := ff\<rparr>)"
    if "immediate w s i b res" "ff = (x_failFast s \<or> w_FailFast w \<and> failedHard w i res)" for b res ff tick
    using Finish[OF r that(1)] that(2) by simp
  show ?thesis
  proof (cases "x_blocked s i")
    case True
    with step have s': "s' = finishTask w True i (immediateResult clk (s\<lparr>x_ready := rest\<rparr>) i TaskStatusSkipped 0
        ''skipped due to upstream failure'' (depsOf w i)) (s\<lparr>x_ready := rest\<rparr>)
        \<lparr>x_tick := x_tick s + 2, x_failFast := x_failFast s\<rparr>" by simp
    show ?thesis unfolding s' by (intro finish imm_blocked True) (simp_all add: imm[OF refl] failedHard_def)
  next
    case nb: False
    show ?thesis
    proof (cases ok)
      case False
      with nb step cond have s': "s' = finishTask w False i (immediateResult clk (s\<lparr>x_ready := rest\<rparr>) i
          TaskStatusSkipped 0 reason (depsOf w i)) (s\<lparr>x_ready := rest\<rparr>)
          \<lparr>x_tick := x_tick s + 2, x_failFast := x_failFast s\<rparr>" by simp
      show ?thesis unfolding s'
        by (intro finish imm_condition nb) (use cond False in \<open>auto simp: imm[OF refl] failedHard_def\<close>)
    next
      case True
      then have run: "fst (evaluateCondition (lookupTask w i) (x_results s))" using cond by simp
      show ?thesis
      proof (cases "resolveInputTemplates (t_Input (lookupTask w i)) (x_results s)")
        case None
        with nb True step cond show ?thesis by simp
      next
        case (Some r')
        show ?thesis
        proof (cases r')
          case (Inl err)
          with nb True Some step cond have s': "s' = finishTask w True i (immediateResult clk
              (s\<lparr>x_ready := rest\<rparr>) i TaskStatusFailed 1 err (depsOf w i)) (s\<lparr>x_ready := rest\<rparr>)
              \<lparr>x_tick := x_tick s + 2, x_failFast := x_failFast s \<or> w_FailFast w \<and> \<not> t_AllowFailure (lookupTask w i)\<rparr>"
            by (auto split: if_splits)
          show ?thesis unfolding s'
            by (intro finish imm_template nb) (use Some Inl in \<open>auto simp: imm[OF refl] failedHard_def\<close>)
        next
          case (Inr input)
          with nb True Some step cond have s': "s' = s\<lparr>x_ready := rest,
              x_active := x_active s @ [(i, (lookupTask w i)\<lparr>t_Input := input\<rparr>)]\<rparr>" by simp
          show ?thesis unfolding s' by (rule Start[OF r lt nb run]) (use Some Inr in simp)
        qed
      qed
    qed
  qed
qed

lemma release_after_block:
  "fold (releaseChild False) cs (fold blockChild cs s) = fold (releaseChild True) cs s"
  by (simp add: fold_releaseChild fold_blockChild)

lemma onResult_estep:
  assumes "x_active s \<noteq> []"
  shows "estep reg w s (onResult reg w n env s)"
proof -
  let ?k = "n mod length (x_active s)"
  have k: "?k < length (x_active s)" using assms by simp
  obtain i task where a: "x_active s ! ?k = (i, task)" by fastforce
  let ?res = "runTask reg env task"
  let ?b = "failedHard w i ?res"
  let ?s = "s\<lparr>x_active := dropIndex ?k (x_active s)\<rparr>"
  have ff: "fold (releaseChild b) cs (t\<lparr>x_failFast := c\<rparr>) = fold (releaseChild b) cs t\<lparr>x_failFast := c\<rparr>"
    for b cs t c by (simp add: fold_releaseChild)
  have "onResult reg w n env s = finishTask w ?b i ?res ?s\<lparr>x_failFast := x_failFast s \<or> w_FailFast w \<and> ?b\<rparr>"
    by (auto simp: onResult_def Let_def a finishTask_def failedHard_def ff release_after_block)
      (simp_all add: fold_releaseChild recordResult_def)
  then show ?thesis by (simp only: Deliver[OF k a refl])
qed

lemma sched_step_estep: "sched_step reg w clk s s' \<Longrightarrow> estep reg w s s'"
  by (cases rule: sched_step.cases) (auto intro: dispatchOne_estep onResult_estep)

section \<open>The counting invariant\<close>

text \<open>\<open>extra\<close> are tasks taken from the ready list or the running tasks and not yet recorded.\<close>

definition pending :: "string list \<Rightarrow> execState \<Rightarrow> string list" where
  "pending extra s = extra @ x_ready s @ map fst (x_active s)"

definition unfinishedDeps :: "Workflow \<Rightarrow> execState \<Rightarrow> string \<Rightarrow> string list" where
  "unfinishedDeps w s i = filter (\<lambda>d. d \<notin> dom (x_results s)) (depsOf w i)"

definition sched_inv :: "Workflow \<Rightarrow> string list \<Rightarrow> execState \<Rightarrow> bool" where
  "sched_inv w extra s \<longleftrightarrow>
     distinct (pending extra s) \<and> set (pending extra s) \<subseteq> taskIDs w \<and>
     set (pending extra s) \<inter> dom (x_results s) = {} \<and> dom (x_results s) \<subseteq> taskIDs w \<and>
     (\<forall>i \<in> taskIDs w. x_remainingDeps s i = int (length (unfinishedDeps w s i))) \<and>
     (\<forall>i \<in> taskIDs w. unfinishedDeps w s i = [] \<longleftrightarrow> i \<in> set (pending extra s) \<union> dom (x_results s)) \<and>
     x_completed s = card (dom (x_results s))"

lemma sched_invD:
  assumes "sched_inv w extra s"
  shows "distinct (pending extra s)" "set (pending extra s) \<subseteq> taskIDs w"
    "set (pending extra s) \<inter> dom (x_results s) = {}" "dom (x_results s) \<subseteq> taskIDs w"
    "i \<in> taskIDs w \<Longrightarrow> x_remainingDeps s i = int (length (unfinishedDeps w s i))"
    "i \<in> taskIDs w \<Longrightarrow> unfinishedDeps w s i = [] \<longleftrightarrow> i \<in> set (pending extra s) \<union> dom (x_results s)"
    "x_completed s = card (dom (x_results s))"
  using assms by (auto simp: sched_inv_def)

lemma length_filter_remove:
  "P d \<Longrightarrow> length (filter P xs) = length (filter (\<lambda>x. P x \<and> x \<noteq> d) xs) + count_list xs d"
  by (induction xs) auto

lemma initState_sched_inv:
  assumes "wellFormed w" and "distinct ord" and "set ord = taskIDs w"
  shows "sched_inv w [] (initState w ord)"
  using assms initRemaining_deps[OF assms(1)]
  by (auto simp: sched_inv_def initState_def pending_def unfinishedDeps_def)

lemma finishTask_unfinished:
  assumes "i \<notin> dom (x_results s)"
  shows "length (unfinishedDeps w (finishTask w b i res s) j) + count_list (depsOf w j) i =
           length (unfinishedDeps w s j)"
  using length_filter_remove[of "\<lambda>d. d \<notin> dom (x_results s)" i "depsOf w j"] assms
  by (simp add: unfinishedDeps_def conj_commute)

lemma finishTask_ready:
  assumes w: "wellFormed w" and inv: "sched_inv w [i] s"
  defines "new \<equiv> newlyReady (dependentsOf (w_Tasks w) i) (x_remainingDeps s)"
  shows "distinct new"
    and "set new = {c \<in> taskIDs w. i \<in> set (depsOf w c) \<and> unfinishedDeps w (finishTask w b i res s) c = []}"
proof -
  note D = sched_invD[OF inv]
  have i: "i \<notin> dom (x_results s)" using D(3) by (auto simp: pending_def)
  let ?cs = "dependentsOf (w_Tasks w) i"
  have cnt: "x_remainingDeps s c - int (count_list ?cs c) =
      int (length (unfinishedDeps w (finishTask w b i res s) c))" if "c \<in> taskIDs w" for c
    using D(5)[OF that] finishTask_unfinished[OF i, of w b res c] count_children[OF w that, of i] by linarith
  have sub: "set ?cs \<subseteq> taskIDs w" by (rule set_dependentsOf)
  have "\<forall>c \<in> set ?cs. int (count_list ?cs c) \<le> x_remainingDeps s c"
    using cnt sub by (smt (verit) of_nat_0_le_iff subsetD)
  from newlyReady_spec[OF this] have "distinct new"
    and "set new = {c \<in> set ?cs. x_remainingDeps s c = int (count_list ?cs c)}" by (auto simp: new_def)
  moreover have "x_remainingDeps s c = int (count_list ?cs c) \<longleftrightarrow>
      unfinishedDeps w (finishTask w b i res s) c = []" if "c \<in> taskIDs w" for c
    using cnt[OF that] by (metis diff_eq_eq add_0 length_0_conv of_nat_eq_0_iff)
  ultimately show "distinct new"
    and "set new = {c \<in> taskIDs w. i \<in> set (depsOf w c) \<and> unfinishedDeps w (finishTask w b i res s) c = []}"
    by (auto simp: child_iff[OF w])
qed

lemma finishTask_sched_inv:
  assumes w: "wellFormed w" and inv: "sched_inv w [i] s"
  shows "sched_inv w [] (finishTask w b i res s)"
proof -
  note D = sched_invD[OF inv]
  let ?s = "finishTask w b i res s"
  let ?new = "newlyReady (dependentsOf (w_Tasks w) i) (x_remainingDeps s)"
  note new = finishTask_ready(1)[OF w inv] finishTask_ready(2)[OF w inv, of b res]
  have i: "i \<notin> dom (x_results s)" "i \<in> taskIDs w" using D(2,3) by (auto simp: pending_def)
  have rem: "x_remainingDeps ?s c = int (length (unfinishedDeps w ?s c))" if "c \<in> taskIDs w" for c
    using D(5)[OF that] finishTask_unfinished[OF i(1), of w b res c] count_children[OF w that, of i] by simp
  have fresh: "c \<notin> set (pending [i] s) \<union> dom (x_results s)" if "c \<in> set ?new" for c
  proof -
    have "i \<in> set (unfinishedDeps w s c)" "c \<in> taskIDs w"
      using that new(2) i(1) by (auto simp: unfinishedDeps_def)
    then show ?thesis using D(6)[of c] by (metis list.set(1) empty_iff)
  qed
  have finished: "unfinishedDeps w ?s c = [] \<longleftrightarrow> unfinishedDeps w s c = [] \<or> c \<in> set ?new" if "c \<in> taskIDs w" for c
    using new(2) that by (auto simp: unfinishedDeps_def filter_empty_conv)
  have pend: "set (pending [] ?s) = (set (pending [i] s) - {i}) \<union> set ?new"
    using D(1) fresh by (auto simp: pending_def)
  have "distinct (pending [] ?s)" using D(1) new(1) fresh by (auto simp: pending_def)
  moreover have "set (pending [] ?s) \<subseteq> taskIDs w" using pend D(2) new(2) by blast
  moreover have "set (pending [] ?s) \<inter> dom (x_results ?s) = {}"
    using pend D(3) fresh by (auto simp: pending_def)
  moreover have "unfinishedDeps w ?s c = [] \<longleftrightarrow> c \<in> set (pending [] ?s) \<union> dom (x_results ?s)"
    if "c \<in> taskIDs w" for c
    using finished[OF that] D(6)[OF that] pend by (auto simp: pending_def)
  moreover have "x_completed ?s = card (dom (x_results ?s))"
    using D(7) i(1) finite_subset[OF D(4)] by (simp add: card_insert_disjoint)
  ultimately show ?thesis using rem D(4) i by (simp add: sched_inv_def)
qed

lemma sched_inv_cong:
  assumes "x_results s' = x_results s" "x_remainingDeps s' = x_remainingDeps s"
    "x_completed s' = x_completed s" "mset (pending extra' s') = mset (pending extra s)"
  shows "sched_inv w extra' s' \<longleftrightarrow> sched_inv w extra s"
proof -
  have "set (pending extra' s') = set (pending extra s)"
    "distinct (pending extra' s') = distinct (pending extra s)"
    using assms(4) by (metis set_mset_mset, metis mset_eq_imp_distinct_iff)
  then show ?thesis by (simp add: sched_inv_def unfinishedDeps_def assms(1-3))
qed

lemma dropIndex_mset: "k < length xs \<Longrightarrow> mset xs = add_mset (xs ! k) (mset (dropIndex k xs))"
  by (metis dropIndex_def Cons_nth_drop_Suc append_take_drop_id mset.simps(2) mset_append union_mset_add_mset_right)

lemma estep_sched_inv:
  assumes "wellFormed w" and "estep reg w s s'" and "sched_inv w [] s"
  shows "sched_inv w [] s'"
  using assms(2)
proof (cases rule: estepE)
  case (Start i rest input)
  then show ?thesis
    using assms(3) by (subst sched_inv_cong[where s = s and extra = "[]"]) (simp_all add: pending_def)
next
  case (Finish i rest b res tick)
  have "sched_inv w [i] (s\<lparr>x_ready := rest\<rparr>)"
    using assms(3) Finish(2) by (subst sched_inv_cong[where s = s and extra = "[]"]) (simp_all add: pending_def)
  from finishTask_sched_inv[OF assms(1) this] Finish(1) show ?thesis
    by (subst sched_inv_cong[where s = "finishTask w b i res (s\<lparr>x_ready := rest\<rparr>)" and extra = "[]"])
      (simp_all add: pending_def)
next
  case (Deliver k i task env)
  define res b where "res = runTask reg env task" and "b = failedHard w i res"
  let ?s = "s\<lparr>x_active := dropIndex k (x_active s)\<rparr>"
  have "mset (map fst (x_active s)) = add_mset i (mset (map fst (dropIndex k (x_active s))))"
    using dropIndex_mset[OF Deliver(2)] Deliver(3) by simp
  then have "sched_inv w [i] ?s"
    using assms(3) by (subst sched_inv_cong[where s = s and extra = "[]"]) (simp_all add: pending_def)
  from finishTask_sched_inv[OF assms(1) this] Deliver(1)[folded res_def b_def] show ?thesis
    by (subst sched_inv_cong[where s = "finishTask w b i res ?s" and extra = "[]"]) (simp_all add: pending_def)
qed

section \<open>How failures travel\<close>

definition skippedUpstream :: "TaskResult \<Rightarrow> bool" where
  "skippedUpstream res \<longleftrightarrow>
     tr_Status res = TaskStatusSkipped \<and> tr_Error res = ''skipped due to upstream failure''"

definition fail_inv :: "Workflow \<Rightarrow> execState \<Rightarrow> bool" where
  "fail_inv w s \<longleftrightarrow>
     (\<forall>c \<in> taskIDs w. \<forall>d \<in> set (depsOf w c). \<forall>res. x_results s d = Some res \<longrightarrow>
        failedHard w d res \<or> x_blocked s d \<longrightarrow> x_blocked s c) \<and>
     (\<forall>c. x_blocked s c \<longrightarrow> (\<exists>d \<in> set (depsOf w c). \<exists>res. x_results s d = Some res \<and>
        (tr_Status res = TaskStatusFailed \<or> x_blocked s d))) \<and>
     (\<forall>i res. x_results s i = Some res \<longrightarrow> tr_TaskID res = i \<and>
        tr_Status res \<in> {TaskStatusSuccess, TaskStatusFailed, TaskStatusSkipped} \<and>
        (x_blocked s i \<longrightarrow> skippedUpstream res)) \<and>
     (\<forall>(i, task) \<in> set (x_active s). \<not> x_blocked s i \<and> (\<exists>input. task = (lookupTask w i)\<lparr>t_Input := input\<rparr>))"

lemma fail_invD:
  assumes "fail_inv w s"
  shows "c \<in> taskIDs w \<Longrightarrow> d \<in> set (depsOf w c) \<Longrightarrow> x_results s d = Some res \<Longrightarrow>
      failedHard w d res \<or> x_blocked s d \<Longrightarrow> x_blocked s c"
    "x_blocked s c \<Longrightarrow> \<exists>d \<in> set (depsOf w c). \<exists>res. x_results s d = Some res \<and>
        (tr_Status res = TaskStatusFailed \<or> x_blocked s d)"
    "x_results s i = Some res \<Longrightarrow> tr_TaskID res = i \<and>
        tr_Status res \<in> {TaskStatusSuccess, TaskStatusFailed, TaskStatusSkipped} \<and>
        (x_blocked s i \<longrightarrow> skippedUpstream res)"
    "(i, task) \<in> set (x_active s) \<Longrightarrow> \<not> x_blocked s i \<and> (\<exists>input. task = (lookupTask w i)\<lparr>t_Input := input\<rparr>)"
  using assms unfolding fail_inv_def by fast+

lemma child_not_started:
  assumes "wellFormed w" and "sched_inv w extra s" and "i \<notin> dom (x_results s)"
    and "c \<in> set (dependentsOf (w_Tasks w) i)"
  shows "c \<notin> dom (x_results s)" and "c \<notin> set (pending extra s)"
proof -
  have c: "c \<in> taskIDs w" "i \<in> set (depsOf w c)" using assms(1,4) by (simp_all add: child_iff)
  then have "unfinishedDeps w s c \<noteq> []" using assms(3) by (auto simp: unfinishedDeps_def filter_empty_conv)
  then show "c \<notin> dom (x_results s)" and "c \<notin> set (pending extra s)"
    using sched_invD(6)[OF assms(2) c(1)] by auto
qed

lemma finishTask_fail_inv:
  assumes w: "wellFormed w" and inv: "sched_inv w [i] s" and fi: "fail_inv w s"
    and block: "x_blocked s i \<or> failedHard w i res \<Longrightarrow> b"
    and unblock: "b \<Longrightarrow> tr_Status res = TaskStatusFailed \<or> x_blocked s i"
    and res: "tr_TaskID res = i" "tr_Status res \<in> {TaskStatusSuccess, TaskStatusFailed, TaskStatusSkipped}"
      "x_blocked s i \<Longrightarrow> skippedUpstream res"
  shows "fail_inv w (finishTask w b i res s)"
proof -
  let ?cs = "dependentsOf (w_Tasks w) i"
  let ?s = "finishTask w b i res s"
  have i: "i \<notin> dom (x_results s)" "i \<notin> set ?cs" "i \<notin> set (map fst (x_active s))"
    using sched_invD(1,3)[OF inv] child_not_started(2)[OF w inv, of i i] by (auto simp: pending_def)
  have fresh: "c \<notin> dom (x_results s)" "c \<notin> set (map fst (x_active s))" if "c \<in> set ?cs" for c
    using child_not_started[OF w inv i(1) that] by (auto simp: pending_def)
  have "x_blocked ?s c" if "c \<in> taskIDs w" "d \<in> set (depsOf w c)" "x_results ?s d = Some r"
    "failedHard w d r \<or> x_blocked ?s d" for c d r
  proof (cases "d = i")
    case True
    with that block i(2) show ?thesis by (auto simp: child_iff[OF w])
  next
    case False
    with that(3,4) fresh have "x_results s d = Some r" "failedHard w d r \<or> x_blocked s d" by auto
    with fail_invD(1)[OF fi that(1,2)] show ?thesis by simp
  qed
  moreover have "\<exists>d \<in> set (depsOf w c). \<exists>r. x_results ?s d = Some r \<and>
      (tr_Status r = TaskStatusFailed \<or> x_blocked ?s d)" if "x_blocked ?s c" for c
  proof (cases "x_blocked s c")
    case True
    then obtain d r where d: "d \<in> set (depsOf w c)" "x_results s d = Some r"
      "tr_Status r = TaskStatusFailed \<or> x_blocked s d"
      using fail_invD(2)[OF fi] by blast
    with i(1) have "x_results ?s d = Some r" by auto
    moreover have "tr_Status r = TaskStatusFailed \<or> x_blocked ?s d" using d(3) by auto
    ultimately show ?thesis using d(1) by blast
  next
    case False
    with that have b: "b" and c: "c \<in> set ?cs" by auto
    then have "i \<in> set (depsOf w c)" by (simp add: child_iff[OF w])
    moreover have "tr_Status res = TaskStatusFailed \<or> x_blocked ?s i" using unblock[OF b] by auto
    ultimately show ?thesis by auto
  qed
  moreover have "tr_TaskID r = j \<and> tr_Status r \<in> {TaskStatusSuccess, TaskStatusFailed, TaskStatusSkipped} \<and>
      (x_blocked ?s j \<longrightarrow> skippedUpstream r)" if "x_results ?s j = Some r" for j r
  proof (cases "j = i")
    case True
    with that res i(2) show ?thesis by auto
  next
    case False
    with that fresh(1)[of j] have "x_results s j = Some r" "x_blocked ?s j = x_blocked s j" by auto
    with fail_invD(3)[OF fi] show ?thesis by simp
  qed
  moreover have "\<not> x_blocked ?s j \<and> (\<exists>input. task = (lookupTask w j)\<lparr>t_Input := input\<rparr>)"
    if "(j, task) \<in> set (x_active ?s)" for j task
    using fail_invD(4)[OF fi, of j task] that fresh(2)[of j] by (force simp: image_iff)
  ultimately show ?thesis unfolding fail_inv_def by blast
qed

lemma fail_inv_cong:
  assumes "x_results s' = x_results s" "x_blocked s' = x_blocked s" "set (x_active s') \<subseteq> set (x_active s)"
    and "fail_inv w s"
  shows "fail_inv w s'"
proof -
  have "\<forall>(i, task) \<in> set (x_active s'). \<not> x_blocked s i \<and> (\<exists>input. task = (lookupTask w i)\<lparr>t_Input := input\<rparr>)"
    using assms(3,4) unfolding fail_inv_def by blast
  with assms(4) show ?thesis unfolding fail_inv_def assms(1,2) by blast
qed

lemma set_dropIndex: "set (dropIndex k xs) \<subseteq> set xs"
  by (auto simp: dropIndex_def dest: in_set_takeD in_set_dropD)

lemma immediate_facts:
  assumes "immediate w s i b res"
  shows "x_blocked s i \<or> failedHard w i res \<Longrightarrow> b" and "b \<Longrightarrow> tr_Status res = TaskStatusFailed \<or> x_blocked s i"
    and "tr_TaskID res = i" and "tr_Status res \<in> {TaskStatusSuccess, TaskStatusFailed, TaskStatusSkipped}"
    and "x_blocked s i \<Longrightarrow> skippedUpstream res"
  using assms by (auto elim!: immediateE simp: failedHard_def skippedUpstream_def)

lemma estep_fail_inv:
  assumes w: "wellFormed w" and step: "estep reg w s s'" and inv: "sched_inv w [] s" and fi: "fail_inv w s"
  shows "fail_inv w s'"
  using step
proof (cases rule: estepE)
  case (Start i rest input)
  from Start(4) have "\<forall>(j, task) \<in> set (x_active s'). \<not> x_blocked s' j \<and> (\<exists>input. task = (lookupTask w j)\<lparr>t_Input := input\<rparr>)"
    using fi by (auto simp: Start(1) fail_inv_def)
  with fi show ?thesis by (simp add: fail_inv_def Start(1))
next
  case (Finish i rest b res tick)
  let ?s = "s\<lparr>x_ready := rest\<rparr>"
  have "sched_inv w [i] ?s"
    using inv Finish(2) by (subst sched_inv_cong[where s = s and extra = "[]"]) (simp_all add: pending_def)
  moreover have "fail_inv w ?s" using fi by (rule fail_inv_cong[rotated 3]) simp_all
  ultimately have "fail_inv w (finishTask w b i res ?s)"
    by (rule finishTask_fail_inv[OF w]) (use immediate_facts[OF Finish(3)] in \<open>simp_all\<close>)
  then show ?thesis unfolding Finish(1) by (rule fail_inv_cong[rotated 3]) simp_all
next
  case (Deliver k i task env)
  define res b where "res = runTask reg env task" and "b = failedHard w i res"
  let ?s = "s\<lparr>x_active := dropIndex k (x_active s)\<rparr>"
  have "mset (map fst (x_active s)) = add_mset i (mset (map fst (dropIndex k (x_active s))))"
    using dropIndex_mset[OF Deliver(2)] Deliver(3) by simp
  then have inv': "sched_inv w [i] ?s"
    using inv by (subst sched_inv_cong[where s = s and extra = "[]"]) (simp_all add: pending_def)
  have "(i, task) \<in> set (x_active s)" using Deliver(2,3) by (metis nth_mem)
  note act = fail_invD(4)[OF fi this]
  have "i \<in> taskIDs w" using sched_invD(2)[OF inv'] by (simp add: pending_def)
  with act have "tr_TaskID res = i" using lookupTask_in(2)[OF w] by (auto simp: res_def)
  moreover have "fail_inv w ?s" by (rule fail_inv_cong[OF _ _ _ fi]) (simp_all add: set_dropIndex)
  ultimately have "fail_inv w (finishTask w b i res ?s)"
    using act runTask_status[of reg env task] inv'
    by (intro finishTask_fail_inv[OF w]) (auto simp: b_def failedHard_def res_def)
  then show ?thesis unfolding Deliver(1)[folded res_def b_def]
    by (rule fail_inv_cong[rotated 3]) simp_all
qed

lemma initState_fail_inv: "fail_inv w (initState w ord)"
  by (simp add: fail_inv_def initState_def)

lemma reachable_inv:
  assumes "wellFormed w" and "distinct ord" and "set ord = taskIDs w" and "reachable reg w clk ord s"
  shows "sched_inv w [] s \<and> fail_inv w s"
  using assms(4)
proof (induction rule: rtranclp_induct)
  case base
  then show ?case using initState_sched_inv[OF assms(1-3)] initState_fail_inv by blast
next
  case (step s s')
  then show ?case
    using estep_sched_inv[OF assms(1) sched_step_estep[OF step(2)]]
      estep_fail_inv[OF assms(1) sched_step_estep[OF step(2)]] by blast
qed

section \<open>Consequences in reachable states\<close>

lemma estep_results_mono:
  assumes "estep reg w s s'" and "sched_inv w [] s"
  shows "x_results s \<subseteq>\<^sub>m x_results s'"
  using assms(1)
proof (cases rule: estepE)
  case (Finish i rest b res tick)
  then have "i \<notin> dom (x_results s)" using sched_invD(3)[OF assms(2)] by (auto simp: pending_def)
  then show ?thesis by (auto simp: Finish(1) map_le_def)
next
  case (Deliver k i task env)
  then have "i \<in> set (map fst (x_active s))" by (metis fst_conv image_eqI list.set_map nth_mem)
  then have "i \<notin> dom (x_results s)" using sched_invD(3)[OF assms(2)] by (auto simp: pending_def)
  then show ?thesis by (auto simp: Deliver(1) map_le_def)
qed simp

lemma maxConcurrency_pos: "1 \<le> maxConcurrency w"
  by (simp add: maxConcurrency_def)

lemma reachable_concurrency:
  assumes "reachable reg w clk ord s"
  shows "int (length (x_active s)) \<le> maxConcurrency w"
  using assms
proof (induction rule: rtranclp_induct)
  case base
  show ?case using maxConcurrency_pos[of w] by (simp add: initState_def)
next
  case (step s s')
  from sched_step_estep[OF step(2)] show ?case
  proof (cases rule: estepE)
    case (Deliver k i task env)
    then show ?thesis using step(3) by (simp add: dropIndex_def)
  qed (use step(3) in auto)
qed

lemma blocked_by_ancestor:
  assumes w: "wellFormed w" and inv: "sched_inv w [] s" and fi: "fail_inv w s"
    and path: "(d, i) \<in> (depends (w_Tasks w))\<^sup>+"
    and res: "x_results s d = Some res" "failedHard w d res"
    and i: "unfinishedDeps w s i = []"
  shows "x_blocked s i"
  using path i
proof (induction rule: trancl_induct)
  case (base y)
  then show ?case using fail_invD(1)[OF fi _ _ res(1)] res(2) by (simp add: depends_iff[OF w])
next
  case (step y z)
  then have z: "z \<in> taskIDs w" "y \<in> set (depsOf w z)" by (simp_all add: depends_iff[OF w])
  with step.prems have "y \<in> dom (x_results s)" by (auto simp: unfinishedDeps_def filter_empty_conv)
  then obtain r where r: "x_results s y = Some r" by blast
  moreover have "y \<in> taskIDs w" using r sched_invD(4)[OF inv] by blast
  then have "unfinishedDeps w s y = []" using sched_invD(6)[OF inv] r by blast
  ultimately show ?case using fail_invD(1)[OF fi z r] step.IH by blast
qed

lemma started_deps_finished:
  assumes "sched_inv w [] s" and "i \<in> set (pending [] s) \<union> dom (x_results s)"
  shows "unfinishedDeps w s i = []"
  using assms sched_invD(2,4,6)[OF assms(1)] by blast

lemma progress:
  assumes w: "wellFormed w" and inv: "sched_inv w [] s" and "x_ready s = []" and "x_active s = []"
  shows "dom (x_results s) = taskIDs w"
proof (rule ccontr)
  assume "dom (x_results s) \<noteq> taskIDs w"
  then obtain j where j: "j \<in> taskIDs w - dom (x_results s)" using sched_invD(4)[OF inv] by blast
  have sub: "depends (w_Tasks w) \<subseteq> taskIDs w \<times> taskIDs w"
    by (rule subrelI) (use depsOf_in[OF w] depends_iff[OF w] in blast)
  then have "finite (depends (w_Tasks w))" using finite_subset by blast
  then have "wf (depends (w_Tasks w))"
    using w by (simp add: wellFormed_def wf_iff_acyclic_if_finite)
  then obtain i where i: "i \<in> taskIDs w - dom (x_results s)"
    and min: "\<And>d. (d, i) \<in> depends (w_Tasks w) \<Longrightarrow> d \<notin> taskIDs w - dom (x_results s)"
    using j by (rule wfE_min) blast
  have "d \<in> dom (x_results s)" if "d \<in> set (depsOf w i)" for d
    using min[of d] that i depsOf_in[OF w, of i] by (auto simp: depends_iff[OF w])
  then have "unfinishedDeps w s i = []" by (auto simp: unfinishedDeps_def filter_empty_conv)
  with i assms(3,4) sched_invD(6)[OF inv, of i] show False by (simp add: pending_def)
qed

section \<open>Outcomes of the loop\<close>

lemma dispatch_reach:
  "dispatch w clk s = Some s' \<Longrightarrow> (sched_step reg w clk)\<^sup>*\<^sup>* s s' \<and> \<not> canDispatch w s'"
proof (induction w clk s rule: dispatch.induct)
  case (1 w clk s)
  show ?case
  proof (cases "canDispatch w s")
    case True
    then obtain s1 where s1: "dispatchOne w clk s = Some s1" "dispatch w clk s1 = Some s'"
      using "1.prems" by (auto simp: dispatch.simps[of w clk s] split: option.splits)
    with "1.IH"[OF True s1] turn[OF True s1(1)] show ?thesis by (metis converse_rtranclp_into_rtranclp)
  next
    case False
    with "1.prems" show ?thesis by (simp add: dispatch.simps[of w clk s])
  qed
qed

fun outcomeState :: "loopOutcome \<Rightarrow> execState option" where
  "outcomeState Hung = None"
| "outcomeState (Waiting s) = Some s"
| "outcomeState (LoopLeft s) = Some s"
| "outcomeState (Interrupted s st err) = Some s"

lemma runLoop_reachable:
  assumes "outcomeState (runLoop reg w clk s evs) = Some s'"
  shows "(sched_step reg w clk)\<^sup>*\<^sup>* s s'"
  using assms
proof (induction reg w clk s evs rule: runLoop.induct)
  case (1 reg w clk s evs)
  show ?case
  proof (cases "x_completed s < length (w_Tasks w)")
    case False
    with "1.prems" show ?thesis by (simp add: runLoop.simps[of reg w clk s])
  next
    case True
    then obtain s1 where s1: "dispatch w clk s = Some s1"
      using "1.prems" by (auto simp: runLoop.simps[of reg w clk s] split: option.splits)
    note reach = dispatch_reach[OF s1, of reg]
    show ?thesis
    proof (cases "\<exists>n env evs'. evs = Recv n env # evs' \<and> x_active s1 \<noteq> []")
      case True
      then obtain n env evs' where evs: "evs = Recv n env # evs'" and act: "x_active s1 \<noteq> []" by blast
      have step: "sched_step reg w clk s1 (onResult reg w n env s1)" using receive reach act by blast
      have "(sched_step reg w clk)\<^sup>*\<^sup>* (onResult reg w n env s1) s'"
        using "1.prems" \<open>x_completed s < _\<close> s1 evs act
        by (intro "1.IH"[OF _ s1 act evs refl]) (simp_all add: runLoop.simps[of reg w clk s])
      with reach step show ?thesis by (meson converse_rtranclp_into_rtranclp rtranclp_trans)
    next
      case False
      have "s' = s1"
        using "1.prems" \<open>x_completed s < _\<close> s1 False
        by (auto simp: runLoop.simps[of reg w clk s] split: if_splits list.splits execEvent.splits)
      with reach show ?thesis by simp
    qed
  qed
qed

lemma estep_completed: "estep reg w s s' \<Longrightarrow> x_completed s \<le> x_completed s'"
  by (cases rule: estepE) auto

lemma reach_completed: "(sched_step reg w clk)\<^sup>*\<^sup>* s s' \<Longrightarrow> x_completed s \<le> x_completed s'"
  by (induction rule: rtranclp_induct) (auto dest: sched_step_estep estep_completed intro: order_trans)

lemma reach_inv:
  assumes "wellFormed w" and "(sched_step reg w clk)\<^sup>*\<^sup>* s s'" and "sched_inv w [] s"
  shows "sched_inv w [] s'"
  using assms(2)
proof (induction rule: rtranclp_induct)
  case (step t u)
  show ?case by (rule estep_sched_inv[OF assms(1) sched_step_estep[OF step(2)] step(3)])
qed (rule assms(3))

lemma reach_results_mono:
  assumes "wellFormed w" and "(sched_step reg w clk)\<^sup>*\<^sup>* s s'" and "sched_inv w [] s"
  shows "x_results s \<subseteq>\<^sub>m x_results s'"
  using assms(2)
proof (induction rule: rtranclp_induct)
  case (step t u)
  then show ?case
    using estep_results_mono[OF sched_step_estep[OF step(2)] reach_inv[OF assms(1) step(1) assms(3)]]
    by (blast intro: map_le_trans)
qed simp

text \<open>The fail-fast flag is set exactly when the workflow asks for it and a task failed that may not.\<close>

lemma ex_map_upd:
  "i \<notin> dom m \<Longrightarrow> (\<exists>j r. (m(i \<mapsto> res)) j = Some r \<and> P j r) \<longleftrightarrow> (\<exists>j r. m j = Some r \<and> P j r) \<or> P i res"
  by (auto split: if_splits)

lemma estep_failFast:
  assumes "estep reg w s s'" and "sched_inv w [] s"
    and "x_failFast s \<longleftrightarrow> w_FailFast w \<and> (\<exists>i res. x_results s i = Some res \<and> failedHard w i res)"
  shows "x_failFast s' \<longleftrightarrow> w_FailFast w \<and> (\<exists>i res. x_results s' i = Some res \<and> failedHard w i res)"
  using assms(1)
proof (cases rule: estepE)
  case (Start i rest input)
  then show ?thesis using assms(3) by simp
next
  case (Finish i rest b res tick)
  then have "i \<notin> dom (x_results s)" using sched_invD(3)[OF assms(2)] by (auto simp: pending_def)
  note upd = ex_map_upd[OF this, of res "failedHard w"]
  have "x_results s' = (x_results s)(i \<mapsto> res)"
    "x_failFast s' \<longleftrightarrow> x_failFast s \<or> w_FailFast w \<and> failedHard w i res" using Finish(1) by simp_all
  then show ?thesis unfolding assms(3) upd[symmetric] using upd by (simp only:) blast
next
  case (Deliver k i task env)
  then have "i \<in> set (map fst (x_active s))" by (metis fst_conv image_eqI list.set_map nth_mem)
  then have "i \<notin> dom (x_results s)" using sched_invD(3)[OF assms(2)] by (auto simp: pending_def)
  note upd = ex_map_upd[OF this, of "runTask reg env task" "failedHard w"]
  have "x_results s' = (x_results s)(i \<mapsto> runTask reg env task)"
    "x_failFast s' \<longleftrightarrow> x_failFast s \<or> w_FailFast w \<and> failedHard w i (runTask reg env task)"
    using Deliver by simp_all
  then show ?thesis unfolding assms(3) using upd by (simp only:) blast
qed

lemma reachable_failFast:
  assumes "wellFormed w" and "distinct ord" and "set ord = taskIDs w" and "reachable reg w clk ord s"
  shows "x_failFast s \<longleftrightarrow> w_FailFast w \<and> (\<exists>i res. x_results s i = Some res \<and> failedHard w i res)"
  using assms(4)
proof (induction rule: rtranclp_induct)
  case base
  then show ?case by (simp add: initState_def)
next
  case (step s s')
  show ?case
    using estep_failFast[OF sched_step_estep[OF step(2)] _ step(3)] reachable_inv[OF assms(1-3) step(1)] by blast
qed

subsection \<open>The loop ends\<close>

definition inputsResolve :: "Workflow \<Rightarrow> bool" where
  "inputsResolve w \<longleftrightarrow> (\<forall>t \<in> set (w_Tasks w). \<forall>rs. resolveInputTemplates (t_Input t) rs \<noteq> None)"

lemma inputsResolve_plain:
  "(\<forall>t \<in> set (w_Tasks w). \<forall>(k, v) \<in> set (t_Input t). \<not> strContains v ''${'') \<Longrightarrow> inputsResolve w"
  by (simp add: inputsResolve_def resolveInputTemplates_plain)

lemma dispatchOne_total:
  assumes "wellFormed w" and "inputsResolve w" and "sched_inv w [] s"
  shows "dispatchOne w clk s \<noteq> None"
proof (cases "x_ready s")
  case Nil
  then show ?thesis by (simp add: dispatchOne_def)
next
  case (Cons i rest)
  then have "i \<in> taskIDs w" using sched_invD(2)[OF assms(3)] by (simp add: pending_def)
  then have "resolveInputTemplates (t_Input (lookupTask w i)) (x_results s) \<noteq> None"
    using assms(2) lookupTask_in(1)[OF assms(1)] by (simp add: inputsResolve_def)
  with Cons show ?thesis
    by (auto simp: dispatchOne_def Let_def split: prod.splits option.splits sum.splits)
qed

lemma dispatch_total:
  assumes "wellFormed w" and "inputsResolve w" and "sched_inv w [] s"
  shows "dispatch w clk s \<noteq> None"
  using assms
proof (induction w clk s rule: dispatch.induct)
  case (1 w clk s)
  show ?case
  proof (cases "canDispatch w s")
    case True
    obtain s1 where s1: "dispatchOne w clk s = Some s1" using dispatchOne_total[OF "1.prems"] by blast
    have "sched_inv w [] s1"
      using estep_sched_inv[OF "1.prems"(1) dispatchOne_estep[OF True s1] "1.prems"(3)] .
    with "1.IH"[OF True s1 "1.prems"(1,2)] True s1 show ?thesis by (simp add: dispatch.simps[of w clk s])
  qed (simp add: dispatch.simps)
qed

lemma completed_all:
  assumes "wellFormed w" and "sched_inv w [] s" and "\<not> x_completed s < length (w_Tasks w)"
  shows "dom (x_results s) = taskIDs w"
proof (rule card_subset_eq)
  show "dom (x_results s) \<subseteq> taskIDs w" by (rule sched_invD(4)[OF assms(2)])
  then have "card (dom (x_results s)) \<le> card (taskIDs w)" by (simp add: card_mono)
  then show "card (dom (x_results s)) = card (taskIDs w)"
    using assms(3) sched_invD(7)[OF assms(2)] card_taskIDs[OF assms(1)] by simp
qed simp

lemma idle_not_ready: "\<not> canDispatch w s \<Longrightarrow> x_active s = [] \<Longrightarrow> x_ready s = []"
  using maxConcurrency_pos[of w] by (auto simp: canDispatch_def)

lemma runLoop_left_complete:
  assumes "wellFormed w" and "sched_inv w [] s" and "runLoop reg w clk s evs = LoopLeft s'"
  shows "dom (x_results s') = taskIDs w"
  using assms
proof (induction reg w clk s evs rule: runLoop.induct)
  case (1 reg w clk s evs)
  show ?case
  proof (cases "x_completed s < length (w_Tasks w)")
    case False
    with "1.prems" show ?thesis by (simp add: runLoop.simps[of reg w clk s] completed_all)
  next
    case True
    then obtain s1 where s1: "dispatch w clk s = Some s1"
      using "1.prems"(3) by (auto simp: runLoop.simps[of reg w clk s] split: option.splits)
    note reach = dispatch_reach[OF s1, of reg]
    have inv: "sched_inv w [] s1" using reach reach_inv[OF "1.prems"(1) _ "1.prems"(2)] by blast
    show ?thesis
    proof (cases "x_active s1 = []")
      case act: True
      then have "s' = s1" using "1.prems"(3) True s1 idle_not_ready[of w s1] reach
        by (auto simp: runLoop.simps[of reg w clk s])
      with progress[OF "1.prems"(1) inv] act idle_not_ready reach show ?thesis by blast
    next
      case act: False
      then obtain n env evs' where evs: "evs = Recv n env # evs'"
        and rest: "runLoop reg w clk (onResult reg w n env s1) evs' = LoopLeft s'"
        using "1.prems"(3) True s1
        by (auto simp: runLoop.simps[of reg w clk s] split: list.splits execEvent.splits if_splits)
      have "sched_inv w [] (onResult reg w n env s1)"
        by (rule estep_sched_inv[OF "1.prems"(1) onResult_estep[OF act] inv])
      from "1.IH"[OF True s1 act evs refl "1.prems"(1) this rest] show ?thesis .
    qed
  qed
qed

lemma onResult_completed: "x_active s \<noteq> [] \<Longrightarrow> x_completed (onResult reg w n env s) = Suc (x_completed s)"
  by (auto simp: onResult_def Let_def fold_releaseChild fold_blockChild recordResult_def split: prod.splits)

lemma runLoop_ends:
  assumes "wellFormed w" and "inputsResolve w" and "sched_inv w [] s"
    and "length (w_Tasks w) \<le> x_completed s + length evs" and "\<forall>ev \<in> set evs. \<exists>n env. ev = Recv n env"
  shows "\<exists>s'. runLoop reg w clk s evs = LoopLeft s'"
  using assms
proof (induction reg w clk s evs rule: runLoop.induct)
  case (1 reg w clk s evs)
  show ?case
  proof (cases "x_completed s < length (w_Tasks w)")
    case False
    then show ?thesis by (simp add: runLoop.simps[of reg w clk s])
  next
    case True
    obtain s1 where s1: "dispatch w clk s = Some s1" using dispatch_total[OF "1.prems"(1-3)] by blast
    note reach = dispatch_reach[OF s1, of reg]
    have inv: "sched_inv w [] s1" using reach reach_inv[OF "1.prems"(1) _ "1.prems"(3)] by blast
    show ?thesis
    proof (cases "x_active s1 = []")
      case act: True
      then show ?thesis using True s1 idle_not_ready[of w s1] reach by (simp add: runLoop.simps[of reg w clk s])
    next
      case act: False
      obtain n env evs' where evs: "evs = Recv n env # evs'"
        using "1.prems"(4,5) True by (cases evs) auto
      have "sched_inv w [] (onResult reg w n env s1)"
        by (rule estep_sched_inv[OF "1.prems"(1) onResult_estep[OF act] inv])
      moreover have "length (w_Tasks w) \<le> x_completed (onResult reg w n env s1) + length evs'"
        using "1.prems"(4) reach_completed[of reg w clk s s1] reach by (simp add: onResult_completed[OF act] evs)
      ultimately show ?thesis
        using "1.IH"[OF True s1 act evs refl "1.prems"(1,2)] "1.prems"(5) True s1 act
        by (simp add: runLoop.simps[of reg w clk s] evs)
    qed
  qed
qed

end
