(* ===== verification/Telemetry.thy ===== *)
theory Telemetry
  imports Domain "HOL-Library.Word"
begin

text \<open>
  The metrics collector (\<^verbatim>\<open>internal/telemetry/collector.go\<close>). Its counters are \<^verbatim>\<open>atomic.Uint64\<close>, here
  64-bit words, so they wrap around. The sum \<^verbatim>\<open>runDurationS\<close>, a float that is only printed, is kept as
  the list of the durations added to it. The histogram compares seconds as floats; at nanosecond resolution and
  bounds of at most a minute this is the comparison of the nanosecond counts, which the model uses.
\<close>

section \<open>Definitions\<close>

type_synonym uint64 = "64 word"

record Collector =
  m_totalRuns :: uint64
  m_runsSuccess :: uint64
  m_runsFailed :: uint64
  m_runsCancelled :: uint64
  m_totalTasks :: uint64
  m_tasksSuccess :: uint64
  m_tasksFailed :: uint64
  m_tasksSkipped :: uint64
  m_compSuccess :: uint64
  m_compFailed :: uint64
  m_compSkipped :: uint64
  m_workerLeased :: uint64
  m_workerSuccess :: uint64
  m_workerRetry :: uint64
  m_workerDead :: uint64
  m_workerFailed :: uint64
  m_runDurations :: "duration list"
  m_runCount :: uint64
  m_buckets :: "duration list"
  m_bucketCounts :: "uint64 list"
  m_httpByKey :: "string \<rightharpoonup> uint64"
  m_queueDepth :: "string \<rightharpoonup> int"

definition NewCollector :: Collector where
  "NewCollector =
     \<lparr>m_totalRuns = 0, m_runsSuccess = 0, m_runsFailed = 0, m_runsCancelled = 0, m_totalTasks = 0,
      m_tasksSuccess = 0, m_tasksFailed = 0, m_tasksSkipped = 0, m_compSuccess = 0, m_compFailed = 0,
      m_compSkipped = 0, m_workerLeased = 0, m_workerSuccess = 0, m_workerRetry = 0, m_workerDead = 0,
      m_workerFailed = 0, m_runDurations = [], m_runCount = 0,
      m_buckets = [100 * millisecond, 250 * millisecond, 500 * millisecond, 1 * second, 2500 * millisecond,
        5 * second, 10 * second, 30 * second, 60 * second],
      m_bucketCounts = replicate 9 0, m_httpByKey = Map.empty, m_queueDepth = Map.empty\<rparr>"

fun countRun :: "RunStatus \<Rightarrow> Collector \<Rightarrow> Collector" where
  "countRun RunStatusSuccess c = c\<lparr>m_runsSuccess := m_runsSuccess c + 1\<rparr>"
| "countRun RunStatusFailed c = c\<lparr>m_runsFailed := m_runsFailed c + 1\<rparr>"
| "countRun RunStatusCancelled c = c\<lparr>m_runsCancelled := m_runsCancelled c + 1\<rparr>"
| "countRun _ c = c"

definition countTask :: "TaskResult \<Rightarrow> Collector \<Rightarrow> Collector" where
  "countTask res c0 =
     (let c = c0\<lparr>m_totalTasks := m_totalTasks c0 + 1\<rparr>
      in case tr_Status res of
           TaskStatusSuccess \<Rightarrow> c\<lparr>m_tasksSuccess := m_tasksSuccess c + 1\<rparr>
         | TaskStatusFailed \<Rightarrow> c\<lparr>m_tasksFailed := m_tasksFailed c + 1\<rparr>
         | TaskStatusSkipped \<Rightarrow> c\<lparr>m_tasksSkipped := m_tasksSkipped c + 1\<rparr>
         | _ \<Rightarrow> c)"

definition countCompensation :: "TaskResult \<Rightarrow> Collector \<Rightarrow> Collector" where
  "countCompensation res c =
     (case tr_Status res of
        TaskStatusSuccess \<Rightarrow> c\<lparr>m_compSuccess := m_compSuccess c + 1\<rparr>
      | TaskStatusFailed \<Rightarrow> c\<lparr>m_compFailed := m_compFailed c + 1\<rparr>
      | TaskStatusSkipped \<Rightarrow> c\<lparr>m_compSkipped := m_compSkipped c + 1\<rparr>
      | _ \<Rightarrow> c)"

definition countDuration :: "duration \<Rightarrow> Collector \<Rightarrow> Collector" where
  "countDuration d c =
     c\<lparr>m_runDurations := m_runDurations c @ [d], m_runCount := m_runCount c + 1,
       m_bucketCounts := map (\<lambda>(upper, n). if d \<le> upper then n + 1 else n) (zip (m_buckets c) (m_bucketCounts c))\<rparr>"

text \<open>\<open>ord\<close> is the order of \<^verbatim>\<open>range run.Results\<close>.\<close>

definition RecordRun :: "string list \<Rightarrow> Run \<Rightarrow> Collector \<Rightarrow> Collector" where
  "RecordRun ord run c0 =
     (let c1 = countRun (r_Status run) (c0\<lparr>m_totalRuns := m_totalRuns c0 + 1\<rparr>);
          c2 = fold countTask (rangeValues ord (r_Results run)) c1;
          c3 = fold countCompensation (r_CompensationResults run) c2
      in countDuration (r_Duration run) c3)"

definition RecordHTTPRequest :: "string \<Rightarrow> string \<Rightarrow> int \<Rightarrow> Collector \<Rightarrow> Collector" where
  "RecordHTTPRequest method route statusCode c =
     (let key = method @ ''|'' @ route @ ''|'' @ itoa statusCode;
          n = (case m_httpByKey c key of None \<Rightarrow> 0 | Some n \<Rightarrow> n)
      in c\<lparr>m_httpByKey := (m_httpByKey c)(key \<mapsto> n + 1)\<rparr>)"

definition RecordWorkerLease :: "Collector \<Rightarrow> Collector" where
  "RecordWorkerLease c = c\<lparr>m_workerLeased := m_workerLeased c + 1\<rparr>"

definition RecordWorkerSuccess :: "Collector \<Rightarrow> Collector" where
  "RecordWorkerSuccess c = c\<lparr>m_workerSuccess := m_workerSuccess c + 1\<rparr>"

definition RecordWorkerRetry :: "Collector \<Rightarrow> Collector" where
  "RecordWorkerRetry c = c\<lparr>m_workerRetry := m_workerRetry c + 1\<rparr>"

definition RecordWorkerDeadLetter :: "Collector \<Rightarrow> Collector" where
  "RecordWorkerDeadLetter c = c\<lparr>m_workerDead := m_workerDead c + 1\<rparr>"

definition RecordWorkerFailure :: "Collector \<Rightarrow> Collector" where
  "RecordWorkerFailure c = c\<lparr>m_workerFailed := m_workerFailed c + 1\<rparr>"

definition SetQueueDepthByStatus :: "(RunJobStatus \<times> int) list \<Rightarrow> Collector \<Rightarrow> Collector" where
  "SetQueueDepthByStatus counts c =
     c\<lparr>m_queueDepth := fold (\<lambda>(status, count) m. m(runJobStatusString status \<mapsto> count)) counts Map.empty\<rparr>"

section \<open>Recording a run\<close>

definition statusCount :: "TaskStatus \<Rightarrow> TaskResult list \<Rightarrow> nat" where
  "statusCount st rs = length (filter (\<lambda>r. tr_Status r = st) rs)"

lemma statusCount_simps [simp]:
  "statusCount st [] = 0"
  "statusCount st (r # rs) = (if tr_Status r = st then Suc (statusCount st rs) else statusCount st rs)"
  by (simp_all add: statusCount_def)

lemma fold_countTask:
  "fold countTask rs c =
     c\<lparr>m_totalTasks := m_totalTasks c + of_nat (length rs),
       m_tasksSuccess := m_tasksSuccess c + of_nat (statusCount TaskStatusSuccess rs),
       m_tasksFailed := m_tasksFailed c + of_nat (statusCount TaskStatusFailed rs),
       m_tasksSkipped := m_tasksSkipped c + of_nat (statusCount TaskStatusSkipped rs)\<rparr>"
proof (induction rs arbitrary: c)
  case (Cons r rs)
  show ?case unfolding fold_simps Cons.IH
    by (cases "tr_Status r") (simp_all add: countTask_def Let_def algebra_simps)
qed simp

lemma fold_countCompensation:
  "fold countCompensation rs c =
     c\<lparr>m_compSuccess := m_compSuccess c + of_nat (statusCount TaskStatusSuccess rs),
       m_compFailed := m_compFailed c + of_nat (statusCount TaskStatusFailed rs),
       m_compSkipped := m_compSkipped c + of_nat (statusCount TaskStatusSkipped rs)\<rparr>"
proof (induction rs arbitrary: c)
  case (Cons r rs)
  show ?case unfolding fold_simps Cons.IH
    by (cases "tr_Status r") (simp_all add: countCompensation_def algebra_simps)
qed simp

text \<open>The invariant of the collector: every finished run and every recorded task is counted under
  exactly one of its outcomes, and bucket \<open>i\<close> of the histogram counts the recorded runs that took at
  most the \<open>i\<close>-th bound (all counts modulo $2^{64}$).\<close>

definition collector_inv :: "Collector \<Rightarrow> bool" where
  "collector_inv c \<longleftrightarrow>
     m_totalRuns c = m_runsSuccess c + m_runsFailed c + m_runsCancelled c \<and>
     m_totalTasks c = m_tasksSuccess c + m_tasksFailed c + m_tasksSkipped c \<and>
     m_runCount c = m_totalRuns c \<and> m_runCount c = of_nat (length (m_runDurations c)) \<and>
     m_bucketCounts c = map (\<lambda>upper. of_nat (length (filter (\<lambda>d. d \<le> upper) (m_runDurations c)))) (m_buckets c)"

lemma NewCollector_inv: "collector_inv NewCollector"
  by (simp add: collector_inv_def NewCollector_def eval_nat_numeral)

lemma countRun_fields [simp]:
  "m_totalRuns (countRun st c) = m_totalRuns c" "m_totalTasks (countRun st c) = m_totalTasks c"
  "m_tasksSuccess (countRun st c) = m_tasksSuccess c" "m_tasksFailed (countRun st c) = m_tasksFailed c"
  "m_tasksSkipped (countRun st c) = m_tasksSkipped c" "m_runCount (countRun st c) = m_runCount c"
  "m_runDurations (countRun st c) = m_runDurations c" "m_buckets (countRun st c) = m_buckets c"
  "m_bucketCounts (countRun st c) = m_bucketCounts c"
  by (cases st; simp)+

lemma countRun_sum:
  "st \<in> {RunStatusSuccess, RunStatusFailed, RunStatusCancelled} \<Longrightarrow>
   m_runsSuccess (countRun st c) + m_runsFailed (countRun st c) + m_runsCancelled (countRun st c) =
     m_runsSuccess c + m_runsFailed c + m_runsCancelled c + 1"
  by auto

lemma statusCount_partition:
  "\<forall>r \<in> set rs. tr_Status r \<in> {TaskStatusSuccess, TaskStatusFailed, TaskStatusSkipped} \<Longrightarrow>
   length rs = statusCount TaskStatusSuccess rs + statusCount TaskStatusFailed rs + statusCount TaskStatusSkipped rs"
  by (induction rs) auto

lemma RecordRun_inv:
  assumes inv: "collector_inv c"
    and st: "r_Status run \<in> {RunStatusSuccess, RunStatusFailed, RunStatusCancelled}"
    and res: "\<forall>r \<in> ran (r_Results run). tr_Status r \<in> {TaskStatusSuccess, TaskStatusFailed, TaskStatusSkipped}"
    and ord: "iterates ord (r_Results run)"
  shows "collector_inv (RecordRun ord run c)"
proof -
  let ?rs = "rangeValues ord (r_Results run)"
  let ?c = "countRun (r_Status run) (c\<lparr>m_totalRuns := m_totalRuns c + 1\<rparr>)"
  have "of_nat (length ?rs) = (of_nat (statusCount TaskStatusSuccess ?rs) + of_nat (statusCount TaskStatusFailed ?rs)
      + of_nat (statusCount TaskStatusSkipped ?rs) :: uint64)"
    using statusCount_partition[of ?rs] res set_rangeValues_iterates[OF ord] by (metis of_nat_add)
  moreover have "m_runsSuccess ?c + m_runsFailed ?c + m_runsCancelled ?c = m_totalRuns c + 1"
    using countRun_sum[OF st] inv by (simp add: collector_inv_def)
  moreover have "map (\<lambda>(upper, n). if d \<le> upper then n + 1 else n) (zip us (map (\<lambda>u. of_nat (f u)) us))
      = map (\<lambda>u. of_nat (f u + (if d \<le> u then 1 else 0)) :: uint64) us" for d f us
    by (induction us) auto
  moreover have "length (filter (\<lambda>x. x \<le> u) (ds @ [d])) = length (filter (\<lambda>x. x \<le> u) ds) + (if d \<le> u then 1 else 0)"
    for ds :: "duration list" and d u by simp
  moreover have "m_runCount c = of_nat (length (m_runDurations c))" "m_runCount c = m_totalRuns c"
    "m_totalTasks c = m_tasksSuccess c + m_tasksFailed c + m_tasksSkipped c"
    "m_bucketCounts c = map (\<lambda>upper. of_nat (length (filter (\<lambda>d. d \<le> upper) (m_runDurations c)))) (m_buckets c)"
    using inv unfolding collector_inv_def by blast+
  ultimately show ?thesis
    by (simp add: collector_inv_def RecordRun_def Let_def countDuration_def fold_countTask fold_countCompensation
        del: of_nat_add filter_append)
qed

end
