(* ===== verification/Interfaces.thy ===== *)
theory Interfaces
  imports Domain
begin

text \<open>
  The interfaces of \<^verbatim>\<open>internal/domain/interfaces.go\<close>. An interface value is the record of its methods,
  over the type of the implementation's state; a method takes the state and returns it updated, so
  the executor, the worker and the scheduler are written against the record, as in the code. Each call carries
  its \<open>opEnv\<close>: the readings of the clock it makes and the order in which it sees the entries of a Go map. A
  method that returns only an error returns \<^const>\<open>None\<close> for \<^verbatim>\<open>nil\<close>. Listing methods can panic, which is the
  outer \<^const>\<open>None\<close> of their result.

  The locales \<open>workflow_store\<close> and \<open>run_queue\<close> state what the callers rely on.
\<close>

section \<open>Methods\<close>

record opEnv =
  oe_now :: clock
  oe_ord :: "string list"

record 's WorkflowStore =
  ws_SaveWorkflow :: "opEnv \<Rightarrow> Workflow \<Rightarrow> 's \<Rightarrow> error option \<times> 's"
  ws_GetWorkflow :: "opEnv \<Rightarrow> string \<Rightarrow> 's \<Rightarrow> error + Workflow"
  ws_ListWorkflows :: "opEnv \<Rightarrow> 's \<Rightarrow> error + Workflow list"
  ws_SaveRun :: "opEnv \<Rightarrow> Run \<Rightarrow> 's \<Rightarrow> error option \<times> 's"
  ws_GetRun :: "opEnv \<Rightarrow> string \<Rightarrow> 's \<Rightarrow> error + Run"
  ws_ListRuns :: "opEnv \<Rightarrow> string \<Rightarrow> 's \<Rightarrow> error + Run list"
  ws_ListRunsFiltered :: "opEnv \<Rightarrow> string \<Rightarrow> string \<Rightarrow> string \<Rightarrow> gotime \<Rightarrow> gotime \<Rightarrow> bool \<Rightarrow> int \<Rightarrow> int \<Rightarrow> 's \<Rightarrow>
     (error + Run list) option"
  ws_CountRunsFiltered :: "opEnv \<Rightarrow> string \<Rightarrow> string \<Rightarrow> string \<Rightarrow> gotime \<Rightarrow> gotime \<Rightarrow> 's \<Rightarrow> error + nat"

record 'q RunQueue =
  rq_EnqueueRunJob :: "opEnv \<Rightarrow> RunQueueJob \<Rightarrow> 'q \<Rightarrow> error option \<times> 'q"
  rq_GetRunJob :: "opEnv \<Rightarrow> string \<Rightarrow> 'q \<Rightarrow> error + RunQueueJob"
  rq_GetRunJobByRequest :: "opEnv \<Rightarrow> string \<Rightarrow> string \<Rightarrow> 'q \<Rightarrow> error + RunQueueJob"
  rq_LeaseNextRunJob :: "opEnv \<Rightarrow> string \<Rightarrow> duration \<Rightarrow> 'q \<Rightarrow> (error + RunQueueJob) \<times> 'q"
  rq_ExtendRunJobLease :: "opEnv \<Rightarrow> string \<Rightarrow> string \<Rightarrow> duration \<Rightarrow> 'q \<Rightarrow> error option \<times> 'q"
  rq_CompleteRunJob :: "opEnv \<Rightarrow> string \<Rightarrow> 'q \<Rightarrow> error option \<times> 'q"
  rq_CancelRunJob :: "opEnv \<Rightarrow> string \<Rightarrow> string \<Rightarrow> 'q \<Rightarrow> error option \<times> 'q"
  rq_RetryRunJob :: "opEnv \<Rightarrow> string \<Rightarrow> duration \<Rightarrow> string \<Rightarrow> 'q \<Rightarrow> error option \<times> 'q"
  rq_FailRunJob :: "opEnv \<Rightarrow> string \<Rightarrow> string \<Rightarrow> 'q \<Rightarrow> error option \<times> 'q"
  rq_DeadLetterRunJob :: "opEnv \<Rightarrow> string \<Rightarrow> string \<Rightarrow> 'q \<Rightarrow> error option \<times> 'q"
  rq_RequeueRunJob :: "opEnv \<Rightarrow> string \<Rightarrow> duration \<Rightarrow> string \<Rightarrow> string \<Rightarrow> 'q \<Rightarrow> error option \<times> 'q"
  rq_ListRunJobs :: "opEnv \<Rightarrow> string \<Rightarrow> int \<Rightarrow> int \<Rightarrow> 'q \<Rightarrow> (error + RunQueueJob list) option"
  rq_ListRunJobsFiltered :: "opEnv \<Rightarrow> string \<Rightarrow> string \<Rightarrow> string \<Rightarrow> gotime \<Rightarrow> gotime \<Rightarrow> int \<Rightarrow> int \<Rightarrow> 'q \<Rightarrow>
     (error + RunQueueJob list) option"
  rq_CountRunJobsFiltered :: "opEnv \<Rightarrow> string \<Rightarrow> string \<Rightarrow> string \<Rightarrow> gotime \<Rightarrow> gotime \<Rightarrow> 'q \<Rightarrow> error + nat"
  rq_ListRunJobsByRun :: "opEnv \<Rightarrow> string \<Rightarrow> int \<Rightarrow> int \<Rightarrow> 'q \<Rightarrow> (error + RunQueueJob list) option"
  rq_CountRunJobsByStatus :: "opEnv \<Rightarrow> 'q \<Rightarrow> error + (RunJobStatus \<rightharpoonup> int)"
  rq_PurgeRunJobs :: "opEnv \<Rightarrow> string \<Rightarrow> duration \<Rightarrow> int \<Rightarrow> 'q \<Rightarrow> (error + nat) \<times> 'q"
  rq_ListRunJobTransitions :: "opEnv \<Rightarrow> string \<Rightarrow> int \<Rightarrow> int \<Rightarrow> 'q \<Rightarrow> (error + RunJobTransition list) option"
  rq_ListRunJobTransitionsFiltered :: "opEnv \<Rightarrow> string \<Rightarrow> string \<Rightarrow> string \<Rightarrow> gotime \<Rightarrow> gotime \<Rightarrow> int \<Rightarrow> int \<Rightarrow> 'q \<Rightarrow>
     (error + RunJobTransition list) option"
  rq_CountRunJobTransitionsFiltered :: "opEnv \<Rightarrow> string \<Rightarrow> string \<Rightarrow> string \<Rightarrow> gotime \<Rightarrow> gotime \<Rightarrow> 'q \<Rightarrow> error + nat"

section \<open>Contracts\<close>

text \<open>A store holds workflows and runs by id, and returns what was saved last.\<close>

locale workflow_store =
  fixes S :: "'s WorkflowStore"
    and workflowOf :: "'s \<Rightarrow> string \<rightharpoonup> Workflow"
    and runOf :: "'s \<Rightarrow> string \<rightharpoonup> Run"
  assumes save_workflow: "ws_SaveWorkflow S e w s = (None, s') \<Longrightarrow>
      workflowOf s' = (workflowOf s)(w_ID w \<mapsto> w) \<and> runOf s' = runOf s"
    and save_run: "ws_SaveRun S e r s = (None, s') \<Longrightarrow>
      runOf s' = (runOf s)(r_ID r \<mapsto> r) \<and> workflowOf s' = workflowOf s"
    and get_workflow: "workflowOf s i = Some w \<Longrightarrow> ws_GetWorkflow S e i s = Inr w"
    and get_workflow_missing: "workflowOf s i = None \<Longrightarrow> \<exists>err. ws_GetWorkflow S e i s = Inl err"
    and get_run: "runOf s i = Some r \<Longrightarrow> ws_GetRun S e i s = Inr r"
    and get_run_missing: "runOf s i = None \<Longrightarrow> \<exists>err. ws_GetRun S e i s = Inl err"
begin

lemma get_after_save_run: "ws_SaveRun S e r s = (None, s') \<Longrightarrow> ws_GetRun S e' (r_ID r) s' = Inr r"
  using save_run get_run by fastforce

lemma get_after_save_workflow: "ws_SaveWorkflow S e w s = (None, s') \<Longrightarrow> ws_GetWorkflow S e' (w_ID w) s' = Inr w"
  using save_workflow get_workflow by fastforce

lemma get_other_run:
  assumes "ws_SaveRun S e r s = (None, s')" and "i \<noteq> r_ID r" and "ws_GetRun S e' i s = Inr r'"
  shows "ws_GetRun S e'' i s' = Inr r'"
proof -
  have "runOf s i = Some r'"
    using assms(3) get_run get_run_missing by (metis Inl_Inr_False Inr_inject not_None_eq)
  with assms(1,2) show ?thesis using save_run get_run by (metis fun_upd_other)
qed

end

text \<open>What a queue operation leaves of a job it settles in status \<open>st\<close>: the lease is gone, the identity, the
  attempts and the replay count are kept.\<close>

definition sameJob :: "RunQueueJob \<Rightarrow> RunQueueJob \<Rightarrow> bool" where
  "sameJob j j' \<longleftrightarrow>
     j_ID j' = j_ID j \<and> j_WorkflowID j' = j_WorkflowID j \<and> j_RunID j' = j_RunID j \<and>
     j_RequestID j' = j_RequestID j \<and> j_MaxAttempts j' = j_MaxAttempts j \<and> j_CreatedAt j' = j_CreatedAt j"

definition settled :: "RunJobStatus \<Rightarrow> RunQueueJob \<Rightarrow> RunQueueJob \<Rightarrow> bool" where
  "settled st j j' \<longleftrightarrow> sameJob j j' \<and> j_Status j' = st \<and> j_LeaseOwner j' = '''' \<and>
     j_Attempts j' = j_Attempts j \<and> j_ReplayCount j' = j_ReplayCount j"

definition leasedBy :: "string \<Rightarrow> RunQueueJob \<Rightarrow> RunQueueJob \<Rightarrow> bool" where
  "leasedBy workerID j j' \<longleftrightarrow> sameJob j j' \<and> j_Status j' = RunJobStatusLeased \<and> j_LeaseOwner j' = workerID \<and>
     j_Attempts j' = j_Attempts j + 1 \<and> j_ReplayCount j' = j_ReplayCount j"

lemma sameJob_refl [simp]: "sameJob j j"
  by (simp add: sameJob_def)

lemma sameJob_trans: "sameJob a b \<Longrightarrow> sameJob b c \<Longrightarrow> sameJob a c"
  by (simp add: sameJob_def)

text \<open>
  The contract of a run queue, on the jobs it holds. \<open>qinv\<close> is the implementation's invariant. An operation
  that reports an error leaves the jobs as they were; the four operations that settle a lease demand that the job
  is leased. \<open>timeOf\<close> is what the implementation's representation makes of an instant: the memory queue keeps it, the
  database keeps 64-bit nanoseconds.
\<close>

locale run_queue =
  fixes Q :: "'q RunQueue"
    and jobOf :: "'q \<Rightarrow> string \<rightharpoonup> RunQueueJob"
    and qinv :: "'q \<Rightarrow> bool"
    and envOk :: "opEnv \<Rightarrow> 'q \<Rightarrow> bool"
    and timeOf :: "gotime \<Rightarrow> gotime"
  assumes lease_some: "qinv q \<Longrightarrow> envOk e q \<Longrightarrow> rq_LeaseNextRunJob Q e wid d q = (Inr j, q') \<Longrightarrow>
      qinv q' \<and> jobOf q' = (jobOf q)(j_ID j \<mapsto> j) \<and>
      (\<exists>j0. jobOf q (j_ID j) = Some j0 \<and> j_Status j0 \<in> {RunJobStatusQueued, RunJobStatusLeased} \<and> leasedBy wid j0 j)"
    and lease_none: "rq_LeaseNextRunJob Q e wid d q = (Inl err, q') \<Longrightarrow> q' = q"
    and complete_leased: "qinv q \<Longrightarrow> jobOf q i = Some j \<Longrightarrow> j_Status j = RunJobStatusLeased \<Longrightarrow>
      \<exists>q' j'. rq_CompleteRunJob Q e i q = (None, q') \<and> qinv q' \<and> jobOf q' = (jobOf q)(i \<mapsto> j') \<and>
        settled RunJobStatusSucceeded j j'"
    and retry_leased: "qinv q \<Longrightarrow> jobOf q i = Some j \<Longrightarrow> j_Status j = RunJobStatusLeased \<Longrightarrow>
      \<exists>q' j'. rq_RetryRunJob Q e i d msg q = (None, q') \<and> qinv q' \<and> jobOf q' = (jobOf q)(i \<mapsto> j') \<and>
        settled RunJobStatusQueued j j' \<and> j_LastError j' = msg \<and> (\<exists>k. j_AvailableAt j' = timeOf (oe_now e k + d))"
    and fail_leased: "qinv q \<Longrightarrow> jobOf q i = Some j \<Longrightarrow> j_Status j = RunJobStatusLeased \<Longrightarrow>
      \<exists>q' j'. rq_FailRunJob Q e i msg q = (None, q') \<and> qinv q' \<and> jobOf q' = (jobOf q)(i \<mapsto> j') \<and>
        settled RunJobStatusFailed j j' \<and> j_LastError j' = msg"
    and dead_leased: "qinv q \<Longrightarrow> jobOf q i = Some j \<Longrightarrow> j_Status j = RunJobStatusLeased \<Longrightarrow>
      \<exists>q' j'. rq_DeadLetterRunJob Q e i msg q = (None, q') \<and> qinv q' \<and> jobOf q' = (jobOf q)(i \<mapsto> j') \<and>
        settled RunJobStatusDead j j' \<and> j_LastError j' = msg"
    and settle_not_leased: "\<not> (\<exists>j. jobOf q i = Some j \<and> j_Status j = RunJobStatusLeased) \<Longrightarrow>
      (\<exists>err. rq_CompleteRunJob Q e i q = (Some err, q)) \<and> (\<exists>err. rq_RetryRunJob Q e i d msg q = (Some err, q)) \<and>
      (\<exists>err. rq_FailRunJob Q e i msg q = (Some err, q)) \<and> (\<exists>err. rq_DeadLetterRunJob Q e i msg q = (Some err, q))"
    and cancel_open: "qinv q \<Longrightarrow> jobOf q i = Some j \<Longrightarrow>
      j_Status j \<notin> {RunJobStatusSucceeded, RunJobStatusCancelled} \<Longrightarrow>
      \<exists>q' j'. rq_CancelRunJob Q e i msg q = (None, q') \<and> qinv q' \<and> jobOf q' = (jobOf q)(i \<mapsto> j') \<and>
        settled RunJobStatusCancelled j j' \<and> j_LastError j' = msg"
    and cancel_closed: "jobOf q i = None \<or> jobOf q i = Some j \<and> j_Status j \<in> {RunJobStatusSucceeded, RunJobStatusCancelled} \<Longrightarrow>
      snd (rq_CancelRunJob Q e i msg q) = q"
    and extend: "qinv q \<Longrightarrow> rq_ExtendRunJobLease Q e i wid d q = (r, q') \<Longrightarrow>
      qinv q' \<and> (q' = q \<or> (\<exists>j j'. jobOf q i = Some j \<and> j_Status j = RunJobStatusLeased \<and> j_LeaseOwner j = wid \<and>
        jobOf q' = (jobOf q)(i \<mapsto> j') \<and> sameJob j j' \<and> j_Status j' = RunJobStatusLeased \<and> j_LeaseOwner j' = wid \<and>
        j_Attempts j' = j_Attempts j \<and> j_ReplayCount j' = j_ReplayCount j))"
    and get_job: "jobOf q i = Some j \<Longrightarrow> rq_GetRunJob Q e i q = Inr j"
    and get_job_missing: "jobOf q i = None \<Longrightarrow> \<exists>err. rq_GetRunJob Q e i q = Inl err"

end
