(* ===== verification/MemoryStore.thy ===== *)
theory MemoryStore
  imports Interfaces
begin

text \<open>
  The in-memory workflow store (\<^verbatim>\<open>internal/store/memory_store.go\<close>). Every method holds the mutex for its whole
  body, so a method is one step. The listing operations range over a map: the order is the
  \<open>oe_ord\<close> of the call.
\<close>

section \<open>Definitions\<close>

record MemoryStore =
  ms_workflows :: "string \<rightharpoonup> Workflow"
  ms_runs :: "string \<rightharpoonup> Run"

definition NewMemoryStore :: MemoryStore where
  "NewMemoryStore = \<lparr>ms_workflows = Map.empty, ms_runs = Map.empty\<rparr>"

definition SaveWorkflow :: "opEnv \<Rightarrow> Workflow \<Rightarrow> MemoryStore \<Rightarrow> error option \<times> MemoryStore" where
  "SaveWorkflow e w s = (None, s\<lparr>ms_workflows := (ms_workflows s)(w_ID w \<mapsto> w)\<rparr>)"

definition GetWorkflow :: "opEnv \<Rightarrow> string \<Rightarrow> MemoryStore \<Rightarrow> error + Workflow" where
  "GetWorkflow e workflowID s =
     (case ms_workflows s workflowID of None \<Rightarrow> Inl ''workflow not found'' | Some w \<Rightarrow> Inr w)"

definition workflowLess :: "Workflow \<Rightarrow> Workflow \<Rightarrow> bool" where
  "workflowLess a b \<longleftrightarrow> w_ID a < w_ID b"

definition ListWorkflows :: "opEnv \<Rightarrow> MemoryStore \<Rightarrow> error + Workflow list" where
  "ListWorkflows e s = Inr (sortSlice workflowLess (rangeValues (oe_ord e) (ms_workflows s)))"

definition SaveRun :: "opEnv \<Rightarrow> Run \<Rightarrow> MemoryStore \<Rightarrow> error option \<times> MemoryStore" where
  "SaveRun e run s = (None, s\<lparr>ms_runs := (ms_runs s)(r_ID run \<mapsto> run)\<rparr>)"

definition GetRun :: "opEnv \<Rightarrow> string \<Rightarrow> MemoryStore \<Rightarrow> error + Run" where
  "GetRun e runID s = (case ms_runs s runID of None \<Rightarrow> Inl ''run not found'' | Some run \<Rightarrow> Inr run)"

definition startedBefore :: "Run \<Rightarrow> Run \<Rightarrow> bool" where
  "startedBefore a b \<longleftrightarrow> r_StartedAt a < r_StartedAt b"

definition startedAfter :: "Run \<Rightarrow> Run \<Rightarrow> bool" where
  "startedAfter a b \<longleftrightarrow> r_StartedAt b < r_StartedAt a"

definition ListRuns :: "opEnv \<Rightarrow> string \<Rightarrow> MemoryStore \<Rightarrow> error + Run list" where
  "ListRuns e workflowID s =
     Inr (sortSlice startedBefore
       (filter (\<lambda>r. workflowID = '''' \<or> r_WorkflowID r = workflowID) (rangeValues (oe_ord e) (ms_runs s))))"

text \<open>The guards of the filtered listing and of the filtered count, which the code spells out twice.\<close>

definition runMatches :: "string \<Rightarrow> string \<Rightarrow> string \<Rightarrow> gotime \<Rightarrow> gotime \<Rightarrow> Run \<Rightarrow> bool" where
  "runMatches workflowID status requestID after before run \<longleftrightarrow>
     \<not> (workflowID \<noteq> '''' \<and> r_WorkflowID run \<noteq> workflowID) \<and>
     \<not> (status \<noteq> '''' \<and> runStatusString (r_Status run) \<noteq> status) \<and>
     \<not> (requestID \<noteq> '''' \<and> r_RequestID run \<noteq> requestID) \<and>
     \<not> (\<not> isZero after \<and> r_StartedAt run < after) \<and>
     \<not> (\<not> isZero before \<and> before < r_StartedAt run)"

definition ListRunsFiltered ::
  "opEnv \<Rightarrow> string \<Rightarrow> string \<Rightarrow> string \<Rightarrow> gotime \<Rightarrow> gotime \<Rightarrow> bool \<Rightarrow> int \<Rightarrow> int \<Rightarrow> MemoryStore \<Rightarrow> (error + Run list) option" where
  "ListRunsFiltered e workflowID status requestID after before orderDesc limit offset s =
     (let items = filter (runMatches workflowID status requestID after before) (rangeValues (oe_ord e) (ms_runs s));
          items = sortSlice (if orderDesc then startedAfter else startedBefore) items
      in map_option Inr (sliceWindow items limit offset))"

definition CountRunsFiltered ::
  "opEnv \<Rightarrow> string \<Rightarrow> string \<Rightarrow> string \<Rightarrow> gotime \<Rightarrow> gotime \<Rightarrow> MemoryStore \<Rightarrow> error + nat" where
  "CountRunsFiltered e workflowID status requestID after before s =
     Inr (length (filter (runMatches workflowID status requestID after before) (rangeValues (oe_ord e) (ms_runs s))))"

definition memoryStore :: "MemoryStore WorkflowStore" where
  "memoryStore =
     \<lparr>ws_SaveWorkflow = SaveWorkflow, ws_GetWorkflow = GetWorkflow, ws_ListWorkflows = ListWorkflows,
      ws_SaveRun = SaveRun, ws_GetRun = GetRun, ws_ListRuns = ListRuns,
      ws_ListRunsFiltered = ListRunsFiltered, ws_CountRunsFiltered = CountRunsFiltered\<rparr>"

section \<open>Properties\<close>

interpretation mem: workflow_store memoryStore ms_workflows ms_runs
  by unfold_locales
    (auto simp: memoryStore_def SaveWorkflow_def SaveRun_def GetWorkflow_def GetRun_def)

interpretation wfLess: strict_less_func workflowLess w_ID
  by unfold_locales (auto simp: workflowLess_def)

interpretation runBefore: less_func startedBefore
  by unfold_locales (auto simp: startedBefore_def)

interpretation runAfter: less_func startedAfter
  by unfold_locales (auto simp: startedAfter_def)

text \<open>Every workflow and run is filed under its own id.\<close>

definition store_inv :: "MemoryStore \<Rightarrow> bool" where
  "store_inv s \<longleftrightarrow> (\<forall>i w. ms_workflows s i = Some w \<longrightarrow> w_ID w = i) \<and> (\<forall>i r. ms_runs s i = Some r \<longrightarrow> r_ID r = i)"

lemma store_inv_new [inv_intros]: "store_inv NewMemoryStore"
  by (simp add: store_inv_def NewMemoryStore_def)

lemma store_inv_save [inv_intros]:
  "store_inv s \<Longrightarrow> store_inv (snd (SaveWorkflow e w s))" "store_inv s \<Longrightarrow> store_inv (snd (SaveRun e r s))"
  by (auto simp: store_inv_def SaveWorkflow_def SaveRun_def)

lemma rangeValues_ids:
  assumes "\<forall>i v. m i = Some v \<longrightarrow> key v = i"
  shows "map key (rangeValues ord m) = filter (\<lambda>i. m i \<noteq> None) ord"
  by (induction ord) (use assms in \<open>auto split: option.splits\<close>)

text \<open>\<open>ListWorkflows\<close> returns each stored workflow once, by ascending id, whatever the map's order.\<close>

lemma ListWorkflows_spec:
  assumes inv: "store_inv s" and ord: "iterates (oe_ord e) (ms_workflows s)"
    and items: "ListWorkflows e s = Inr items"
  shows "set items = ran (ms_workflows s)" and "distinct (map w_ID items)"
    and "sorted_wrt (\<lambda>a b. w_ID a < w_ID b) items"
proof -
  let ?vals = "rangeValues (oe_ord e) (ms_workflows s)"
  have it: "items = sortSlice workflowLess ?vals" using items by (simp add: ListWorkflows_def)
  show "set items = ran (ms_workflows s)" using set_rangeValues_iterates[OF ord] by (simp add: it)
  have "map w_ID ?vals = filter (\<lambda>i. ms_workflows s i \<noteq> None) (oe_ord e)"
    by (rule rangeValues_ids) (use inv in \<open>simp add: store_inv_def\<close>)
  with ord show dist: "distinct (map w_ID items)" by (simp add: it iterates_def)
  have "sorted_wrt (\<lambda>a b. \<not> w_ID b < w_ID a) items"
    using wfLess.sorted_sortSlice by (simp add: it workflowLess_def)
  with dist show "sorted_wrt (\<lambda>a b. w_ID a < w_ID b) items"
    by (intro sorted_wrt_strict)
qed

lemma ListRunsFiltered_sorted:
  assumes "ListRunsFiltered e wid st rid a b True limit offset s = Some (Inr items)"
    and "0 < limit" "0 \<le> offset" "limit \<le> maxInt64 - int (length (oe_ord e))"
  shows "sorted_wrt (\<lambda>x y. r_StartedAt y \<le> r_StartedAt x) items"
proof -
  let ?m = "filter (runMatches wid st rid a b) (rangeValues (oe_ord e) (ms_runs s))"
  let ?l = "sortSlice startedAfter ?m"
  have "length (rangeValues ks m) \<le> length ks" for ks :: "string list" and m :: "string \<rightharpoonup> Run"
    by (induction ks) (auto split: option.splits)
  then have "length ?l \<le> length (oe_ord e)" by (simp add: le_trans[OF length_filter_le])
  then have "sliceWindow ?l limit offset = Some (take (nat limit) (drop (nat offset) ?l))"
    by (intro sliceWindow_exact) (use assms in auto)
  then have "items = take (nat limit) (drop (nat offset) ?l)"
    using assms(1) by (simp add: ListRunsFiltered_def Let_def)
  moreover have "sorted_wrt (\<lambda>x y. r_StartedAt y \<le> r_StartedAt x) ?l"
    using runAfter.sorted_sortSlice[of ?m] by (simp add: startedAfter_def not_less)
  ultimately show ?thesis by (metis sorted_wrt_take sorted_wrt_drop)
qed

end
