(* ===== verification/Executor.thy ===== *)
theory Executor
  imports DispatchInv Telemetry MemoryStore
begin

text \<open>
  The run of a workflow (\<^verbatim>\<open>internal/engine/executor.go\<close>): validation, the run record, the scheduling loop, the
  final status, the compensation of a failed run, and the final save. \<open>runWithID\<close> composes them as the
  method of the same name does, over the store interface and the metrics collector.

  The environment of a run is a \<open>runEnv\<close>: the clock readings outside the loop, the loop's own clock, the
  orders in which the maps are ranged over, the events of the loop and the environments of the
  compensation actions. A run whose events end before the loop does is \<open>RunWaiting\<close>; a run
  caught in the template resolution of an input is \<open>RunHangs\<close>. Saving a run copies the record: that
  the map \<^verbatim>\<open>run.Results\<close> saved at the start is the one the loop fills is not modelled.
\<close>

section \<open>Definitions\<close>

subsection \<open>Run ids\<close>

text \<open>\<^verbatim>\<open>UnixNano\<close>: nanoseconds since January 1, 1970, in an \<^verbatim>\<open>int64\<close>.\<close>

definition unixNano :: "gotime \<Rightarrow> int" where
  "unixNano t = wrap64 (t - 62135596800 * second)"

definition NewRunID :: "string \<Rightarrow> gotime \<Rightarrow> string" where
  "NewRunID workflowID now = workflowID @ ''-'' @ itoa (unixNano now)"

subsection \<open>The end of a run\<close>

definition skippedResult :: "gotime \<Rightarrow> error \<Rightarrow> TaskNode \<Rightarrow> TaskResult" where
  "skippedResult now reason t =
     zeroTaskResult\<lparr>tr_TaskID := t_ID t, tr_Status := TaskStatusSkipped, tr_StartedAt := now,
       tr_FinishedAt := now, tr_Duration := 0, tr_Error := reason, tr_UpstreamRef := t_DependsOn t\<rparr>"

definition markUnfinishedTasksAsSkipped :: "gotime \<Rightarrow> TaskNode list \<Rightarrow> results \<Rightarrow> error \<Rightarrow> results" where
  "markUnfinishedTasksAsSkipped now tasks results reason0 =
     (let reason = (if reason0 = '''' then ''not executed'' else reason0)
      in fold (\<lambda>t m. if m (t_ID t) \<noteq> None then m else m(t_ID t \<mapsto> skippedResult now reason t)) tasks results)"

text \<open>The argument is the sequence of values \<^verbatim>\<open>range results\<close> yields.\<close>

definition deriveFinalStatus :: "TaskResult list \<Rightarrow> RunStatus" where
  "deriveFinalStatus results =
     (if results = [] then RunStatusFailed
      else if list_ex (\<lambda>r. tr_Status r = TaskStatusFailed) results then RunStatusFailed
      else RunStatusSuccess)"

fun firstTaskError :: "TaskResult list \<Rightarrow> error" where
  "firstTaskError [] = ''''"
| "firstTaskError (r # rs) =
     (if tr_Status r = TaskStatusFailed
      then (if tr_Error r \<noteq> '''' then tr_Error r else ''task failed without explicit error'')
      else firstTaskError rs)"

definition deriveCompensationStatus :: "TaskResult list \<Rightarrow> CompensationStatus" where
  "deriveCompensationStatus results =
     (if results = [] then CompensationStatusSkipped
      else if list_ex (\<lambda>r. tr_Status r = TaskStatusFailed) results then CompensationStatusFailed
      else CompensationStatusSuccess)"

subsection \<open>Compensation\<close>

record 'e compEnv =
  ce_now :: clock
  ce_exec :: 'e

text \<open>\<^const>\<open>None\<close>: the resolution of the compensation's input does not end.\<close>

definition runCompensationTask :: "'e Registry \<Rightarrow> 'e compEnv \<Rightarrow> TaskNode \<Rightarrow> results \<Rightarrow> TaskResult option" where
  "runCompensationTask registry env task allResults =
     (let start = ce_now env 0;
          finish = ce_now env 1;
          res = zeroTaskResult\<lparr>tr_TaskID := t_ID task @ ''.compensation'', tr_Status := TaskStatusRunning,
                  tr_StartedAt := start, tr_Attempts := 1, tr_UpstreamRef := t_DependsOn task\<rparr>;
          fin = (\<lambda>r. r\<lparr>tr_FinishedAt := finish, tr_Duration := timeSub finish start\<rparr>)
      in case Get registry (c_Action (t_Compensation task)) of
           None \<Rightarrow> Some (fin (res\<lparr>tr_Status := TaskStatusFailed,
                            tr_Error := ''compensation action not found: '' @ c_Action (t_Compensation task)\<rparr>))
         | Some act \<Rightarrow>
             (case resolveInputTemplates (c_Input (t_Compensation task)) allResults of
                None \<Rightarrow> None
              | Some (Inl err) \<Rightarrow> Some (fin (res\<lparr>tr_Status := TaskStatusFailed, tr_Error := err\<rparr>))
              | Some (Inr input) \<Rightarrow>
                  (case act (ce_exec env) input of
                     Inl err \<Rightarrow> Some (fin (res\<lparr>tr_Status := TaskStatusFailed, tr_Error := errText err\<rparr>))
                   | Inr out \<Rightarrow> Some (fin (res\<lparr>tr_Status := TaskStatusSuccess, tr_Output := out\<rparr>)))))"

definition compensationEligible :: "Workflow \<Rightarrow> results \<Rightarrow> string \<Rightarrow> TaskNode option" where
  "compensationEligible w results taskID =
     (case results taskID of
        None \<Rightarrow> None
      | Some result \<Rightarrow>
          if tr_Status result \<noteq> TaskStatusSuccess then None
          else case tasksByID (w_Tasks w) taskID of
                 None \<Rightarrow> None
               | Some task \<Rightarrow> if trimSpace (c_Action (t_Compensation task)) = '''' then None else Some task)"

definition resultOrZero :: "results \<Rightarrow> string \<Rightarrow> TaskResult" where
  "resultOrZero results i = (case results i of None \<Rightarrow> zeroTaskResult | Some r \<Rightarrow> r)"

definition compensationLess :: "results \<Rightarrow> TaskNode \<Rightarrow> TaskNode \<Rightarrow> bool" where
  "compensationLess results a b =
     (let ri = resultOrZero results (t_ID a); rj = resultOrZero results (t_ID b)
      in if tr_FinishedAt ri = tr_FinishedAt rj then t_ID b < t_ID a
         else tr_FinishedAt rj < tr_FinishedAt ri)"

fun runCompensationTasks :: "'e Registry \<Rightarrow> (string \<Rightarrow> 'e compEnv) \<Rightarrow> results \<Rightarrow> TaskNode list \<Rightarrow> TaskResult list option" where
  "runCompensationTasks registry envs results [] = Some []"
| "runCompensationTasks registry envs results (task # tasks) =
     (case runCompensationTask registry (envs (t_ID task)) task results of
        None \<Rightarrow> None
      | Some res \<Rightarrow> map_option (Cons res) (runCompensationTasks registry envs results tasks))"

text \<open>\<open>ord\<close> is the order of \<^verbatim>\<open>range run.Results\<close>.\<close>

definition compensationOrder :: "Workflow \<Rightarrow> results \<Rightarrow> string list \<Rightarrow> TaskNode list" where
  "compensationOrder w results ord =
     sortSlice (compensationLess results) (List.map_filter (compensationEligible w results) ord)"

definition runCompensation ::
  "'e Registry \<Rightarrow> (string \<Rightarrow> 'e compEnv) \<Rightarrow> string list \<Rightarrow> Workflow \<Rightarrow> results \<Rightarrow> TaskResult list option" where
  "runCompensation registry envs ord w results =
     runCompensationTasks registry envs results (compensationOrder w results ord)"

subsection \<open>runWithID\<close>

record ('e, 's) Executor =
  ex_registry :: "'e Registry"
  ex_store :: "'s WorkflowStore option"

record 'e runEnv =
  re_idNow :: gotime
  re_startedAt :: gotime
  re_firstSave :: opEnv
  re_finalSave :: opEnv
  re_depsOrd :: "string list"
  re_clk :: clock
  re_events :: "'e execEvent list"
  re_markNow :: gotime
  re_finishedAt :: gotime
  re_statusOrd :: "string list"
  re_errorOrd :: "string list"
  re_compOrd :: "string list"
  re_metricsOrd :: "string list"
  re_comp :: "string \<Rightarrow> 'e compEnv"

text \<open>What the caller sees: the run and the error, the store afterwards, and the collector
  (\<^const>\<open>None\<close> when none is set).\<close>

datatype 's runReturn =
    RunHangs
  | RunWaiting execState
  | RunReturned Run "error option" 's "Collector option"

definition zeroRun :: Run where
  "zeroRun =
     \<lparr>r_ID = '''', r_WorkflowID = '''', r_RequestID = '''', r_Status = RunStatusUnset,
      r_CompensationStatus = CompensationStatusUnset, r_CompensationResults = [], r_StartedAt = 0,
      r_FinishedAt = 0, r_Duration = 0, r_Results = Map.empty, r_Error = ''''\<rparr>"

definition newRun :: "'e runEnv \<Rightarrow> Workflow \<Rightarrow> string \<Rightarrow> string \<Rightarrow> Run" where
  "newRun env w forcedRunID requestID =
     zeroRun\<lparr>r_ID := (if trimSpace forcedRunID = '''' then NewRunID (w_ID w) (re_idNow env) else forcedRunID),
       r_WorkflowID := w_ID w, r_RequestID := requestID, r_Status := RunStatusRunning,
       r_CompensationStatus := CompensationStatusNotRequired, r_StartedAt := re_startedAt env\<rparr>"

text \<open>From the label \<^verbatim>\<open>FINISH\<close> to the final save, on the run as the loop left it.\<close>

definition finishRun :: "'e Registry \<Rightarrow> 'e runEnv \<Rightarrow> Workflow \<Rightarrow> Run \<Rightarrow> Run option" where
  "finishRun registry env w run0 =
     (let results = markUnfinishedTasksAsSkipped (re_markNow env) (w_Tasks w) (r_Results run0) (r_Error run0);
          run1 = run0\<lparr>r_Results := results, r_FinishedAt := re_finishedAt env,
                      r_Duration := timeSub (re_finishedAt env) (r_StartedAt run0)\<rparr>;
          run2 = (if r_Status run1 = RunStatusRunning
                  then (let run = run1\<lparr>r_Status := deriveFinalStatus (rangeValues (re_statusOrd env) results)\<rparr>
                        in if r_Status run = RunStatusFailed 
                           then run\<lparr>r_Error := firstTaskError (rangeValues (re_errorOrd env) results)\<rparr> else run)
                  else run1)
      in if r_Status run2 \<in> {RunStatusFailed, RunStatusCancelled} \<and> w_CompensateOnFailure w
         then (case runCompensation registry (re_comp env) (re_compOrd env) w results of
                 None \<Rightarrow> None
               | Some crs \<Rightarrow> Some (run2\<lparr>r_CompensationResults := crs,
                                        r_CompensationStatus := deriveCompensationStatus crs\<rparr>))
         else if r_Status run2 = RunStatusSuccess
         then Some (run2\<lparr>r_CompensationStatus := CompensationStatusNotRequired\<rparr>)
         else Some (run2\<lparr>r_CompensationStatus := CompensationStatusSkipped\<rparr>))"

definition saveFinal ::
  "('e, 's) Executor \<Rightarrow> 'e runEnv \<Rightarrow> Run \<Rightarrow> 's \<Rightarrow> Collector option \<Rightarrow> 's runReturn" where
  "saveFinal ex env run s metrics =
     (case (case ex_store ex of None \<Rightarrow> (None, s) | Some S \<Rightarrow> ws_SaveRun S (re_finalSave env) run s) of
        (Some err, s') \<Rightarrow> RunReturned run (Some err) s' metrics
      | (None, s') \<Rightarrow> RunReturned run None s' (map_option (RecordRun (re_metricsOrd env) run) metrics))"

definition runWithID ::
  "('e, 's) Executor \<Rightarrow> 'e runEnv \<Rightarrow> Workflow \<Rightarrow> string \<Rightarrow> string \<Rightarrow> 's \<Rightarrow> Collector option \<Rightarrow> 's runReturn" where
  "runWithID ex env w forcedRunID requestID s metrics =
     (case ValidateWorkflow w of
        Some err \<Rightarrow> RunReturned zeroRun (Some err) s metrics
      | None \<Rightarrow>
          (let run = newRun env w forcedRunID requestID;
               s1 = (case ex_store ex of None \<Rightarrow> s | Some S \<Rightarrow> snd (ws_SaveRun S (re_firstSave env) run s));
               after = (\<lambda>run. case finishRun (ex_registry ex) env w run of
                                None \<Rightarrow> RunHangs
                              | Some run' \<Rightarrow> saveFinal ex env run' s1 metrics)
           in case runLoop (ex_registry ex) w (re_clk env) (initState w (re_depsOrd env)) (re_events env) of
                Hung \<Rightarrow> RunHangs
              | Waiting st \<Rightarrow> RunWaiting st
              | LoopLeft st \<Rightarrow> after (run\<lparr>r_Results := x_results st\<rparr>)
              | Interrupted st status err \<Rightarrow>
                  after (run\<lparr>r_Results := x_results st, r_Status := status, r_Error := err\<rparr>)))"

definition ExecutorRun ::
  "('e, 's) Executor \<Rightarrow> 'e runEnv \<Rightarrow> Workflow \<Rightarrow> 's \<Rightarrow> Collector option \<Rightarrow> 's runReturn" where
  "ExecutorRun ex env w s metrics = runWithID ex env w '''' '''' s metrics"

definition RunWithID ::
  "('e, 's) Executor \<Rightarrow> 'e runEnv \<Rightarrow> Workflow \<Rightarrow> string \<Rightarrow> string \<Rightarrow> 's \<Rightarrow> Collector option \<Rightarrow> 's runReturn" where
  "RunWithID ex env w runID requestID s metrics = runWithID ex env w runID requestID s metrics"

section \<open>The end of a run\<close>

lemma fold_mark:
  assumes "distinct (map t_ID ts)"
  shows "fold (\<lambda>t m. if m (t_ID t) \<noteq> None then m else m(t_ID t \<mapsto> f t)) ts m i =
     (case m i of Some r \<Rightarrow> Some r | None \<Rightarrow> map_option f (find (\<lambda>t. t_ID t = i) ts))"
  using assms
proof (induction ts arbitrary: m)
  case Nil
  then show ?case by (simp split: option.splits)
next
  case (Cons t ts)
  have "find (\<lambda>u. t_ID u = t_ID t) ts = None" using Cons.prems by (simp add: find_None_iff, metis imageI)
  with Cons show ?case by (auto split: option.splits)
qed

lemma markUnfinished_lookup:
  assumes "distinct (map t_ID tasks)"
  shows "markUnfinishedTasksAsSkipped now tasks results reason i =
     (case results i of Some r \<Rightarrow> Some r
      | None \<Rightarrow> map_option (skippedResult now (if reason = '''' then ''not executed'' else reason))
                  (find (\<lambda>t. t_ID t = i) tasks))"
  unfolding markUnfinishedTasksAsSkipped_def Let_def by (rule fold_mark[OF assms])

lemma markUnfinished_dom:
  assumes "distinct (map t_ID tasks)"
  shows "dom (markUnfinishedTasksAsSkipped now tasks results reason) = dom results \<union> t_ID ` set tasks"
proof -
  have "(find (\<lambda>t. t_ID t = i) tasks = None) = (i \<notin> t_ID ` set tasks)" for i by (auto simp: find_None_iff)
  then have "markUnfinishedTasksAsSkipped now tasks results reason i = None \<longleftrightarrow>
      results i = None \<and> i \<notin> t_ID ` set tasks" for i
    by (simp add: markUnfinished_lookup[OF assms] split: option.splits)
  then show ?thesis by (auto simp: domIff set_eq_iff)
qed

text \<open>What a finished run's results look like: one per task, each final and filed under its own task.\<close>

definition terminalResults :: "Workflow \<Rightarrow> results \<Rightarrow> bool" where
  "terminalResults w results \<longleftrightarrow> dom results = taskIDs w \<and>
     (\<forall>i r. results i = Some r \<longrightarrow> tr_TaskID r = i \<and>
        tr_Status r \<in> {TaskStatusSuccess, TaskStatusFailed, TaskStatusSkipped})"

lemma markUnfinished_terminal:
  assumes w: "wellFormed w" and inv: "sched_inv w [] s" and fi: "fail_inv w s"
  shows "terminalResults w (markUnfinishedTasksAsSkipped now (w_Tasks w) (x_results s) reason)"
proof -
  have d: "distinct (map t_ID (w_Tasks w))" using w by (simp add: wellFormed_def)
  have "tr_TaskID r = i \<and> tr_Status r \<in> {TaskStatusSuccess, TaskStatusFailed, TaskStatusSkipped}"
    if "markUnfinishedTasksAsSkipped now (w_Tasks w) (x_results s) reason i = Some r" for i r
  proof (cases "x_results s i")
    case None
    with that show ?thesis by (auto simp: markUnfinished_lookup[OF d] skippedResult_def find_Some_iff)
  next
    case (Some r')
    with that have "x_results s i = Some r" by (simp add: markUnfinished_lookup[OF d])
    then show ?thesis using fail_invD(3)[OF fi] by blast
  qed
  then show ?thesis
    using markUnfinished_dom[OF d] sched_invD(4)[OF inv] by (auto simp: terminalResults_def)
qed

lemma deriveFinalStatus_iff:
  assumes "iterates ord results"
  shows "deriveFinalStatus (rangeValues ord results) =
     (if dom results = {} \<or> (\<exists>i r. results i = Some r \<and> tr_Status r = TaskStatusFailed)
      then RunStatusFailed else RunStatusSuccess)"
proof -
  have "rangeValues ord results = [] \<longleftrightarrow> dom results = {}"
    using assms rangeValues_map_the[of ord results] unfolding iterates_def
    by (metis list.map_disc_iff order_refl set_empty)
  then show ?thesis
    using set_rangeValues_iterates[OF assms] by (auto simp: deriveFinalStatus_def list_ex_iff ran_def)
qed

lemma firstTaskError_failed:
  assumes "\<exists>r \<in> set rs. tr_Status r = TaskStatusFailed"
  shows "\<exists>r \<in> set rs. tr_Status r = TaskStatusFailed \<and>
     firstTaskError rs = (if tr_Error r \<noteq> '''' then tr_Error r else ''task failed without explicit error'')"
  using assms
proof (induction rs)
  case (Cons a rs)
  show ?case
  proof (cases "tr_Status a = TaskStatusFailed")
    case True
    then show ?thesis by (intro bexI[of _ a]) simp_all
  next
    case False
    with Cons obtain r where "r \<in> set rs" "tr_Status r = TaskStatusFailed"
      "firstTaskError rs = (if tr_Error r \<noteq> '''' then tr_Error r else ''task failed without explicit error'')" by auto
    with False show ?thesis by (intro bexI[of _ r]) simp_all
  qed
qed simp

section \<open>Compensation\<close>

interpretation comp: strict_less_func "compensationLess results" t_ID for results
proof unfold_locales
  fix x y z :: TaskNode
  show "compensationLess results x y \<Longrightarrow> \<not> compensationLess results y x"
    by (auto simp: compensationLess_def Let_def split: if_splits)
  show "compensationLess results x z \<Longrightarrow> compensationLess results x y \<or> compensationLess results y z"
    by (auto simp: compensationLess_def Let_def split: if_splits)
  show "t_ID x \<noteq> t_ID y \<Longrightarrow> compensationLess results x y \<or> compensationLess results y x"
    by (auto simp: compensationLess_def Let_def split: if_splits)
qed

definition compensable :: "Workflow \<Rightarrow> results \<Rightarrow> TaskNode \<Rightarrow> bool" where
  "compensable w results t \<longleftrightarrow> t \<in> set (w_Tasks w) \<and> trimSpace (c_Action (t_Compensation t)) \<noteq> '''' \<and>
     (\<exists>r. results (t_ID t) = Some r \<and> tr_Status r = TaskStatusSuccess)"

lemma compensationEligible_Some:
  assumes "wellFormed w"
  shows "compensationEligible w results i = Some t \<longleftrightarrow> compensable w results t \<and> t_ID t = i"
proof -
  have d: "distinct (map t_ID (w_Tasks w))" using assms by (simp add: wellFormed_def)
  show ?thesis
    using tasksByID_SomeD[OF d] tasksByID_distinct[OF d]
    by (auto simp: compensationEligible_def compensable_def split: option.splits if_splits)
qed

lemma map_filter_ids:
  "(\<And>i t. f i = Some t \<Longrightarrow> g t = i) \<Longrightarrow> map g (List.map_filter f xs) = filter (\<lambda>i. f i \<noteq> None) xs"
  by (induction xs) (auto simp: map_filter_simps split: option.splits)

lemma set_map_filter: "set (List.map_filter f xs) = {y. \<exists>x \<in> set xs. f x = Some y}"
  by (induction xs) (auto split: option.splits)

lemma mset_map_filter: "mset xs = mset ys \<Longrightarrow> mset (List.map_filter f xs) = mset (List.map_filter f ys)"
  unfolding List.map_filter_def by simp

lemma set_compensationOrder:
  assumes "wellFormed w" and "iterates ord results"
  shows "set (compensationOrder w results ord) = {t. compensable w results t}"
  using assms(2)
  by (auto simp: compensationOrder_def set_map_filter compensationEligible_Some[OF assms(1)] iterates_def
      compensable_def)

lemma distinct_compensationOrder:
  assumes "wellFormed w" and "iterates ord results"
  shows "distinct (map t_ID (compensationOrder w results ord))"
proof -
  have "map t_ID (List.map_filter (compensationEligible w results) ord) =
      filter (\<lambda>i. compensationEligible w results i \<noteq> None) ord"
    by (rule map_filter_ids) (simp add: compensationEligible_Some[OF assms(1)])
  with assms(2) show ?thesis by (simp add: compensationOrder_def iterates_def)
qed

text \<open>The order does not depend on how the map of results is ranged over.\<close>

lemma compensationOrder_unique:
  assumes "wellFormed w" and "iterates ord results" and "iterates ord' results"
  shows "compensationOrder w results ord = compensationOrder w results ord'"
proof -
  let ?f = "List.map_filter (compensationEligible w results)"
  have "mset ord = mset ord'"
    using assms(2,3) by (metis iterates_def set_eq_iff_mset_eq_distinct)
  then have "mset (?f ord) = mset (?f ord')" by (rule mset_map_filter)
  moreover have "distinct (map t_ID (?f ord))"
    using distinct_compensationOrder[OF assms(1,2)] by (simp add: compensationOrder_def)
  ultimately show ?thesis
    unfolding compensationOrder_def by (rule comp.sortSlice_order_irrelevant)
qed

lemma runCompensationTask_facts:
  assumes "runCompensationTask reg env task results = Some res"
  shows "tr_TaskID res = t_ID task @ ''.compensation''" and "tr_Status res \<in> {TaskStatusSuccess, TaskStatusFailed}"
  using assms
  by (auto simp: runCompensationTask_def Let_def split: option.splits sum.splits)

lemma runCompensationTasks_facts:
  "runCompensationTasks reg envs results ts = Some crs \<Longrightarrow>
   map tr_TaskID crs = map (\<lambda>t. t_ID t @ ''.compensation'') ts \<and>
   (\<forall>r \<in> set crs. tr_Status r \<in> {TaskStatusSuccess, TaskStatusFailed})"
proof (induction ts arbitrary: crs)
  case (Cons t ts)
  then obtain r rs where r: "runCompensationTask reg (envs (t_ID t)) t results = Some r"
    and rs: "runCompensationTasks reg envs results ts = Some rs" and "crs = r # rs"
    by (auto split: option.splits)
  with Cons.IH[OF rs] runCompensationTask_facts[OF r] show ?case by simp
qed simp

definition compensationsResolve :: "Workflow \<Rightarrow> bool" where
  "compensationsResolve w \<longleftrightarrow>
     (\<forall>t \<in> set (w_Tasks w). \<forall>rs. resolveInputTemplates (c_Input (t_Compensation t)) rs \<noteq> None)"

lemma runCompensationTasks_total:
  "\<forall>t \<in> set ts. resolveInputTemplates (c_Input (t_Compensation t)) results \<noteq> None \<Longrightarrow>
   runCompensationTasks reg envs results ts \<noteq> None"
proof (induction ts)
  case (Cons t ts)
  then have "runCompensationTask reg (envs (t_ID t)) t results \<noteq> None"
    by (auto simp: runCompensationTask_def Let_def split: option.splits sum.splits)
  with Cons show ?case by auto
qed simp

lemma runCompensation_total:
  assumes "wellFormed w" and "iterates ord results" and "compensationsResolve w"
  shows "runCompensation reg envs ord w results \<noteq> None"
  unfolding runCompensation_def
  by (rule runCompensationTasks_total)
    (use assms in \<open>auto simp: set_compensationOrder compensable_def compensationsResolve_def\<close>)

section \<open>What a run returns\<close>

text \<open>The orders in which the maps of a run are ranged over list its tasks.\<close>

definition runEnvOk :: "Workflow \<Rightarrow> 'e runEnv \<Rightarrow> bool" where
  "runEnvOk w env \<longleftrightarrow>
     (\<forall>ord \<in> {re_depsOrd env, re_statusOrd env, re_errorOrd env, re_compOrd env, re_metricsOrd env}.
        distinct ord \<and> set ord = taskIDs w)"

lemma runEnvOk_iterates:
  assumes "runEnvOk w env" and "dom results = taskIDs w"
  shows "iterates (re_statusOrd env) results" "iterates (re_errorOrd env) results"
    "iterates (re_compOrd env) results" "iterates (re_metricsOrd env) results"
  using assms by (simp_all add: runEnvOk_def iterates_def)

text \<open>The states in which the loop is left, with the status and the error the run then has.\<close>

inductive loopEnds ::
  "'e Registry \<Rightarrow> Workflow \<Rightarrow> 'e runEnv \<Rightarrow> execState \<Rightarrow> RunStatus \<Rightarrow> error \<Rightarrow> bool" for reg w env where
  left: "runLoop reg w (re_clk env) (initState w (re_depsOrd env)) (re_events env) = LoopLeft st \<Longrightarrow>
     loopEnds reg w env st RunStatusRunning ''''"
| interrupted: "runLoop reg w (re_clk env) (initState w (re_depsOrd env)) (re_events env) = Interrupted st status err \<Longrightarrow>
     loopEnds reg w env st status err"

lemma runWithID_cases:
  assumes "ValidateWorkflow w = None" and "runWithID ex env w fid rid s m = RunReturned run err s' m'"
  obtains (ends) st status lerr where
    "loopEnds (ex_registry ex) w env st status lerr"
    "finishRun (ex_registry ex) env w ((newRun env w fid rid)
       \<lparr>r_Results := x_results st, r_Status := status, r_Error := lerr\<rparr>) = Some run"
    "saveFinal ex env run (case ex_store ex of None \<Rightarrow> s
       | Some S \<Rightarrow> snd (ws_SaveRun S (re_firstSave env) (newRun env w fid rid) s)) m = RunReturned run err s' m'"
proof -
  have new: "(newRun env w fid rid)\<lparr>r_Results := rs\<rparr> =
      (newRun env w fid rid)\<lparr>r_Results := rs, r_Status := RunStatusRunning, r_Error := ''''\<rparr>" for rs
    by (simp add: newRun_def zeroRun_def)
  have keep: "saveFinal ex env run' s1 m = RunReturned run err s' m' \<Longrightarrow> run' = run" for run' s1
    by (auto simp: saveFinal_def split: prod.splits option.splits)
  let ?s1 = "case ex_store ex of None \<Rightarrow> s
       | Some S \<Rightarrow> snd (ws_SaveRun S (re_firstSave env) (newRun env w fid rid) s)"
  have after: thesis if "loopEnds (ex_registry ex) w env st status lerr"
    "(case finishRun (ex_registry ex) env w ((newRun env w fid rid)
        \<lparr>r_Results := x_results st, r_Status := status, r_Error := lerr\<rparr>) of
        None \<Rightarrow> RunHangs | Some run' \<Rightarrow> saveFinal ex env run' ?s1 m) = RunReturned run err s' m'" for st status lerr
  proof -
    from that(2) obtain run' where run': "finishRun (ex_registry ex) env w ((newRun env w fid rid)
        \<lparr>r_Results := x_results st, r_Status := status, r_Error := lerr\<rparr>) = Some run'"
      and save: "saveFinal ex env run' ?s1 m = RunReturned run err s' m'" by (auto split: option.splits)
    with keep have "run' = run" by blast
    then show thesis using ends[OF that(1)] run' save by simp
  qed
  show ?thesis
  proof (cases "runLoop (ex_registry ex) w (re_clk env) (initState w (re_depsOrd env)) (re_events env)")
    case (LoopLeft st)
    show ?thesis
      by (rule after[OF loopEnds.left[OF LoopLeft]])
        (use assms LoopLeft in \<open>simp add: runWithID_def Let_def new[symmetric]\<close>)
  next
    case (Interrupted st status e)
    show ?thesis
      by (rule after[OF loopEnds.interrupted[OF Interrupted]])
        (use assms Interrupted in \<open>simp add: runWithID_def Let_def\<close>)
  qed (use assms in \<open>auto simp: runWithID_def Let_def\<close>)
qed

lemma loopEnds_reachable:
  "loopEnds reg w env st status lerr \<Longrightarrow> reachable reg w (re_clk env) (re_depsOrd env) st"
  by (erule loopEnds.cases; rule runLoop_reachable[where evs = "re_events env"]; simp)

lemma runLoop_interrupted:
  "runLoop reg w clk s evs = Interrupted st status err \<Longrightarrow>
   x_active st \<noteq> [] \<and> (\<exists>e. CtxDone e \<in> set evs \<and>
     (if x_failFast st then status = RunStatusFailed \<and> err = ''fail-fast: stopped after critical task failure''
      else status = RunStatusCancelled \<and> err = e))"
proof (induction reg w clk s evs rule: runLoop.induct)
  case (1 reg w clk s evs)
  then obtain s1 where s1: "x_completed s < length (w_Tasks w)" "dispatch w clk s = Some s1" "x_active s1 \<noteq> []"
    by (auto simp: runLoop.simps[of reg w clk s] split: if_splits option.splits)
  show ?case
  proof (cases evs)
    case Nil
    with "1.prems" s1 show ?thesis by (simp add: runLoop.simps[of reg w clk s])
  next
    case (Cons ev evs')
    show ?thesis
    proof (cases ev)
      case (CtxDone e)
      with Cons "1.prems" s1 show ?thesis by (auto simp: runLoop.simps[of reg w clk s] split: if_splits)
    next
      case (Recv n env)
      with Cons "1.prems" s1 have "runLoop reg w clk (onResult reg w n env s1) evs' = Interrupted st status err"
        by (simp add: runLoop.simps[of reg w clk s])
      with "1.IH"[OF s1 Cons Recv] Cons show ?thesis by auto
    qed
  qed
qed

lemma finishRun_facts:
  assumes "finishRun reg env w run0 = Some run"
  defines "results \<equiv> markUnfinishedTasksAsSkipped (re_markNow env) (w_Tasks w) (r_Results run0) (r_Error run0)"
  shows "r_Results run = results" "r_ID run = r_ID run0" "r_WorkflowID run = r_WorkflowID run0"
    "r_RequestID run = r_RequestID run0" "r_StartedAt run = r_StartedAt run0" "r_FinishedAt run = re_finishedAt env"
    "r_Duration run = timeSub (re_finishedAt env) (r_StartedAt run0)"
    "r_Status run = (if r_Status run0 = RunStatusRunning
       then deriveFinalStatus (rangeValues (re_statusOrd env) results) else r_Status run0)"
    "r_Error run = (if r_Status run0 = RunStatusRunning \<and> r_Status run = RunStatusFailed
       then firstTaskError (rangeValues (re_errorOrd env) results) else r_Error run0)"
  using assms(1) unfolding results_def
  by (auto simp: finishRun_def Let_def split: if_splits option.splits)

lemma finishRun_compensation:
  assumes "finishRun reg env w run0 = Some run" and "r_CompensationResults run0 = []"
  shows "if r_Status run \<in> {RunStatusFailed, RunStatusCancelled} \<and> w_CompensateOnFailure w
     then runCompensation reg (re_comp env) (re_compOrd env) w (r_Results run) = Some (r_CompensationResults run) \<and>
          r_CompensationStatus run = deriveCompensationStatus (r_CompensationResults run)
     else r_CompensationResults run = [] \<and>
          r_CompensationStatus run = (if r_Status run = RunStatusSuccess then CompensationStatusNotRequired
                                      else CompensationStatusSkipped)"
  using assms by (auto simp: finishRun_def Let_def split: if_splits option.splits)

text \<open>Every run that returns has a final result for each task and a final status.\<close>

lemma runWithID_results:
  assumes valid: "ValidateWorkflow w = None" and ok: "runEnvOk w env"
    and ret: "runWithID ex env w fid rid s m = RunReturned run err s' m'"
  shows "terminalResults w (r_Results run)"
    and "r_Status run \<in> {RunStatusSuccess, RunStatusFailed, RunStatusCancelled}"
    and "r_Status run = RunStatusSuccess \<Longrightarrow> \<forall>i r. r_Results run i = Some r \<longrightarrow> tr_Status r \<noteq> TaskStatusFailed"
    and "\<forall>e. CtxDone e \<notin> set (re_events env) \<Longrightarrow>
      r_Status run = RunStatusSuccess \<longleftrightarrow> (\<forall>i r. r_Results run i = Some r \<longrightarrow> tr_Status r \<noteq> TaskStatusFailed)"
    and "\<forall>e. CtxDone e \<notin> set (re_events env) \<Longrightarrow> r_Status run \<noteq> RunStatusCancelled"
proof -
  from runWithID_cases[OF valid ret] obtain st status lerr where
    ends: "loopEnds (ex_registry ex) w env st status lerr"
    and fin: "finishRun (ex_registry ex) env w ((newRun env w fid rid)
       \<lparr>r_Results := x_results st, r_Status := status, r_Error := lerr\<rparr>) = Some run" by blast
  have w: "wellFormed w" by (rule valid_wellFormed[OF valid])
  have "distinct (re_depsOrd env)" "set (re_depsOrd env) = taskIDs w" using ok by (simp_all add: runEnvOk_def)
  note inv = reachable_inv[OF w this loopEnds_reachable[OF ends]]
  note facts = finishRun_facts[OF fin, simplified]
  show tres: "terminalResults w (r_Results run)"
    unfolding facts(1) using markUnfinished_terminal[OF w] inv by blast
  then have dom: "dom (r_Results run) = taskIDs w" by (simp add: terminalResults_def)
  have "w_Tasks w \<noteq> []" using valid by (simp add: ValidateWorkflow_iff valid_workflow_def)
  then have final: "deriveFinalStatus (rangeValues (re_statusOrd env) (r_Results run)) =
      (if \<exists>i r. r_Results run i = Some r \<and> tr_Status r = TaskStatusFailed then RunStatusFailed else RunStatusSuccess)"
    using deriveFinalStatus_iff[OF runEnvOk_iterates(1)[OF ok dom]] dom by auto
  have stat: "r_Status run = (if status = RunStatusRunning
      then deriveFinalStatus (rangeValues (re_statusOrd env) (r_Results run)) else status)"
    using facts(1,8) by simp
  have how: "status = RunStatusRunning \<or> status \<in> {RunStatusFailed, RunStatusCancelled} \<and> (\<exists>e. CtxDone e \<in> set (re_events env))"
    using ends by (cases rule: loopEnds.cases) (auto dest!: runLoop_interrupted split: if_splits)
  show "r_Status run \<in> {RunStatusSuccess, RunStatusFailed, RunStatusCancelled}"
    using stat final how by auto
  show "r_Status run = RunStatusSuccess \<Longrightarrow> \<forall>i r. r_Results run i = Some r \<longrightarrow> tr_Status r \<noteq> TaskStatusFailed"
    using stat final how by (auto split: if_splits)
  show "r_Status run = RunStatusSuccess \<longleftrightarrow> (\<forall>i r. r_Results run i = Some r \<longrightarrow> tr_Status r \<noteq> TaskStatusFailed)"
    if "\<forall>e. CtxDone e \<notin> set (re_events env)"
    using stat final how that by (auto split: if_splits)
  show "r_Status run \<noteq> RunStatusCancelled" if "\<forall>e. CtxDone e \<notin> set (re_events env)"
    using stat final how that by (auto split: if_splits)
qed

lemma saveFinal_returns: "\<exists>err s' m'. saveFinal ex env run s m = RunReturned run err s' m'"
  by (auto simp: saveFinal_def split: prod.splits option.splits)

lemma finishRun_total:
  assumes "wellFormed w" and "runEnvOk w env" and "compensationsResolve w"
    and "dom (markUnfinishedTasksAsSkipped (re_markNow env) (w_Tasks w) (r_Results run0) (r_Error run0)) = taskIDs w"
  shows "\<exists>run. finishRun reg env w run0 = Some run"
proof -
  have "runCompensation reg (re_comp env) (re_compOrd env) w
      (markUnfinishedTasksAsSkipped (re_markNow env) (w_Tasks w) (r_Results run0) (r_Error run0)) \<noteq> None"
    by (rule runCompensation_total[OF assms(1) runEnvOk_iterates(3)[OF assms(2,4)] assms(3)])
  then show ?thesis by (auto simp: finishRun_def Let_def)
qed

lemma runWithID_returns:
  assumes valid: "ValidateWorkflow w = None" and ok: "runEnvOk w env"
    and "inputsResolve w" and "compensationsResolve w"
    and "\<forall>ev \<in> set (re_events env). \<exists>n te. ev = Recv n te" and "length (w_Tasks w) \<le> length (re_events env)"
  shows "\<exists>run err s' m'. runWithID ex env w fid rid s m = RunReturned run err s' m'"
proof -
  have w: "wellFormed w" by (rule valid_wellFormed[OF valid])
  have ord: "distinct (re_depsOrd env)" "set (re_depsOrd env) = taskIDs w" using ok by (simp_all add: runEnvOk_def)
  note inv0 = initState_sched_inv[OF w ord]
  obtain st where st: "runLoop (ex_registry ex) w (re_clk env) (initState w (re_depsOrd env)) (re_events env) = LoopLeft st"
    using runLoop_ends[OF w assms(3) inv0 _ assms(5)] assms(6) by (fastforce simp: initState_def)
  have "reachable (ex_registry ex) w (re_clk env) (re_depsOrd env) st"
    by (rule loopEnds_reachable[OF loopEnds.left[OF st]])
  note inv = reachable_inv[OF w ord this]
  have "dom (markUnfinishedTasksAsSkipped (re_markNow env) (w_Tasks w) (x_results st) e) = taskIDs w" for e
    using markUnfinished_terminal[OF w] inv by (auto simp: terminalResults_def)
  then obtain run where "finishRun (ex_registry ex) env w ((newRun env w fid rid)\<lparr>r_Results := x_results st\<rparr>) = Some run"
    using finishRun_total[OF w ok assms(4), of "(newRun env w fid rid)\<lparr>r_Results := x_results st\<rparr>" "ex_registry ex"] by auto
  moreover obtain err s' m' where "saveFinal ex env run (case ex_store ex of None \<Rightarrow> s
      | Some S \<Rightarrow> snd (ws_SaveRun S (re_firstSave env) (newRun env w fid rid) s)) m = RunReturned run err s' m'"
    using saveFinal_returns[of ex env run "case ex_store ex of None \<Rightarrow> s
      | Some S \<Rightarrow> snd (ws_SaveRun S (re_firstSave env) (newRun env w fid rid) s)" m] by metis
  ultimately show ?thesis using st valid by (simp add: runWithID_def Let_def)
qed

text \<open>The results of the loop are results of the run.\<close>

lemma runWithID_keeps_results:
  assumes valid: "ValidateWorkflow w = None"
    and ret: "runWithID ex env w fid rid s m = RunReturned run err s' m'"
    and loop: "runLoop (ex_registry ex) w (re_clk env) (initState w (re_depsOrd env)) (re_events env) = LoopLeft st"
    and res: "x_results st i = Some r"
  shows "r_Results run i = Some r"
proof -
  from runWithID_cases[OF valid ret] obtain st' status lerr where
    ends: "loopEnds (ex_registry ex) w env st' status lerr"
    and fin: "finishRun (ex_registry ex) env w ((newRun env w fid rid)
       \<lparr>r_Results := x_results st', r_Status := status, r_Error := lerr\<rparr>) = Some run" by blast
  have "st' = st" using ends loop by (auto elim: loopEnds.cases)
  moreover have "distinct (map t_ID (w_Tasks w))" using valid_wellFormed[OF valid] by (simp add: wellFormed_def)
  ultimately show ?thesis using finishRun_facts(1)[OF fin] res by (simp add: markUnfinished_lookup)
qed

lemma runWithID_collector:
  assumes "ValidateWorkflow w = None" and "runWithID ex env w fid rid s m = RunReturned run err s' m'"
  shows "m' = (if err = None then map_option (RecordRun (re_metricsOrd env) run) m else m)"
proof -
  from runWithID_cases[OF assms] obtain s1 where "saveFinal ex env run s1 m = RunReturned run err s' m'" by metis
  then show ?thesis by (auto simp: saveFinal_def split: prod.splits option.splits)
qed

section \<open>The run in the store\<close>

text \<open>The memory store never refuses a run.\<close>

lemma runWithID_memory_ok:
  assumes "ValidateWorkflow w = None" and "ex_store ex = Some memoryStore"
    and "runWithID ex env w fid rid s m = RunReturned run err s' m'"
  shows "err = None"
proof -
  from runWithID_cases[OF assms(1,3)] obtain s1 where "saveFinal ex env run s1 m = RunReturned run err s' m'" by metis
  then show ?thesis
    using assms(2) by (auto simp: saveFinal_def memoryStore_def SaveRun_def split: prod.splits option.splits)
qed

text \<open>A run that returns without an error is in the store as returned, under its id.\<close>

context workflow_store
begin

lemma returned_run_is_stored:
  assumes "ValidateWorkflow w = None" and "ex_store ex = Some S"
    and "runWithID ex env w fid rid s m = RunReturned run None s' m'"
  shows "ws_GetRun S e (r_ID run) s' = Inr run"
proof -
  from runWithID_cases[OF assms(1,3)] obtain s1 where "saveFinal ex env run s1 m = RunReturned run None s' m'" by metis
  then have "ws_SaveRun S (re_finalSave env) run s1 = (None, s')"
    using assms(2) by (auto simp: saveFinal_def split: prod.splits option.splits)
  then show ?thesis by (rule get_after_save_run)
qed

end

end
