(* ===== verification/MemoryQueue.thy ===== *)
theory MemoryQueue
  imports Interfaces
begin

text \<open>
  The in-memory run queue (\<^verbatim>\<open>internal/queue/memory_queue.go\<close>). Every method holds the mutex for its whole body,
  so a method is one step on the state. \<open>oe_now e i\<close> is the \<open>i\<close>-th reading of the clock in the call, in the order
  of the code, and \<open>oe_ord e\<close> the order in which the call ranges over the jobs.
\<close>

section \<open>Definitions\<close>

record MemoryRunQueue =
  mq_jobs :: "string \<rightharpoonup> RunQueueJob"
  mq_transitions :: "string \<rightharpoonup> RunJobTransition list"

definition NewMemoryRunQueue :: MemoryRunQueue where
  "NewMemoryRunQueue = \<lparr>mq_jobs = Map.empty, mq_transitions = Map.empty\<rparr>"

definition transitionsOf :: "MemoryRunQueue \<Rightarrow> string \<Rightarrow> RunJobTransition list" where
  "transitionsOf q jobID = (case mq_transitions q jobID of None \<Rightarrow> [] | Some ts \<Rightarrow> ts)"

definition appendTransition ::
  "gotime \<Rightarrow> string \<Rightarrow> RunJobStatus \<Rightarrow> RunJobStatus \<Rightarrow> string \<Rightarrow> string \<Rightarrow> MemoryRunQueue \<Rightarrow> MemoryRunQueue" where
  "appendTransition now jobID fromStatus toStatus reason actor q =
     q\<lparr>mq_transitions := (mq_transitions q)(jobID \<mapsto> transitionsOf q jobID @
         [\<lparr>tn_JobID = jobID, tn_FromStatus = fromStatus, tn_ToStatus = toStatus, tn_Reason = reason,
           tn_Actor = actor, tn_CreatedAt = now\<rparr>])\<rparr>"

definition putJob :: "string \<Rightarrow> RunQueueJob \<Rightarrow> MemoryRunQueue \<Rightarrow> MemoryRunQueue" where
  "putJob jobID job q = q\<lparr>mq_jobs := (mq_jobs q)(jobID \<mapsto> job)\<rparr>"

definition EnqueueRunJob :: "opEnv \<Rightarrow> RunQueueJob \<Rightarrow> MemoryRunQueue \<Rightarrow> error option \<times> MemoryRunQueue" where
  "EnqueueRunJob e job q =
     (if mq_jobs q (j_ID job) \<noteq> None then (None, q)
      else let now = oe_now e 0;
               job = (if isZero (j_CreatedAt job) then job\<lparr>j_CreatedAt := now\<rparr> else job);
               job = (if isZero (j_UpdatedAt job) then job\<lparr>j_UpdatedAt := now\<rparr> else job);
               job = (if isZero (j_AvailableAt job) then job\<lparr>j_AvailableAt := now\<rparr> else job);
               job = (if j_Status job = RunJobStatusUnset then job\<lparr>j_Status := RunJobStatusQueued\<rparr> else job)
           in (None, appendTransition (oe_now e 1) (j_ID job) RunJobStatusUnset (j_Status job) ''enqueued'' ''system''
                       (putJob (j_ID job) job q)))"

definition GetRunJob :: "opEnv \<Rightarrow> string \<Rightarrow> MemoryRunQueue \<Rightarrow> error + RunQueueJob" where
  "GetRunJob e jobID q = (case mq_jobs q jobID of None \<Rightarrow> Inl ''run job not found'' | Some job \<Rightarrow> Inr job)"

definition GetRunJobByRequest :: "opEnv \<Rightarrow> string \<Rightarrow> string \<Rightarrow> MemoryRunQueue \<Rightarrow> error + RunQueueJob" where
  "GetRunJobByRequest e workflowID requestID q =
     (case find (\<lambda>job. j_WorkflowID job = workflowID \<and> j_RequestID job = requestID)
             (rangeValues (oe_ord e) (mq_jobs q)) of
        Some job \<Rightarrow> Inr job
      | None \<Rightarrow> Inl ''run job not found'')"

definition leasable :: "gotime \<Rightarrow> RunQueueJob \<Rightarrow> bool" where
  "leasable now job \<longleftrightarrow>
     j_Status job = RunJobStatusQueued \<and> \<not> now < j_AvailableAt job \<or>
     j_Status job = RunJobStatusLeased \<and> \<not> isZero (j_LeaseUntil job) \<and> j_LeaseUntil job < now"

definition jobCreatedBefore :: "RunQueueJob \<Rightarrow> RunQueueJob \<Rightarrow> bool" where
  "jobCreatedBefore a b \<longleftrightarrow> j_CreatedAt a < j_CreatedAt b"

definition LeaseNextRunJob ::
  "opEnv \<Rightarrow> string \<Rightarrow> duration \<Rightarrow> MemoryRunQueue \<Rightarrow> (error + RunQueueJob) \<times> MemoryRunQueue" where
  "LeaseNextRunJob e workerID leaseDuration q =
     (let now = oe_now e 0;
          candidates = filter (leasable now) (rangeValues (oe_ord e) (mq_jobs q))
      in if candidates = [] then (Inl ''no run job available'', q)
         else let job0 = hd (sortSlice jobCreatedBefore candidates);
                  fromStatus = j_Status job0;
                  job = job0\<lparr>j_Status := RunJobStatusLeased, j_LeaseOwner := workerID,
                             j_LeaseUntil := now + leaseDuration, j_Attempts := j_Attempts job0 + 1,
                             j_UpdatedAt := now\<rparr>
              in (Inr job, appendTransition (oe_now e 1) (j_ID job) fromStatus RunJobStatusLeased ''leased'' workerID
                             (putJob (j_ID job) job q)))"

definition ExtendRunJobLease ::
  "opEnv \<Rightarrow> string \<Rightarrow> string \<Rightarrow> duration \<Rightarrow> MemoryRunQueue \<Rightarrow> error option \<times> MemoryRunQueue" where
  "ExtendRunJobLease e jobID workerID leaseDuration q =
     (case mq_jobs q jobID of
        None \<Rightarrow> (Some ''run job not found'', q)
      | Some job \<Rightarrow>
          if j_Status job \<noteq> RunJobStatusLeased then (Some ''run job is not leased'', q)
          else if j_LeaseOwner job \<noteq> workerID then (Some ''run job lease owner mismatch'', q)
          else (None, putJob jobID (job\<lparr>j_LeaseUntil := oe_now e 0 + leaseDuration, j_UpdatedAt := oe_now e 1\<rparr>) q))"

definition CompleteRunJob :: "opEnv \<Rightarrow> string \<Rightarrow> MemoryRunQueue \<Rightarrow> error option \<times> MemoryRunQueue" where
  "CompleteRunJob e jobID q =
     (case mq_jobs q jobID of
        None \<Rightarrow> (Some ''run job not found'', q)
      | Some job0 \<Rightarrow>
          if j_Status job0 \<noteq> RunJobStatusLeased then (Some ''run job is not leased'', q)
          else let job = job0\<lparr>j_Status := RunJobStatusSucceeded, j_LeaseOwner := '''', j_LeaseUntil := 0,
                              j_UpdatedAt := oe_now e 0\<rparr>
               in (None, appendTransition (oe_now e 1) jobID (j_Status job0) (j_Status job) ''completed'' ''worker''
                           (putJob jobID job q)))"

definition CancelRunJob :: "opEnv \<Rightarrow> string \<Rightarrow> string \<Rightarrow> MemoryRunQueue \<Rightarrow> error option \<times> MemoryRunQueue" where
  "CancelRunJob e jobID reason q =
     (case mq_jobs q jobID of
        None \<Rightarrow> (Some ''run job not found'', q)
      | Some job0 \<Rightarrow>
          if j_Status job0 = RunJobStatusSucceeded then (Some ''run job cannot be cancelled in current state'', q)
          else if j_Status job0 = RunJobStatusCancelled then (None, q)
          else let job = job0\<lparr>j_Status := RunJobStatusCancelled, j_LastError := reason, j_LeaseOwner := '''',
                              j_LeaseUntil := 0, j_UpdatedAt := oe_now e 0\<rparr>
               in (None, appendTransition (oe_now e 1) jobID (j_Status job0) (j_Status job) reason ''api''
                           (putJob jobID job q)))"

definition RetryRunJob ::
  "opEnv \<Rightarrow> string \<Rightarrow> duration \<Rightarrow> string \<Rightarrow> MemoryRunQueue \<Rightarrow> error option \<times> MemoryRunQueue" where
  "RetryRunJob e jobID retryAfter lastError q =
     (case mq_jobs q jobID of
        None \<Rightarrow> (Some ''run job not found'', q)
      | Some job0 \<Rightarrow>
          if j_Status job0 \<noteq> RunJobStatusLeased then (Some ''run job is not leased'', q)
          else let job = job0\<lparr>j_Status := RunJobStatusQueued, j_AvailableAt := oe_now e 0 + retryAfter,
                              j_LastError := lastError, j_LeaseOwner := '''', j_LeaseUntil := 0,
                              j_UpdatedAt := oe_now e 1\<rparr>
               in (None, appendTransition (oe_now e 2) jobID (j_Status job0) (j_Status job) lastError ''worker''
                           (putJob jobID job q)))"

definition FailRunJob :: "opEnv \<Rightarrow> string \<Rightarrow> string \<Rightarrow> MemoryRunQueue \<Rightarrow> error option \<times> MemoryRunQueue" where
  "FailRunJob e jobID lastError q =
     (case mq_jobs q jobID of
        None \<Rightarrow> (Some ''run job not found'', q)
      | Some job0 \<Rightarrow>
          if j_Status job0 \<noteq> RunJobStatusLeased then (Some ''run job is not leased'', q)
          else let job = job0\<lparr>j_Status := RunJobStatusFailed, j_LastError := lastError, j_LeaseOwner := '''',
                              j_LeaseUntil := 0, j_UpdatedAt := oe_now e 0\<rparr>
               in (None, appendTransition (oe_now e 1) jobID (j_Status job0) (j_Status job) lastError ''worker''
                           (putJob jobID job q)))"

definition DeadLetterRunJob :: "opEnv \<Rightarrow> string \<Rightarrow> string \<Rightarrow> MemoryRunQueue \<Rightarrow> error option \<times> MemoryRunQueue" where
  "DeadLetterRunJob e jobID lastError q =
     (case mq_jobs q jobID of
        None \<Rightarrow> (Some ''run job not found'', q)
      | Some job0 \<Rightarrow>
          if j_Status job0 \<noteq> RunJobStatusLeased then (Some ''run job is not leased'', q)
          else let job = job0\<lparr>j_Status := RunJobStatusDead, j_LastError := lastError, j_LeaseOwner := '''',
                              j_LeaseUntil := 0, j_UpdatedAt := oe_now e 0\<rparr>
               in (None, appendTransition (oe_now e 1) jobID (j_Status job0) (j_Status job) lastError ''worker''
                           (putJob jobID job q)))"

definition RequeueRunJob ::
  "opEnv \<Rightarrow> string \<Rightarrow> duration \<Rightarrow> string \<Rightarrow> string \<Rightarrow> MemoryRunQueue \<Rightarrow> error option \<times> MemoryRunQueue" where
  "RequeueRunJob e jobID availableAfter replayedBy replayReason q =
     (case mq_jobs q jobID of
        None \<Rightarrow> (Some ''run job not found'', q)
      | Some job0 \<Rightarrow>
          if j_Status job0 \<noteq> RunJobStatusDead \<and> j_Status job0 \<noteq> RunJobStatusFailed
          then (Some ''only failed or dead-letter jobs can be requeued'', q)
          else let job = job0\<lparr>j_Status := RunJobStatusQueued, j_LeaseOwner := '''', j_LeaseUntil := 0,
                              j_AvailableAt := oe_now e 0 + availableAfter, j_ReplayCount := j_ReplayCount job0 + 1,
                              j_ReplayedBy := replayedBy, j_ReplayReason := replayReason,
                              j_ReplayedAt := oe_now e 1, j_UpdatedAt := oe_now e 2\<rparr>
               in (None, appendTransition (oe_now e 3) jobID (j_Status job0) (j_Status job) replayReason replayedBy
                           (putJob jobID job q)))"

subsection \<open>Listing and counting\<close>

text \<open>The comparison of the listings: by creation, then by id.\<close>

definition jobLess :: "RunQueueJob \<Rightarrow> RunQueueJob \<Rightarrow> bool" where
  "jobLess a b \<longleftrightarrow>
     (if j_CreatedAt a = j_CreatedAt b then j_ID a < j_ID b else j_CreatedAt a < j_CreatedAt b)"

definition ListRunJobs ::
  "opEnv \<Rightarrow> string \<Rightarrow> int \<Rightarrow> int \<Rightarrow> MemoryRunQueue \<Rightarrow> (error + RunQueueJob list) option" where
  "ListRunJobs e status limit offset q =
     (let items = filter (\<lambda>job. status = '''' \<or> runJobStatusString (j_Status job) = status)
                    (rangeValues (oe_ord e) (mq_jobs q))
      in map_option Inr (sliceWindow (sortSlice jobLess items) limit offset))"

text \<open>The guards of the filtered listing and of the filtered count, which the code spells out twice.\<close>

definition jobMatches :: "string \<Rightarrow> string \<Rightarrow> string \<Rightarrow> gotime \<Rightarrow> gotime \<Rightarrow> RunQueueJob \<Rightarrow> bool" where
  "jobMatches status workflowID requestID updatedAfter updatedBefore job \<longleftrightarrow>
     \<not> (status \<noteq> '''' \<and> runJobStatusString (j_Status job) \<noteq> status) \<and>
     \<not> (workflowID \<noteq> '''' \<and> j_WorkflowID job \<noteq> workflowID) \<and>
     \<not> (requestID \<noteq> '''' \<and> j_RequestID job \<noteq> requestID) \<and>
     \<not> (\<not> isZero updatedAfter \<and> j_UpdatedAt job < updatedAfter) \<and>
     \<not> (\<not> isZero updatedBefore \<and> updatedBefore < j_UpdatedAt job)"

definition ListRunJobsFiltered ::
  "opEnv \<Rightarrow> string \<Rightarrow> string \<Rightarrow> string \<Rightarrow> gotime \<Rightarrow> gotime \<Rightarrow> int \<Rightarrow> int \<Rightarrow> MemoryRunQueue \<Rightarrow>
     (error + RunQueueJob list) option" where
  "ListRunJobsFiltered e status workflowID requestID updatedAfter updatedBefore limit offset q =
     (let items = filter (jobMatches status workflowID requestID updatedAfter updatedBefore)
                    (rangeValues (oe_ord e) (mq_jobs q))
      in map_option Inr (sliceWindow (sortSlice jobLess items) limit offset))"

definition CountRunJobsFiltered ::
  "opEnv \<Rightarrow> string \<Rightarrow> string \<Rightarrow> string \<Rightarrow> gotime \<Rightarrow> gotime \<Rightarrow> MemoryRunQueue \<Rightarrow> error + nat" where
  "CountRunJobsFiltered e status workflowID requestID updatedAfter updatedBefore q =
     Inr (length (filter (jobMatches status workflowID requestID updatedAfter updatedBefore)
                    (rangeValues (oe_ord e) (mq_jobs q))))"

definition ListRunJobsByRun ::
  "opEnv \<Rightarrow> string \<Rightarrow> int \<Rightarrow> int \<Rightarrow> MemoryRunQueue \<Rightarrow> (error + RunQueueJob list) option" where
  "ListRunJobsByRun e runID limit offset q =
     (let items = filter (\<lambda>job. j_RunID job = runID) (rangeValues (oe_ord e) (mq_jobs q))
      in map_option Inr (sliceWindow (sortSlice jobLess items) limit offset))"

definition CountRunJobsByStatus :: "opEnv \<Rightarrow> MemoryRunQueue \<Rightarrow> error + (RunJobStatus \<rightharpoonup> int)" where
  "CountRunJobsByStatus e q =
     Inr (fold (\<lambda>job counts. counts(j_Status job \<mapsto> (case counts (j_Status job) of None \<Rightarrow> 0 | Some n \<Rightarrow> n) + 1))
            (rangeValues (oe_ord e) (mq_jobs q)) Map.empty)"

subsection \<open>Purging\<close>

record purgeCandidate =
  pc_id :: string
  pc_updatedAt :: gotime

definition purgeLess :: "purgeCandidate \<Rightarrow> purgeCandidate \<Rightarrow> bool" where
  "purgeLess a b \<longleftrightarrow>
     (if pc_updatedAt a = pc_updatedAt b then pc_id a < pc_id b else pc_updatedAt a < pc_updatedAt b)"

definition purgeCutoff :: "gotime \<Rightarrow> duration \<Rightarrow> gotime" where
  "purgeCutoff now olderThan = (if olderThan > 0 then now - olderThan else 0)"

definition purgeable :: "string \<Rightarrow> gotime \<Rightarrow> RunQueueJob \<Rightarrow> bool" where
  "purgeable status cutoff job \<longleftrightarrow>
     \<not> (status \<noteq> '''' \<and> runJobStatusString (j_Status job) \<noteq> status) \<and>
     \<not> (\<not> isZero cutoff \<and> cutoff < j_UpdatedAt job)"

definition purgeCandidates :: "string list \<Rightarrow> string \<Rightarrow> gotime \<Rightarrow> MemoryRunQueue \<Rightarrow> purgeCandidate list" where
  "purgeCandidates ord status cutoff q =
     List.map_filter (\<lambda>i. case mq_jobs q i of
         None \<Rightarrow> None
       | Some job \<Rightarrow> if purgeable status cutoff job then Some \<lparr>pc_id = i, pc_updatedAt = j_UpdatedAt job\<rparr> else None) ord"

definition PurgeRunJobs ::
  "opEnv \<Rightarrow> string \<Rightarrow> duration \<Rightarrow> int \<Rightarrow> MemoryRunQueue \<Rightarrow> (error + nat) \<times> MemoryRunQueue" where
  "PurgeRunJobs e status olderThan limit q =
     (let limit = (if limit \<le> 0 then 1000 else limit);
          candidates = sortSlice purgeLess (purgeCandidates (oe_ord e) status (purgeCutoff (oe_now e 0) olderThan) q);
          candidates = (if int (length candidates) > limit then take (nat limit) candidates else candidates)
      in (Inr (length candidates),
          fold (\<lambda>c q. q\<lparr>mq_jobs := (mq_jobs q)(pc_id c := None), mq_transitions := (mq_transitions q)(pc_id c := None)\<rparr>)
            candidates q))"

subsection \<open>Transitions\<close>

definition ListRunJobTransitions ::
  "opEnv \<Rightarrow> string \<Rightarrow> int \<Rightarrow> int \<Rightarrow> MemoryRunQueue \<Rightarrow> (error + RunJobTransition list) option" where
  "ListRunJobTransitions e jobID limit offset q = map_option Inr (sliceWindow (transitionsOf q jobID) limit offset)"

definition transitionMatches :: "string \<Rightarrow> string \<Rightarrow> gotime \<Rightarrow> gotime \<Rightarrow> RunJobTransition \<Rightarrow> bool" where
  "transitionMatches toStatus actor createdAfter createdBefore item \<longleftrightarrow>
     \<not> (toStatus \<noteq> '''' \<and> runJobStatusString (tn_ToStatus item) \<noteq> toStatus) \<and>
     \<not> (actor \<noteq> '''' \<and> tn_Actor item \<noteq> actor) \<and>
     \<not> (\<not> isZero createdAfter \<and> tn_CreatedAt item < createdAfter) \<and>
     \<not> (\<not> isZero createdBefore \<and> createdBefore < tn_CreatedAt item)"

definition ListRunJobTransitionsFiltered ::
  "opEnv \<Rightarrow> string \<Rightarrow> string \<Rightarrow> string \<Rightarrow> gotime \<Rightarrow> gotime \<Rightarrow> int \<Rightarrow> int \<Rightarrow> MemoryRunQueue \<Rightarrow>
     (error + RunJobTransition list) option" where
  "ListRunJobTransitionsFiltered e jobID toStatus actor createdAfter createdBefore limit offset q =
     map_option Inr (sliceWindow (filter (transitionMatches toStatus actor createdAfter createdBefore)
       (transitionsOf q jobID)) limit offset)"

definition CountRunJobTransitionsFiltered ::
  "opEnv \<Rightarrow> string \<Rightarrow> string \<Rightarrow> string \<Rightarrow> gotime \<Rightarrow> gotime \<Rightarrow> MemoryRunQueue \<Rightarrow> error + nat" where
  "CountRunJobTransitionsFiltered e jobID toStatus actor createdAfter createdBefore q =
     Inr (length (filter (transitionMatches toStatus actor createdAfter createdBefore) (transitionsOf q jobID)))"

definition memoryQueue :: "MemoryRunQueue RunQueue" where
  "memoryQueue =
     \<lparr>rq_EnqueueRunJob = EnqueueRunJob, rq_GetRunJob = GetRunJob, rq_GetRunJobByRequest = GetRunJobByRequest,
      rq_LeaseNextRunJob = LeaseNextRunJob, rq_ExtendRunJobLease = ExtendRunJobLease,
      rq_CompleteRunJob = CompleteRunJob, rq_CancelRunJob = CancelRunJob, rq_RetryRunJob = RetryRunJob,
      rq_FailRunJob = FailRunJob, rq_DeadLetterRunJob = DeadLetterRunJob, rq_RequeueRunJob = RequeueRunJob,
      rq_ListRunJobs = ListRunJobs, rq_ListRunJobsFiltered = ListRunJobsFiltered,
      rq_CountRunJobsFiltered = CountRunJobsFiltered, rq_ListRunJobsByRun = ListRunJobsByRun,
      rq_CountRunJobsByStatus = CountRunJobsByStatus, rq_PurgeRunJobs = PurgeRunJobs,
      rq_ListRunJobTransitions = ListRunJobTransitions,
      rq_ListRunJobTransitionsFiltered = ListRunJobTransitionsFiltered,
      rq_CountRunJobTransitionsFiltered = CountRunJobTransitionsFiltered\<rparr>"

end
