(* ===== verification/MemoryQueueInv.thy ===== *)
theory MemoryQueueInv
  imports MemoryQueue
begin

text \<open>
  Invariants of the in-memory queue. Every job carries the history of its status changes; \<open>queue_inv\<close> says that
  the history is a path of legal changes from the enqueuing to the current status, that its leases and replays
  are what the counters say, and that only a leased job has a lease. \<open>mqstep\<close> are the steps of the
  queue; \<open>run_queue\<close> is interpreted here.
\<close>

section \<open>The life of a job\<close>

fun legal :: "RunJobStatus \<Rightarrow> RunJobStatus \<Rightarrow> bool" where
  "legal RunJobStatusUnset to \<longleftrightarrow> to = RunJobStatusQueued"
| "legal RunJobStatusQueued to \<longleftrightarrow> to = RunJobStatusLeased \<or> to = RunJobStatusCancelled"
| "legal RunJobStatusLeased to \<longleftrightarrow> to \<noteq> RunJobStatusUnset"
| "legal RunJobStatusFailed to \<longleftrightarrow> to = RunJobStatusQueued \<or> to = RunJobStatusCancelled"
| "legal RunJobStatusDead to \<longleftrightarrow> to = RunJobStatusQueued \<or> to = RunJobStatusCancelled"
| "legal RunJobStatusSucceeded to \<longleftrightarrow> False"
| "legal RunJobStatusCancelled to \<longleftrightarrow> False"

fun chained :: "RunJobStatus \<Rightarrow> RunJobTransition list \<Rightarrow> RunJobStatus \<Rightarrow> bool" where
  "chained from [] to \<longleftrightarrow> from = to"
| "chained from (t # ts) to \<longleftrightarrow>
     tn_FromStatus t = from \<and> legal from (tn_ToStatus t) \<and> chained (tn_ToStatus t) ts to"

definition leaseCount :: "RunJobTransition list \<Rightarrow> int" where
  "leaseCount ts = int (length (filter (\<lambda>t. tn_ToStatus t = RunJobStatusLeased) ts))"

definition isReplay :: "RunJobStatus \<Rightarrow> RunJobStatus \<Rightarrow> bool" where
  "isReplay from to \<longleftrightarrow> from \<in> {RunJobStatusFailed, RunJobStatusDead} \<and> to = RunJobStatusQueued"

definition replayCount :: "RunJobTransition list \<Rightarrow> int" where
  "replayCount ts = int (length (filter (\<lambda>t. isReplay (tn_FromStatus t) (tn_ToStatus t)) ts))"

lemma chained_append: "chained a (ts @ [t]) c \<longleftrightarrow> (\<exists>b. chained a ts b \<and> chained b [t] c)"
  by (induction ts arbitrary: a) auto

lemma leaseCount_simps [simp]:
  "leaseCount [] = 0" "leaseCount (ts @ [t]) = leaseCount ts + (if tn_ToStatus t = RunJobStatusLeased then 1 else 0)"
  by (simp_all add: leaseCount_def)

lemma replayCount_simps [simp]:
  "replayCount [] = 0"
  "replayCount (ts @ [t]) = replayCount ts + (if isReplay (tn_FromStatus t) (tn_ToStatus t) then 1 else 0)"
  by (simp_all add: replayCount_def)

definition lease_ok :: "RunQueueJob \<Rightarrow> bool" where
  "lease_ok j \<longleftrightarrow> j_Status j = RunJobStatusLeased \<or> j_LeaseOwner j = '''' \<and> j_LeaseUntil j = 0"

definition job_ok :: "string \<Rightarrow> RunQueueJob \<Rightarrow> RunJobTransition list \<Rightarrow> bool" where
  "job_ok i j ts \<longleftrightarrow> j_ID j = i \<and> chained RunJobStatusUnset ts (j_Status j) \<and> j_Status j \<noteq> RunJobStatusUnset \<and>
     (\<forall>t \<in> set ts. tn_JobID t = i) \<and> lease_ok j \<and> j_Attempts j = leaseCount ts \<and> j_ReplayCount j = replayCount ts"

definition queue_inv :: "MemoryRunQueue \<Rightarrow> bool" where
  "queue_inv q \<longleftrightarrow> dom (mq_transitions q) = dom (mq_jobs q) \<and>
     (\<forall>i j. mq_jobs q i = Some j \<longrightarrow> job_ok i j (transitionsOf q i))"

lemma queue_invD: "queue_inv q \<Longrightarrow> mq_jobs q i = Some j \<Longrightarrow> job_ok i j (transitionsOf q i)"
  by (simp add: queue_inv_def)

lemma queue_inv_ID: "queue_inv q \<Longrightarrow> mq_jobs q i = Some j \<Longrightarrow> j_ID j = i"
  by (drule (1) queue_invD) (simp add: job_ok_def)

section \<open>One change of a job\<close>

text \<open>What all status-changing operations do to the state.\<close>

lemma moveJob_simps [qsimps]:
  "mq_jobs (appendTransition now i a b reason actor (putJob i j q)) = (mq_jobs q)(i \<mapsto> j)"
  "mq_jobs (putJob i j q) = (mq_jobs q)(i \<mapsto> j)"
  "mq_transitions (putJob i j q) = mq_transitions q"
  "transitionsOf (putJob i j q) k = transitionsOf q k"
  "transitionsOf (appendTransition now i a b reason actor (putJob i j q)) k =
     (if k = i then transitionsOf q i @ [\<lparr>tn_JobID = i, tn_FromStatus = a, tn_ToStatus = b, tn_Reason = reason,
        tn_Actor = actor, tn_CreatedAt = now\<rparr>] else transitionsOf q k)"
  "dom (mq_transitions (appendTransition now i a b reason actor (putJob i j q))) = insert i (dom (mq_transitions q))"
  by (simp_all add: appendTransition_def putJob_def transitionsOf_def)

lemma moveJob_inv:
  assumes inv: "queue_inv q" and j0: "mq_jobs q i = Some j0" and legal: "legal (j_Status j0) (j_Status j)"
    and keep: "j_ID j = i" "lease_ok j"
      "j_Attempts j = j_Attempts j0 + (if j_Status j = RunJobStatusLeased then 1 else 0)"
      "j_ReplayCount j = j_ReplayCount j0 + (if isReplay (j_Status j0) (j_Status j) then 1 else 0)"
  shows "queue_inv (appendTransition now i (j_Status j0) (j_Status j) reason actor (putJob i j q))"
proof -
  note ok = queue_invD[OF inv j0]
  have "j_Status j \<noteq> RunJobStatusUnset" using legal by (cases "j_Status j0") auto
  then have "job_ok i j (transitionsOf q i @ [\<lparr>tn_JobID = i, tn_FromStatus = j_Status j0, tn_ToStatus = j_Status j,
      tn_Reason = reason, tn_Actor = actor, tn_CreatedAt = now\<rparr>])"
    using ok keep legal by (auto simp: job_ok_def chained_append)
  moreover have "insert i (dom (mq_transitions q)) = insert i (dom (mq_jobs q))" using inv by (simp add: queue_inv_def)
  ultimately show ?thesis using inv by (auto simp: queue_inv_def qsimps)
qed

lemma putJob_inv:
  assumes "queue_inv q" and "mq_jobs q i = Some j0" and "j_ID j = i" and "lease_ok j" and "j_Status j = j_Status j0"
    and "j_Attempts j = j_Attempts j0" and "j_ReplayCount j = j_ReplayCount j0"
  shows "queue_inv (putJob i j q)"
proof -
  have "job_ok i j (transitionsOf q i)" using queue_invD[OF assms(1,2)] assms(3-) by (simp add: job_ok_def)
  with assms(1,2) show ?thesis by (auto simp: queue_inv_def qsimps)
qed

section \<open>The operations keep the invariant\<close>

text \<open>What the callers of \<^verbatim>\<open>EnqueueRunJob\<close> pass: a job that was never leased or replayed.\<close>

definition freshJob :: "RunQueueJob \<Rightarrow> bool" where
  "freshJob j \<longleftrightarrow> j_Status j \<in> {RunJobStatusUnset, RunJobStatusQueued} \<and> j_LeaseOwner j = '''' \<and> j_LeaseUntil j = 0 \<and>
     j_Attempts j = 0 \<and> j_ReplayCount j = 0"

definition stored :: "opEnv \<Rightarrow> RunQueueJob \<Rightarrow> RunQueueJob" where
  "stored e job =
     job\<lparr>j_CreatedAt := (if isZero (j_CreatedAt job) then oe_now e 0 else j_CreatedAt job),
         j_UpdatedAt := (if isZero (j_UpdatedAt job) then oe_now e 0 else j_UpdatedAt job),
         j_AvailableAt := (if isZero (j_AvailableAt job) then oe_now e 0 else j_AvailableAt job),
         j_Status := (if j_Status job = RunJobStatusUnset then RunJobStatusQueued else j_Status job)\<rparr>"

lemma EnqueueRunJob_new:
  "mq_jobs q (j_ID job) = None \<Longrightarrow>
   EnqueueRunJob e job q = (None, appendTransition (oe_now e 1) (j_ID job) RunJobStatusUnset (j_Status (stored e job))
     ''enqueued'' ''system'' (putJob (j_ID job) (stored e job) q))"
  by (simp add: EnqueueRunJob_def Let_def stored_def)

lemma Enqueue_inv [inv_intros]:
  assumes "queue_inv q" and "freshJob job"
  shows "queue_inv (snd (EnqueueRunJob e job q))"
proof (cases "mq_jobs q (j_ID job)")
  case None
  then have "transitionsOf q (j_ID job) = []"
    using assms(1) by (auto simp: queue_inv_def transitionsOf_def split: option.splits)
  moreover have "dom (mq_transitions q) = dom (mq_jobs q)" using assms(1) by (simp add: queue_inv_def)
  ultimately show ?thesis
    using assms unfolding EnqueueRunJob_new[OF None]
    by (auto simp: queue_inv_def qsimps job_ok_def freshJob_def stored_def lease_ok_def leaseCount_def replayCount_def
        isReplay_def)
next
  case (Some j)
  then show ?thesis using assms(1) by (simp add: EnqueueRunJob_def)
qed

lemma moveJob_inv':
  assumes "queue_inv q" and "mq_jobs q i = Some j0" and "from = j_Status j0" and "to = j_Status j"
    and "legal from to" and "j_ID j = j_ID j0" and "lease_ok j"
    and "j_Attempts j = j_Attempts j0 + (if to = RunJobStatusLeased then 1 else 0)"
    and "j_ReplayCount j = j_ReplayCount j0 + (if isReplay from to then 1 else 0)"
  shows "queue_inv (appendTransition now i from to reason actor (putJob i j q))"
  unfolding assms(3,4)
  by (rule moveJob_inv[OF assms(1,2)]) (use assms queue_inv_ID[OF assms(1,2)] in auto)

lemma Complete_inv [inv_intros]: "queue_inv q \<Longrightarrow> queue_inv (snd (CompleteRunJob e i q))"
  by (auto simp: CompleteRunJob_def Let_def lease_ok_def isReplay_def split: option.splits intro!: moveJob_inv')

lemma Retry_inv [inv_intros]: "queue_inv q \<Longrightarrow> queue_inv (snd (RetryRunJob e i d msg q))"
  by (auto simp: RetryRunJob_def Let_def lease_ok_def isReplay_def split: option.splits intro!: moveJob_inv')

lemma Fail_inv [inv_intros]: "queue_inv q \<Longrightarrow> queue_inv (snd (FailRunJob e i msg q))"
  by (auto simp: FailRunJob_def Let_def lease_ok_def isReplay_def split: option.splits intro!: moveJob_inv')

lemma DeadLetter_inv [inv_intros]: "queue_inv q \<Longrightarrow> queue_inv (snd (DeadLetterRunJob e i msg q))"
  by (auto simp: DeadLetterRunJob_def Let_def lease_ok_def isReplay_def split: option.splits intro!: moveJob_inv')

lemma Requeue_inv [inv_intros]: "queue_inv q \<Longrightarrow> queue_inv (snd (RequeueRunJob e i d who why q))"
  by (auto simp: RequeueRunJob_def Let_def lease_ok_def isReplay_def split: option.splits intro!: moveJob_inv')

lemma cancel_legal:
  assumes "queue_inv q" "mq_jobs q i = Some j" "j_Status j \<noteq> RunJobStatusSucceeded" "j_Status j \<noteq> RunJobStatusCancelled"
  shows "legal (j_Status j) RunJobStatusCancelled"
  using queue_invD[OF assms(1,2)] assms(3,4) by (cases "j_Status j") (auto simp: job_ok_def)

lemma Cancel_inv [inv_intros]: "queue_inv q \<Longrightarrow> queue_inv (snd (CancelRunJob e i reason q))"
  by (auto simp: CancelRunJob_def Let_def lease_ok_def isReplay_def split: option.splits
      intro!: moveJob_inv' intro: cancel_legal)

lemma Extend_inv [inv_intros]: "queue_inv q \<Longrightarrow> queue_inv (snd (ExtendRunJobLease e i wid d q))"
  by (auto simp: ExtendRunJobLease_def lease_ok_def queue_inv_ID split: option.splits intro!: putJob_inv)

subsection \<open>Leasing\<close>

interpretation byCreation: less_func jobCreatedBefore
  by unfold_locales (auto simp: jobCreatedBefore_def)

definition leaseCandidates :: "opEnv \<Rightarrow> MemoryRunQueue \<Rightarrow> RunQueueJob list" where
  "leaseCandidates e q = filter (leasable (oe_now e 0)) (rangeValues (oe_ord e) (mq_jobs q))"

definition leaseOf :: "opEnv \<Rightarrow> string \<Rightarrow> duration \<Rightarrow> RunQueueJob \<Rightarrow> RunQueueJob" where
  "leaseOf e workerID d j =
     j\<lparr>j_Status := RunJobStatusLeased, j_LeaseOwner := workerID, j_LeaseUntil := oe_now e 0 + d,
       j_Attempts := j_Attempts j + 1, j_UpdatedAt := oe_now e 0\<rparr>"

lemma set_leaseCandidates:
  "iterates (oe_ord e) (mq_jobs q) \<Longrightarrow>
   j \<in> set (leaseCandidates e q) \<longleftrightarrow> (\<exists>i. mq_jobs q i = Some j) \<and> leasable (oe_now e 0) j"
  by (auto simp: leaseCandidates_def set_rangeValues_iterates ran_def)

text \<open>A successful lease takes a leasable job that no leasable job precedes by creation.\<close>

lemma LeaseNext_Inr:
  assumes inv: "queue_inv q" and it: "iterates (oe_ord e) (mq_jobs q)"
    and lease: "LeaseNextRunJob e wid d q = (Inr j, q')"
  obtains j0 where "mq_jobs q (j_ID j) = Some j0" "leasable (oe_now e 0) j0" "j = leaseOf e wid d j0"
    "\<forall>k jk. mq_jobs q k = Some jk \<and> leasable (oe_now e 0) jk \<longrightarrow> j_CreatedAt j0 \<le> j_CreatedAt jk"
    "q' = appendTransition (oe_now e 1) (j_ID j) (j_Status j0) (j_Status j) ''leased'' wid (putJob (j_ID j) j q)"
proof -
  let ?cs = "leaseCandidates e q"
  let ?j0 = "hd (sortSlice jobCreatedBefore ?cs)"
  have ne: "?cs \<noteq> []" using lease by (auto simp: LeaseNextRunJob_def leaseCandidates_def Let_def)
  then have "sortSlice jobCreatedBefore ?cs \<noteq> []" by (metis length_0_conv length_sortSlice)
  then have "?j0 \<in> set ?cs" by (metis hd_in_set set_sortSlice)
  then obtain i where i: "mq_jobs q i = Some ?j0" and le: "leasable (oe_now e 0) ?j0"
    by (auto simp: set_leaseCandidates[OF it])
  have j: "j = leaseOf e wid d ?j0"
    and q': "q' = appendTransition (oe_now e 1) (j_ID j) (j_Status ?j0) (j_Status j) ''leased'' wid (putJob (j_ID j) j q)"
    using lease ne by (auto simp: LeaseNextRunJob_def leaseCandidates_def leaseOf_def Let_def)
  have "j_ID j = i" using queue_inv_ID[OF inv i] by (simp add: j leaseOf_def)
  moreover have "j_CreatedAt ?j0 \<le> j_CreatedAt jk" if "mq_jobs q k = Some jk" "leasable (oe_now e 0) jk" for k jk
    using byCreation.hd_sortSlice_least[OF ne, of jk] that
    by (force simp: set_leaseCandidates[OF it] jobCreatedBefore_def not_less)
  ultimately show ?thesis using that[of ?j0] i le j q' by blast
qed

lemma LeaseNext_Inl:
  assumes "iterates (oe_ord e) (mq_jobs q)"
  shows "LeaseNextRunJob e wid d q = (Inl err, q') \<longleftrightarrow>
    (\<forall>i j. mq_jobs q i = Some j \<longrightarrow> \<not> leasable (oe_now e 0) j) \<and> err = ''no run job available'' \<and> q' = q"
proof -
  have "leaseCandidates e q = [] \<longleftrightarrow> (\<forall>i j. mq_jobs q i = Some j \<longrightarrow> \<not> leasable (oe_now e 0) j)"
  proof -
    have "leaseCandidates e q = [] \<longleftrightarrow> (\<forall>j. j \<notin> set (leaseCandidates e q))" by (cases "leaseCandidates e q") auto
    then show ?thesis unfolding set_leaseCandidates[OF assms] by blast
  qed
  moreover have "LeaseNextRunJob e wid d q = (Inl err, q') \<longleftrightarrow>
      leaseCandidates e q = [] \<and> err = ''no run job available'' \<and> q' = q"
    by (auto simp: LeaseNextRunJob_def leaseCandidates_def Let_def)
  ultimately show ?thesis by simp
qed

lemma LeaseNext_inv [inv_intros]:
  assumes "queue_inv q" and "iterates (oe_ord e) (mq_jobs q)"
  shows "queue_inv (snd (LeaseNextRunJob e wid d q))"
proof (cases "LeaseNextRunJob e wid d q")
  case (Pair r q')
  show ?thesis
  proof (cases r)
    case (Inl err)
    with Pair have "q' = q" using LeaseNext_Inl[OF assms(2)] by blast
    with Pair assms(1) show ?thesis by simp
  next
    case (Inr j)
    obtain j0 where j0: "mq_jobs q (j_ID j) = Some j0" "leasable (oe_now e 0) j0" "j = leaseOf e wid d j0"
      and q': "q' = appendTransition (oe_now e 1) (j_ID j) (j_Status j0) (j_Status j) ''leased'' wid (putJob (j_ID j) j q)"
      by (rule LeaseNext_Inr[OF assms Pair[unfolded Inr]])
    have "queue_inv q'" unfolding q'
      by (rule moveJob_inv'[OF assms(1) j0(1)])
        (use j0 in \<open>auto simp: leaseOf_def leasable_def lease_ok_def isReplay_def\<close>)
    with Pair show ?thesis by simp
  qed
qed

subsection \<open>Purging\<close>

interpretation byUpdate: strict_less_func purgeLess pc_id
  by unfold_locales (auto simp: purgeLess_def split: if_splits)

interpretation byCreationID: strict_less_func jobLess j_ID
  by unfold_locales (auto simp: jobLess_def split: if_splits)

definition purgeLimit :: "int \<Rightarrow> nat" where
  "purgeLimit limit = (if limit \<le> 0 then 1000 else nat limit)"

definition purgeVictims :: "opEnv \<Rightarrow> string \<Rightarrow> duration \<Rightarrow> int \<Rightarrow> MemoryRunQueue \<Rightarrow> purgeCandidate list" where
  "purgeVictims e status olderThan limit q =
     take (purgeLimit limit)
       (sortSlice purgeLess (purgeCandidates (oe_ord e) status (purgeCutoff (oe_now e 0) olderThan) q))"

lemma fold_delete:
  "fold (\<lambda>c q. q\<lparr>mq_jobs := (mq_jobs q)(pc_id c := None), mq_transitions := (mq_transitions q)(pc_id c := None)\<rparr>) cs q =
     q\<lparr>mq_jobs := mq_jobs q |` (- pc_id ` set cs), mq_transitions := mq_transitions q |` (- pc_id ` set cs)\<rparr>"
proof (induction cs arbitrary: q)
  case (Cons c cs)
  show ?case unfolding fold_simps Cons.IH
    by (rule MemoryRunQueue.equality) (auto simp: restrict_map_def fun_eq_iff)
qed (simp add: restrict_map_def)

lemma PurgeRunJobs_eq:
  "PurgeRunJobs e status olderThan limit q =
     (let cs = purgeVictims e status olderThan limit q
      in (Inr (length cs), q\<lparr>mq_jobs := mq_jobs q |` (- pc_id ` set cs),
                             mq_transitions := mq_transitions q |` (- pc_id ` set cs)\<rparr>))"
proof -
  have "(if int (length xs) > (if limit \<le> 0 then 1000 else limit)
      then take (nat (if limit \<le> 0 then 1000 else limit)) xs else xs) = take (purgeLimit limit) xs"
    for xs :: "purgeCandidate list" by (auto simp: purgeLimit_def)
  then show ?thesis by (simp only: PurgeRunJobs_def purgeVictims_def Let_def fold_delete)
qed

lemma mem_purgeCandidates:
  assumes "iterates ord (mq_jobs q)"
  shows "c \<in> set (purgeCandidates ord status cutoff q) \<longleftrightarrow>
    (\<exists>j. mq_jobs q (pc_id c) = Some j \<and> purgeable status cutoff j \<and> pc_updatedAt c = j_UpdatedAt j)"
proof -
  have "set (List.map_filter f xs) = {y. \<exists>x \<in> set xs. f x = Some y}" for f :: "string \<Rightarrow> purgeCandidate option" and xs
    by (induction xs) (auto split: option.splits)
  with assms show ?thesis
    by (cases c) (auto simp: purgeCandidates_def iterates_def split: option.splits if_splits)
qed

lemma distinct_purgeCandidates:
  assumes "iterates ord (mq_jobs q)"
  shows "distinct (map pc_id (purgeCandidates ord status cutoff q))"
proof -
  have "map pc_id (List.map_filter (\<lambda>i. case mq_jobs q i of None \<Rightarrow> None
       | Some job \<Rightarrow> if purgeable status cutoff job then Some \<lparr>pc_id = i, pc_updatedAt = j_UpdatedAt job\<rparr> else None) xs) =
      filter (\<lambda>i. \<exists>job. mq_jobs q i = Some job \<and> purgeable status cutoff job) xs" for xs
    by (induction xs) (auto split: option.splits)
  with assms show ?thesis by (simp add: purgeCandidates_def iterates_def)
qed

lemma Purge_inv [inv_intros]: "queue_inv q \<Longrightarrow> queue_inv (snd (PurgeRunJobs e status olderThan limit q))"
  by (simp add: queue_inv_def PurgeRunJobs_eq Let_def transitionsOf_def)
    (auto simp: restrict_map_def split: if_splits)

section \<open>The steps of the queue\<close>

inductive mqstep :: "MemoryRunQueue \<Rightarrow> MemoryRunQueue \<Rightarrow> bool" where
  enqueue: "freshJob job \<Longrightarrow> mqstep q (snd (EnqueueRunJob e job q))"
| lease: "iterates (oe_ord e) (mq_jobs q) \<Longrightarrow> mqstep q (snd (LeaseNextRunJob e wid d q))"
| extend: "mqstep q (snd (ExtendRunJobLease e i wid d q))"
| complete: "mqstep q (snd (CompleteRunJob e i q))"
| cancel: "mqstep q (snd (CancelRunJob e i reason q))"
| retry: "mqstep q (snd (RetryRunJob e i d msg q))"
| fail: "mqstep q (snd (FailRunJob e i msg q))"
| deadLetter: "mqstep q (snd (DeadLetterRunJob e i msg q))"
| requeue: "mqstep q (snd (RequeueRunJob e i d who why q))"
| purge: "mqstep q (snd (PurgeRunJobs e status olderThan limit q))"

lemma New_inv [inv_intros]: "queue_inv NewMemoryRunQueue"
  by (simp add: queue_inv_def NewMemoryRunQueue_def)

lemma mqstep_inv: "mqstep q q' \<Longrightarrow> queue_inv q \<Longrightarrow> queue_inv q'"
  by (induction rule: mqstep.induct) (auto intro: inv_intros)

abbreviation mqreach :: "MemoryRunQueue \<Rightarrow> bool" where
  "mqreach q \<equiv> mqstep\<^sup>*\<^sup>* NewMemoryRunQueue q"

lemma mqreach_inv: "mqreach q \<Longrightarrow> queue_inv q"
  by (induction rule: rtranclp_induct) (auto intro: inv_intros mqstep_inv)

text \<open>What one step can do to one job: nothing, create it, change it, or remove it. A finished job
  (\<^verbatim>\<open>SUCCEEDED\<close> or \<^verbatim>\<open>CANCELLED\<close>) is never changed.\<close>

lemma closed_job_kept:
  assumes "mqstep q q'" and "queue_inv q" and "mq_jobs q i = Some j"
    and "j_Status j \<in> {RunJobStatusSucceeded, RunJobStatusCancelled}"
  shows "mq_jobs q' i = Some j \<and> transitionsOf q' i = transitionsOf q i \<or> mq_jobs q' i = None"
  using assms(1)
proof (cases rule: mqstep.cases)
  case (enqueue job e)
  show ?thesis
  proof (cases "mq_jobs q (j_ID job)")
    case None
    with assms(3) enqueue show ?thesis by (auto simp: EnqueueRunJob_new qsimps)
  next
    case (Some a)
    with assms(3) enqueue show ?thesis by (simp add: EnqueueRunJob_def)
  qed
next
  case (lease e wid d)
  obtain r q2 where r: "LeaseNextRunJob e wid d q = (r, q2)" by fastforce
  show ?thesis
  proof (cases r)
    case (Inl err)
    with r have "q2 = q" using LeaseNext_Inl[OF lease(2)] by blast
    with r lease(1) assms(3) show ?thesis by simp
  next
    case (Inr job)
    obtain j0 where j0: "mq_jobs q (j_ID job) = Some j0" "leasable (oe_now e 0) j0"
      and q2: "q2 = appendTransition (oe_now e 1) (j_ID job) (j_Status j0) (j_Status job) ''leased'' wid (putJob (j_ID job) job q)"
      by (rule LeaseNext_Inr[OF assms(2) lease(2) r[unfolded Inr]])
    then have "j_ID job \<noteq> i" using assms(3,4) by (auto simp: leasable_def)
    with assms(3) lease(1) r q2 show ?thesis by (simp add: qsimps)
  qed
next
  case (purge e status olderThan limit)
  then show ?thesis using assms(3) by (auto simp: PurgeRunJobs_eq Let_def restrict_map_def transitionsOf_def)
qed (use assms(3,4) in \<open>auto simp: ExtendRunJobLease_def CompleteRunJob_def CancelRunJob_def RetryRunJob_def
      FailRunJob_def DeadLetterRunJob_def RequeueRunJob_def Let_def qsimps split: option.splits if_splits\<close>)

section \<open>The contract of the run queue\<close>

lemma leasedBy_leaseOf: "leasedBy wid j (leaseOf e wid d j)"
  by (simp add: leasedBy_def leaseOf_def sameJob_def)

lemmas settleDefs = CompleteRunJob_def RetryRunJob_def FailRunJob_def DeadLetterRunJob_def CancelRunJob_def
  ExtendRunJobLease_def

interpretation memq: run_queue memoryQueue mq_jobs queue_inv "\<lambda>e q. iterates (oe_ord e) (mq_jobs q)" "\<lambda>t. t"
proof unfold_locales
  fix q e wid d j q'
  assume "queue_inv q" and it: "iterates (oe_ord e) (mq_jobs q)"
    and "rq_LeaseNextRunJob memoryQueue e wid d q = (Inr j, q')"
  then have lease: "LeaseNextRunJob e wid d q = (Inr j, q')" by (simp add: memoryQueue_def)
  obtain j0 where j0: "mq_jobs q (j_ID j) = Some j0" "leasable (oe_now e 0) j0" "j = leaseOf e wid d j0"
    and q': "q' = appendTransition (oe_now e 1) (j_ID j) (j_Status j0) (j_Status j) ''leased'' wid (putJob (j_ID j) j q)"
    by (rule LeaseNext_Inr[OF \<open>queue_inv q\<close> it lease])
  have "queue_inv q'" using LeaseNext_inv[OF \<open>queue_inv q\<close> it, of wid d] lease by simp
  moreover have "j_Status j0 \<in> {RunJobStatusQueued, RunJobStatusLeased}" using j0(2) by (auto simp: leasable_def)
  ultimately show "queue_inv q' \<and> mq_jobs q' = (mq_jobs q)(j_ID j \<mapsto> j) \<and>
      (\<exists>j0. mq_jobs q (j_ID j) = Some j0 \<and> j_Status j0 \<in> {RunJobStatusQueued, RunJobStatusLeased} \<and> leasedBy wid j0 j)"
    using j0(1) leasedBy_leaseOf[of wid j0 e d] unfolding j0(3)[symmetric] by (simp add: q' qsimps)
next
  fix e wid d q err q'
  show "rq_LeaseNextRunJob memoryQueue e wid d q = (Inl err, q') \<Longrightarrow> q' = q"
    by (auto simp: memoryQueue_def LeaseNextRunJob_def Let_def split: if_splits)
next
  fix q e i wid d r q'
  assume "queue_inv q" and "rq_ExtendRunJobLease memoryQueue e i wid d q = (r, q')"
  then have ext: "ExtendRunJobLease e i wid d q = (r, q')" by (simp add: memoryQueue_def)
  have "queue_inv q'" using Extend_inv[OF \<open>queue_inv q\<close>, of e i wid d] ext by simp
  with ext show "queue_inv q' \<and> (q' = q \<or> (\<exists>j j'. mq_jobs q i = Some j \<and> j_Status j = RunJobStatusLeased \<and> j_LeaseOwner j = wid \<and>
        mq_jobs q' = (mq_jobs q)(i \<mapsto> j') \<and> sameJob j j' \<and> j_Status j' = RunJobStatusLeased \<and> j_LeaseOwner j' = wid \<and>
        j_Attempts j' = j_Attempts j \<and> j_ReplayCount j' = j_ReplayCount j))"
    by (auto simp: ExtendRunJobLease_def qsimps sameJob_def split: option.splits if_splits)
next
  fix q i j e d msg
  assume inv: "queue_inv q" and j: "mq_jobs q i = Some j" "j_Status j = RunJobStatusLeased"
  show "\<exists>q' j'. rq_RetryRunJob memoryQueue e i d msg q = (None, q') \<and> queue_inv q' \<and> mq_jobs q' = (mq_jobs q)(i \<mapsto> j') \<and>
        settled RunJobStatusQueued j j' \<and> j_LastError j' = msg \<and> (\<exists>k. j_AvailableAt j' = oe_now e k + d)"
    using Retry_inv[OF inv, of e i d msg] j
    by (simp add: memoryQueue_def RetryRunJob_def Let_def qsimps settled_def sameJob_def)
      (rule exI, rule conjI, rule refl, auto)
next
  fix q i e d msg
  show "\<nexists>j. mq_jobs q i = Some j \<and> j_Status j = RunJobStatusLeased \<Longrightarrow>
      (\<exists>err. rq_CompleteRunJob memoryQueue e i q = (Some err, q)) \<and> (\<exists>err. rq_RetryRunJob memoryQueue e i d msg q = (Some err, q)) \<and>
      (\<exists>err. rq_FailRunJob memoryQueue e i msg q = (Some err, q)) \<and> (\<exists>err. rq_DeadLetterRunJob memoryQueue e i msg q = (Some err, q))"
    by (auto simp: memoryQueue_def settleDefs split: option.splits)
next
  fix q i j e msg
  show "mq_jobs q i = None \<or> mq_jobs q i = Some j \<and> j_Status j \<in> {RunJobStatusSucceeded, RunJobStatusCancelled} \<Longrightarrow>
      snd (rq_CancelRunJob memoryQueue e i msg q) = q"
    by (auto simp: memoryQueue_def CancelRunJob_def)
next
  fix q i j e msg
  assume inv: "queue_inv q" and j: "mq_jobs q i = Some j" "j_Status j \<notin> {RunJobStatusSucceeded, RunJobStatusCancelled}"
  show "\<exists>q' j'. rq_CancelRunJob memoryQueue e i msg q = (None, q') \<and> queue_inv q' \<and> mq_jobs q' = (mq_jobs q)(i \<mapsto> j') \<and>
        settled RunJobStatusCancelled j j' \<and> j_LastError j' = msg"
    using Cancel_inv[OF inv, of e i msg] j
    by (auto simp: memoryQueue_def CancelRunJob_def Let_def qsimps settled_def sameJob_def)
next
  fix q i j e msg
  assume inv: "queue_inv q" and j: "mq_jobs q i = Some j" "j_Status j = RunJobStatusLeased"
  show "\<exists>q' j'. rq_CompleteRunJob memoryQueue e i q = (None, q') \<and> queue_inv q' \<and> mq_jobs q' = (mq_jobs q)(i \<mapsto> j') \<and>
        settled RunJobStatusSucceeded j j'"
    using Complete_inv[OF inv, of e i] j
    by (auto simp: memoryQueue_def CompleteRunJob_def Let_def qsimps settled_def sameJob_def)
  show "\<exists>q' j'. rq_FailRunJob memoryQueue e i msg q = (None, q') \<and> queue_inv q' \<and> mq_jobs q' = (mq_jobs q)(i \<mapsto> j') \<and>
        settled RunJobStatusFailed j j' \<and> j_LastError j' = msg"
    using Fail_inv[OF inv, of e i msg] j
    by (auto simp: memoryQueue_def FailRunJob_def Let_def qsimps settled_def sameJob_def)
  show "\<exists>q' j'. rq_DeadLetterRunJob memoryQueue e i msg q = (None, q') \<and> queue_inv q' \<and> mq_jobs q' = (mq_jobs q)(i \<mapsto> j') \<and>
        settled RunJobStatusDead j j' \<and> j_LastError j' = msg"
    using DeadLetter_inv[OF inv, of e i msg] j
    by (auto simp: memoryQueue_def DeadLetterRunJob_def Let_def qsimps settled_def sameJob_def)
qed (auto simp: memoryQueue_def GetRunJob_def)

end
