(* ===== verification/Worker.thy ===== *)
theory Worker
  imports Executor MemoryQueueInv
begin

text \<open>
  The worker (\<^verbatim>\<open>internal/worker/service.go\<close>): lease a job, run its workflow, settle the job. It is written over
  the interfaces of the queue and of the store. While the run goes on, two goroutines use the queue: the
  heartbeat, which extends the lease, and the watcher, which cancels the run once the job is cancelled. What
  happens to the queue meanwhile is a list of \<open>duringEvent\<close>s, with steps of other parties among them; heartbeats
  after the job is settled are a list of their own. The worker and the executor share one
  collector, as \<^verbatim>\<open>main.go\<close> wires them.
\<close>

section \<open>Definitions\<close>

record ('e, 's, 'q) WorkerService =
  wk_workerID :: string
  wk_queue :: "'q RunQueue"
  wk_store :: "'s WorkflowStore"
  wk_executor :: "('e, 's) Executor"
  wk_pollInterval :: duration
  wk_leaseDuration :: duration
  wk_draining :: bool

definition NewWorkerService ::
  "gotime \<Rightarrow> string \<Rightarrow> 'q RunQueue \<Rightarrow> 's WorkflowStore \<Rightarrow> ('e, 's) Executor \<Rightarrow> ('e, 's, 'q) WorkerService" where
  "NewWorkerService now workerID queue store executor =
     \<lparr>wk_workerID = (if workerID = '''' then ''worker-'' @ itoa (unixNano now) else workerID),
      wk_queue = queue, wk_store = store, wk_executor = executor, wk_pollInterval = 500 * millisecond,
      wk_leaseDuration = 30 * second, wk_draining = False\<rparr>"

definition SetPolling :: "duration \<Rightarrow> duration \<Rightarrow> ('e, 's, 'q) WorkerService \<Rightarrow> ('e, 's, 'q) WorkerService" where
  "SetPolling pollInterval leaseDuration s0 =
     (let s = (if pollInterval > 0 then s0\<lparr>wk_pollInterval := pollInterval\<rparr> else s0)
      in if leaseDuration > 0 then s\<lparr>wk_leaseDuration := leaseDuration\<rparr> else s)"

definition Drain :: "('e, 's, 'q) WorkerService \<Rightarrow> ('e, 's, 'q) WorkerService" where
  "Drain s = s\<lparr>wk_draining := True\<rparr>"

definition IsDraining :: "('e, 's, 'q) WorkerService \<Rightarrow> bool" where
  "IsDraining s = wk_draining s"

record ('s, 'q) world =
  wd_queue :: 'q
  wd_store :: 's
  wd_metrics :: "Collector option"

datatype 'q duringEvent = Heartbeat opEnv | WatchTick opEnv | Foreign "'q \<Rightarrow> 'q"

record ('e, 'q) procEnv =
  pe_lease :: opEnv
  pe_get :: opEnv
  pe_during :: "'q duringEvent list"
  pe_run :: "bool \<Rightarrow> 'e runEnv"
  pe_settle :: opEnv
  pe_late :: "opEnv list"

text \<open>One event while the run goes on; the flag tells whether the watcher has cancelled the run and ended.\<close>

fun duringStep :: "('e, 's, 'q) WorkerService \<Rightarrow> string \<Rightarrow> 'q duringEvent \<Rightarrow> 'q \<times> bool \<Rightarrow> 'q \<times> bool" where
  "duringStep svc jobID (Heartbeat e) (q, cancelled) =
     (snd (rq_ExtendRunJobLease (wk_queue svc) e jobID (wk_workerID svc) (wk_leaseDuration svc) q), cancelled)"
| "duringStep svc jobID (WatchTick e) (q, cancelled) =
     (q, cancelled \<or> (case rq_GetRunJob (wk_queue svc) e jobID q of
                        Inl err \<Rightarrow> False
                      | Inr current \<Rightarrow> j_Status current = RunJobStatusCancelled))"
| "duringStep svc jobID (Foreign f) (q, cancelled) = (f q, cancelled)"

definition workerBackoff :: "int \<Rightarrow> duration" where
  "workerBackoff attempts =
     (let backoff = wrap64 (shl1 (nat (attempts - 1)) * second)
      in if backoff > 30 * second then 30 * second else backoff)"

definition failureMessage :: "error option \<Rightarrow> Run \<Rightarrow> error" where
  "failureMessage execErr run =
     (case execErr of
        Some err \<Rightarrow> err
      | None \<Rightarrow> if r_Error run \<noteq> '''' then r_Error run else ''run failed'')"

text \<open>How a call of \<^verbatim>\<open>processOne\<close> ends: it returns an error or nil, panics (a shift by a negative count), or is
  caught in a run that hangs or still waits.\<close>

datatype ('s, 'q) procOutcome =
    ProcReturned "error option" "('s, 'q) world"
  | ProcPanics
  | ProcHangs
  | ProcWaits

definition settleJob ::
  "('e, 's, 'q) WorkerService \<Rightarrow> opEnv \<Rightarrow> RunQueueJob \<Rightarrow> Run \<Rightarrow> error option \<Rightarrow> ('s, 'q) world \<Rightarrow> ('s, 'q) procOutcome" where
  "settleJob svc e job run execErr w =
     (if execErr = None \<and> r_Status run \<noteq> RunStatusFailed \<and> r_Status run \<noteq> RunStatusCancelled
      then ProcReturned None
             (w\<lparr>wd_queue := snd (rq_CompleteRunJob (wk_queue svc) e (j_ID job) (wd_queue w)),
                wd_metrics := map_option RecordWorkerSuccess (wd_metrics w)\<rparr>)
      else if execErr = None \<and> r_Status run = RunStatusCancelled
      then let message = (if r_Error run = '''' then ''run cancelled'' else r_Error run)
           in ProcReturned (Some message)
                (w\<lparr>wd_queue := snd (rq_CancelRunJob (wk_queue svc) e (j_ID job) message (wd_queue w)),
                   wd_metrics := map_option RecordWorkerFailure (wd_metrics w)\<rparr>)
      else let message = failureMessage execErr run
           in if j_Attempts job < j_MaxAttempts job
              then if j_Attempts job - 1 < 0 then ProcPanics
                   else ProcReturned (Some message)
                          (w\<lparr>wd_queue := snd (rq_RetryRunJob (wk_queue svc) e (j_ID job)
                               (workerBackoff (j_Attempts job)) message (wd_queue w)),
                             wd_metrics := map_option (RecordWorkerFailure \<circ> RecordWorkerRetry) (wd_metrics w)\<rparr>)
              else ProcReturned (Some message)
                     (w\<lparr>wd_queue := snd (rq_DeadLetterRunJob (wk_queue svc) e (j_ID job) message (wd_queue w)),
                        wd_metrics := map_option (RecordWorkerFailure \<circ> RecordWorkerDeadLetter) (wd_metrics w)\<rparr>))"

definition lateHeartbeats ::
  "('e, 's, 'q) WorkerService \<Rightarrow> string \<Rightarrow> opEnv list \<Rightarrow> 'q \<Rightarrow> 'q" where
  "lateHeartbeats svc jobID es q =
     fst (fold (\<lambda>e st. duringStep svc jobID (Heartbeat e) st) es (q, False))"

definition processOne ::
  "('e, 's, 'q) WorkerService \<Rightarrow> ('e, 'q) procEnv \<Rightarrow> ('s, 'q) world \<Rightarrow> ('s, 'q) procOutcome" where
  "processOne svc env w0 =
     (case rq_LeaseNextRunJob (wk_queue svc) (pe_lease env) (wk_workerID svc) (wk_leaseDuration svc) (wd_queue w0) of
        (Inl err, q) \<Rightarrow> ProcReturned (Some err) (w0\<lparr>wd_queue := q\<rparr>)
      | (Inr job, q) \<Rightarrow>
          (let w = w0\<lparr>wd_queue := q, wd_metrics := map_option RecordWorkerLease (wd_metrics w0)\<rparr>
           in case ws_GetWorkflow (wk_store svc) (pe_get env) (j_WorkflowID job) (wd_store w) of
                Inl err \<Rightarrow>
                  ProcReturned (Some err)
                    (w\<lparr>wd_queue := snd (rq_FailRunJob (wk_queue svc) (pe_settle env) (j_ID job) err q)\<rparr>)
              | Inr workflow \<Rightarrow>
                  (case fold (duringStep svc (j_ID job)) (pe_during env) (q, False) of
                     (q1, cancelled) \<Rightarrow>
                       (case RunWithID (wk_executor svc) (pe_run env cancelled) workflow (j_RunID job)
                               (j_RequestID job) (wd_store w) (wd_metrics w) of
                          RunHangs \<Rightarrow> ProcHangs
                        | RunWaiting st \<Rightarrow> ProcWaits
                        | RunReturned run execErr s m \<Rightarrow>
                            (case settleJob svc (pe_settle env) job run execErr
                                    (w\<lparr>wd_queue := q1, wd_store := s, wd_metrics := m\<rparr>) of
                               ProcReturned r w2 \<Rightarrow>
                                 ProcReturned r (w2\<lparr>wd_queue := lateHeartbeats svc (j_ID job) (pe_late env) (wd_queue w2)\<rparr>)
                             | other \<Rightarrow> other)))))"

text \<open>The polling loop of \<^verbatim>\<open>Start\<close>, along a list of turns: whether the worker is draining when the turn begins,
  the environment of the turn, and whether the context is done while the worker waits for the ticker.
  \<^const>\<open>None\<close>: the turns end, or a turn does not return, before the loop does.\<close>

record ('e, 'q) loopTurn =
  lt_draining :: bool
  lt_env :: "('e, 'q) procEnv"
  lt_ctxDone :: bool

fun WorkerStart ::
  "('e, 's, 'q) WorkerService \<Rightarrow> ('e, 'q) loopTurn list \<Rightarrow> ('s, 'q) world \<Rightarrow> ('s, 'q) world option" where
  "WorkerStart svc [] w = None"
| "WorkerStart svc (t # ts) w =
     (if lt_draining t then Some w
      else case processOne svc (lt_env t) w of
             ProcReturned None w' \<Rightarrow> WorkerStart svc ts w'
           | ProcReturned (Some err) w' \<Rightarrow> if lt_ctxDone t then Some w' else WorkerStart svc ts w'
           | _ \<Rightarrow> None)"

section \<open>The backoff\<close>

text \<open>For the attempts one to thirty-four the backoff is the power of two, capped at thirty seconds. At the thirty-fifth
  the product leaves the range of \<^verbatim>\<open>int64\<close> and is negative, which the cap does not catch.\<close>

lemma workerBackoff_exact:
  assumes "1 \<le> attempts" and "attempts \<le> 34"
  shows "workerBackoff attempts = min (2 ^ nat (attempts - 1) * second) (30 * second)"
proof -
  let ?n = "nat (attempts - 1)"
  have n: "?n \<le> 33" using assms by simp
  then have "(2::int) ^ ?n \<le> 2 ^ 33" by (intro power_increasing) simp_all
  then have le: "2 ^ ?n * second \<le> (2::int) ^ 33 * second" by simp
  have "shl1 ?n = 2 ^ ?n" using n by (intro shl1_exact) simp
  moreover have "wrap64 (2 ^ ?n * second) = 2 ^ ?n * second"
  proof (rule wrap64_id)
    have "(0::int) \<le> 2 ^ ?n * second" by simp
    then show "minInt64 \<le> 2 ^ ?n * second" by linarith
    show "2 ^ ?n * second \<le> maxInt64" using le by simp
  qed
  ultimately show ?thesis by (simp add: workerBackoff_def Let_def min_def)
qed

lemma workerBackoff_overflow: "workerBackoff 35 = - 1266874889709551616"
  by (simp add: workerBackoff_def shl1_def wrap64_def Let_def)

section \<open>Settling a job\<close>

text \<open>The status in which the worker leaves a job after a run that returned.\<close>

definition settledStatus :: "RunQueueJob \<Rightarrow> Run \<Rightarrow> error option \<Rightarrow> RunJobStatus" where
  "settledStatus job run execErr =
     (if execErr = None \<and> r_Status run = RunStatusCancelled then RunJobStatusCancelled
      else if execErr = None \<and> r_Status run \<noteq> RunStatusFailed then RunJobStatusSucceeded
      else if j_Attempts job < j_MaxAttempts job then RunJobStatusQueued
      else RunJobStatusDead)"

lemma settledStatus_not_leased: "settledStatus job run execErr \<noteq> RunJobStatusLeased"
  by (simp add: settledStatus_def)

fun ownEvent :: "'q duringEvent \<Rightarrow> bool" where
  "ownEvent (Foreign f) = False"
| "ownEvent _ = True"

context run_queue
begin

text \<open>The worker's own events keep its lease.\<close>

definition leaseHeld :: "string \<Rightarrow> RunQueueJob \<Rightarrow> 'q \<Rightarrow> bool" where
  "leaseHeld wid job q \<longleftrightarrow> qinv q \<and> (\<exists>j. jobOf q (j_ID job) = Some j \<and> sameJob job j \<and>
     j_Status j = RunJobStatusLeased \<and> j_LeaseOwner j = wid \<and> j_Attempts j = j_Attempts job \<and>
     j_ReplayCount j = j_ReplayCount job)"

lemma duringStep_keeps_lease:
  assumes "wk_queue svc = Q" and "wk_workerID svc = wid" and "ownEvent ev" and "leaseHeld wid job q"
    and "duringStep svc (j_ID job) ev (q, c) = (q', c')"
  shows "leaseHeld wid job q'"
proof (cases ev)
  case (Heartbeat e)
  with assms have q': "snd (rq_ExtendRunJobLease Q e (j_ID job) wid (wk_leaseDuration svc) q) = q'" by simp
  obtain j where inv: "qinv q" and j: "jobOf q (j_ID job) = Some j" "sameJob job j" "j_Status j = RunJobStatusLeased"
    "j_LeaseOwner j = wid" "j_Attempts j = j_Attempts job" "j_ReplayCount j = j_ReplayCount job"
    using assms(4) by (auto simp: leaseHeld_def)
  obtain r where "rq_ExtendRunJobLease Q e (j_ID job) wid (wk_leaseDuration svc) q = (r, q')"
    using q' by (metis prod.collapse)
  note ext = extend[OF inv this]
  show ?thesis
  proof (cases "q' = q")
    case True
    with assms(4) show ?thesis by simp
  next
    case False
    with ext j(1) obtain j' where "jobOf q' (j_ID job) = Some j'" "sameJob j j'" "j_Status j' = RunJobStatusLeased"
      "j_LeaseOwner j' = wid" "j_Attempts j' = j_Attempts j" "j_ReplayCount j' = j_ReplayCount j" by auto
    with ext j(2,5,6) show ?thesis by (auto simp: leaseHeld_def intro: sameJob_trans)
  qed
qed (use assms in auto)

lemma during_keeps_lease:
  assumes "wk_queue svc = Q" and "wk_workerID svc = wid" and "\<forall>ev \<in> set evs. ownEvent ev" and "leaseHeld wid job q"
    and "fold (duringStep svc (j_ID job)) evs (q, c) = (q', c')"
  shows "leaseHeld wid job q'"
  using assms(3-5)
proof (induction evs arbitrary: q c)
  case (Cons ev evs)
  obtain q1 c1 where step: "duringStep svc (j_ID job) ev (q, c) = (q1, c1)" by fastforce
  have "leaseHeld wid job q1"
    by (rule duringStep_keeps_lease[OF assms(1,2) _ _ step]) (use Cons.prems in simp_all)
  with Cons step show ?case by simp
qed simp

text \<open>After the job is settled, a late heartbeat finds it no longer leased and changes nothing.\<close>

lemma late_heartbeats_harmless:
  assumes "wk_queue svc = Q" and "qinv q" and "\<not> (\<exists>j. jobOf q i = Some j \<and> j_Status j = RunJobStatusLeased)"
  shows "lateHeartbeats svc i es q = q"
proof -
  have one: "duringStep svc i (Heartbeat e) (q, c) = (q, c)" for e c
    using extend[OF assms(2), of e i "wk_workerID svc" "wk_leaseDuration svc"] assms(1,3)
    by simp (metis prod.collapse)
  have "fold (\<lambda>e st. duringStep svc i (Heartbeat e) st) es (q, False) = (q, False)"
    by (induction es) (simp_all add: one del: duringStep.simps)
  then show ?thesis by (simp add: lateHeartbeats_def)
qed

lemma settle_leased:
  assumes "wk_queue svc = Q" and "leaseHeld wid job (wd_queue w)" and "0 < j_Attempts job"
  shows "\<exists>r w' j j'. settleJob svc e job run execErr w = ProcReturned r w' \<and> qinv (wd_queue w') \<and>
    wd_store w' = wd_store w \<and> jobOf (wd_queue w) (j_ID job) = Some j \<and>
    jobOf (wd_queue w') = (jobOf (wd_queue w))(j_ID job \<mapsto> j') \<and> sameJob job j' \<and>
    j_Status j' = settledStatus job run execErr \<and> j_LeaseOwner j' = '''' \<and> j_Attempts j' = j_Attempts job \<and>
    (settledStatus job run execErr = RunJobStatusQueued \<longrightarrow>
       (\<exists>k. j_AvailableAt j' = timeOf (oe_now e k + workerBackoff (j_Attempts job))))"
proof -
  obtain j where inv: "qinv (wd_queue w)" and j: "jobOf (wd_queue w) (j_ID job) = Some j" "sameJob job j"
    "j_Status j = RunJobStatusLeased" "j_Attempts j = j_Attempts job"
    using assms(2) by (auto simp: leaseHeld_def)
  note comp = complete_leased[OF inv j(1,3), of e]
  note canc = cancel_open[OF inv j(1), unfolded j(3), simplified, of e]
  note retr = retry_leased[OF inv j(1,3), of e "workerBackoff (j_Attempts job)" "failureMessage execErr run"]
  note dead = dead_leased[OF inv j(1,3), of e "failureMessage execErr run"]
  have same: "settled st j j' \<Longrightarrow> sameJob job j' \<and> j_Status j' = st \<and> j_LeaseOwner j' = '''' \<and> j_Attempts j' = j_Attempts job"
    for st j' using j(2,4) sameJob_trans by (auto simp: settled_def)
  have fin: ?thesis
    if "settleJob svc e job run execErr w = ProcReturned r (w\<lparr>wd_queue := q', wd_metrics := m\<rparr>)" and "qinv q'"
      and "jobOf q' = (jobOf (wd_queue w))(j_ID job \<mapsto> j')" and "settled (settledStatus job run execErr) j j'"
      and "settledStatus job run execErr = RunJobStatusQueued \<Longrightarrow>
        \<exists>k. j_AvailableAt j' = timeOf (oe_now e k + workerBackoff (j_Attempts job))" for r q' m j'
    using that(1-3,5) same[OF that(4)] j(1)
    by (intro exI[of _ r] exI[of _ "w\<lparr>wd_queue := q', wd_metrics := m\<rparr>"] exI[of _ j] exI[of _ j'] conjI impI) simp_all
  consider (ok) "execErr = None" "r_Status run \<noteq> RunStatusFailed" "r_Status run \<noteq> RunStatusCancelled"
    | (cancelled) "execErr = None" "r_Status run = RunStatusCancelled"
    | (failed) "execErr \<noteq> None \<or> r_Status run = RunStatusFailed"
    by blast
  then show ?thesis
  proof cases
    case ok
    then have "settledStatus job run execErr = RunJobStatusSucceeded" by (simp add: settledStatus_def)
    with comp ok show ?thesis by (elim exE conjE) (rule fin; simp add: settleJob_def assms(1))
  next
    case cancelled
    then have "settledStatus job run execErr = RunJobStatusCancelled" by (simp add: settledStatus_def)
    with canc[of "if r_Error run = '''' then ''run cancelled'' else r_Error run"] cancelled show ?thesis
      by (elim exE conjE) (rule fin; simp add: settleJob_def assms(1) Let_def)
  next
    case failed
    then have no: "\<not> (execErr = None \<and> r_Status run \<noteq> RunStatusFailed \<and> r_Status run \<noteq> RunStatusCancelled)"
      "\<not> (execErr = None \<and> r_Status run = RunStatusCancelled)" "\<not> (execErr = None \<and> r_Status run \<noteq> RunStatusFailed)" by auto
    show ?thesis
    proof (cases "j_Attempts job < j_MaxAttempts job")
      case True
      then have "settledStatus job run execErr = RunJobStatusQueued" using no by (simp only: settledStatus_def if_True if_False)
      with retr True assms(3) show ?thesis
        by (elim exE conjE) (rule fin; (simp only: settleJob_def no if_False)?; simp add: assms(1) Let_def; blast)
    next
      case False
      then have "settledStatus job run execErr = RunJobStatusDead" using no by (simp only: settledStatus_def if_True if_False)
      with dead False show ?thesis
        by (elim exE conjE) (rule fin; (simp only: settleJob_def no if_False)?; simp add: assms(1) Let_def)
    qed
  qed
qed

text \<open>A turn of the worker that leased a job: it never panics, and when it returns the job is settled as
  the run's outcome demands and no other job is touched.\<close>

lemma lease_held:
  assumes "qinv q" and "envOk e q" and "rq_LeaseNextRunJob Q e wid d q = (Inr job, q')"
    and "\<forall>i j. jobOf q i = Some j \<longrightarrow> 0 \<le> j_Attempts j"
  shows "leaseHeld wid job q'" and "0 < j_Attempts job" and "k \<noteq> j_ID job \<Longrightarrow> jobOf q' k = jobOf q k"
proof -
  from lease_some[OF assms(1-3)] obtain j0 where L: "qinv q'" "jobOf q' = (jobOf q)(j_ID job \<mapsto> job)"
    "jobOf q (j_ID job) = Some j0" "leasedBy wid j0 job" by blast
  then show "leaseHeld wid job q'" by (simp add: leaseHeld_def leasedBy_def)
  show "0 < j_Attempts job" using L(3,4) assms(4) by (fastforce simp: leasedBy_def)
  show "k \<noteq> j_ID job \<Longrightarrow> jobOf q' k = jobOf q k" using L(2) by simp
qed

lemma duringStep_other:
  assumes "wk_queue svc = Q" and "ownEvent ev" and "qinv q" and "duringStep svc i ev (q, c) = (q', c')" and "k \<noteq> i"
  shows "jobOf q' k = jobOf q k \<and> qinv q'"
proof (cases ev)
  case (Heartbeat e)
  with assms have q': "q' = snd (rq_ExtendRunJobLease Q e i (wk_workerID svc) (wk_leaseDuration svc) q)" by simp
  obtain r where "rq_ExtendRunJobLease Q e i (wk_workerID svc) (wk_leaseDuration svc) q = (r, q')"
    using q' by (metis prod.collapse)
  from extend[OF assms(3) this] assms(5) show ?thesis by auto
qed (use assms in auto)

lemma during_other:
  assumes "wk_queue svc = Q" and "\<forall>ev \<in> set evs. ownEvent ev" and "qinv q"
    and "fold (duringStep svc i) evs (q, c) = (q', c')" and "k \<noteq> i"
  shows "jobOf q' k = jobOf q k"
  using assms(2-4)
proof (induction evs arbitrary: q c)
  case (Cons ev evs)
  obtain q1 c1 where step: "duringStep svc i ev (q, c) = (q1, c1)" by fastforce
  have one: "jobOf q1 k = jobOf q k \<and> qinv q1"
    by (rule duringStep_other[OF assms(1) _ _ step assms(5)]) (use Cons.prems in simp_all)
  have "jobOf q' k = jobOf q1 k"
    by (rule Cons.IH[where c = c1]) (use Cons.prems step one in simp_all)
  with one show ?case by simp
qed simp

lemma processOne_missing_workflow:
  assumes svc: "wk_queue svc = Q" and inv: "qinv (wd_queue w0)" and env: "envOk (pe_lease env) (wd_queue w0)"
    and attempts: "\<forall>i j. jobOf (wd_queue w0) i = Some j \<longrightarrow> 0 \<le> j_Attempts j"
    and lease: "rq_LeaseNextRunJob Q (pe_lease env) (wk_workerID svc) (wk_leaseDuration svc) (wd_queue w0) = (Inr job, q1)"
    and get: "ws_GetWorkflow (wk_store svc) (pe_get env) (j_WorkflowID job) (wd_store w0) = Inl err"
  shows "\<exists>w' j'. processOne svc env w0 = ProcReturned (Some err) w' \<and> qinv (wd_queue w') \<and>
     (\<forall>k. k \<noteq> j_ID job \<longrightarrow> jobOf (wd_queue w') k = jobOf (wd_queue w0) k) \<and>
     jobOf (wd_queue w') (j_ID job) = Some j' \<and> sameJob job j' \<and> j_Status j' = RunJobStatusFailed \<and> j_LastError j' = err"
proof -
  note L = lease_held[OF inv env lease attempts]
  obtain j where q1: "qinv q1" and j: "jobOf q1 (j_ID job) = Some j" "sameJob job j" "j_Status j = RunJobStatusLeased"
    using L(1) by (auto simp: leaseHeld_def)
  from fail_leased[OF q1 j(1,3), of "pe_settle env" err] obtain q2 j' where
    F: "rq_FailRunJob Q (pe_settle env) (j_ID job) err q1 = (None, q2)" "qinv q2"
      "jobOf q2 = (jobOf q1)(j_ID job \<mapsto> j')" "settled RunJobStatusFailed j j'" "j_LastError j' = err" by blast
  have "sameJob job j'" "j_Status j' = RunJobStatusFailed" using F(4) j(2) sameJob_trans by (auto simp: settled_def)
  with F L(3) show ?thesis
    by (intro exI[of _ "w0\<lparr>wd_queue := q2, wd_metrics := map_option RecordWorkerLease (wd_metrics w0)\<rparr>"] exI[of _ j'])
      (simp add: processOne_def svc lease get Let_def)
qed

lemma processOne_run:
  assumes svc: "wk_queue svc = Q" and inv: "qinv (wd_queue w0)" and env: "envOk (pe_lease env) (wd_queue w0)"
    and attempts: "\<forall>i j. jobOf (wd_queue w0) i = Some j \<longrightarrow> 0 \<le> j_Attempts j"
    and own: "\<forall>ev \<in> set (pe_during env). ownEvent ev"
    and lease: "rq_LeaseNextRunJob Q (pe_lease env) (wk_workerID svc) (wk_leaseDuration svc) (wd_queue w0) = (Inr job, q1)"
    and get: "ws_GetWorkflow (wk_store svc) (pe_get env) (j_WorkflowID job) (wd_store w0) = Inr workflow"
    and during: "fold (duringStep svc (j_ID job)) (pe_during env) (q1, False) = (q2, cancelled)"
    and run: "RunWithID (wk_executor svc) (pe_run env cancelled) workflow (j_RunID job) (j_RequestID job) (wd_store w0)
      (map_option RecordWorkerLease (wd_metrics w0)) = RunReturned run execErr s m"
  shows "\<exists>r w' j'. processOne svc env w0 = ProcReturned r w' \<and> wd_store w' = s \<and> qinv (wd_queue w') \<and>
     (\<forall>k. k \<noteq> j_ID job \<longrightarrow> jobOf (wd_queue w') k = jobOf (wd_queue w0) k) \<and>
     jobOf (wd_queue w') (j_ID job) = Some j' \<and> sameJob job j' \<and> j_Status j' = settledStatus job run execErr \<and>
     j_LeaseOwner j' = '''' \<and> j_Attempts j' = j_Attempts job \<and>
     (settledStatus job run execErr = RunJobStatusQueued \<longrightarrow>
       (\<exists>k. j_AvailableAt j' = timeOf (oe_now (pe_settle env) k + workerBackoff (j_Attempts job))))"
proof -
  note L = lease_held[OF inv env lease attempts]
  have q1: "qinv q1" using L(1) by (simp add: leaseHeld_def)
  have held: "leaseHeld (wk_workerID svc) job q2" by (rule during_keeps_lease[OF svc refl own L(1) during])
  let ?w = "w0\<lparr>wd_queue := q2, wd_store := s, wd_metrics := m\<rparr>"
  from settle_leased[OF svc, of "wk_workerID svc" job ?w "pe_settle env" run execErr] held L(2)
  obtain r w2 j' where S: "settleJob svc (pe_settle env) job run execErr ?w = ProcReturned r w2" "qinv (wd_queue w2)"
    "wd_store w2 = s" "jobOf (wd_queue w2) = (jobOf q2)(j_ID job \<mapsto> j')" "sameJob job j'"
    "j_Status j' = settledStatus job run execErr" "j_LeaseOwner j' = ''''" "j_Attempts j' = j_Attempts job"
    "settledStatus job run execErr = RunJobStatusQueued \<longrightarrow>
       (\<exists>k. j_AvailableAt j' = timeOf (oe_now (pe_settle env) k + workerBackoff (j_Attempts job)))" by auto
  have "lateHeartbeats svc (j_ID job) (pe_late env) (wd_queue w2) = wd_queue w2"
    by (rule late_heartbeats_harmless[OF svc S(2)]) (use S(4,6) settledStatus_not_leased in simp)
  then have "processOne svc env w0 = ProcReturned r w2"
    using svc lease get during run S(1) by (simp add: processOne_def Let_def)
  moreover have "jobOf q2 k = jobOf (wd_queue w0) k" if "k \<noteq> j_ID job" for k
    using during_other[OF svc own q1 during that] L(3)[OF that] by simp
  ultimately show ?thesis using S by (intro exI[of _ r] exI[of _ w2] exI[of _ j']) simp
qed

end

end
