(* ===== verification/Files.thy ===== *)
theory Files
  imports Domain GoStrings
begin

text \<open>
  The file operations that the file store and the scheduler use, on a file system that maps paths to contents.
  The environment of a call says which operations of the operating system fail; a failed
  \<^verbatim>\<open>os.WriteFile\<close> may leave a part of the content, since it truncates the file first. Paths are those of
  \<^verbatim>\<open>path/filepath\<close> on Unix.

  \<^verbatim>\<open>encoding/json\<close> is a parameter, the pair of functions \<open>codec\<close>; \<open>codecExact\<close> is its documented round trip on
  one value (it holds for values whose strings are valid UTF-8).
\<close>

type_synonym fileSystem = "string \<rightharpoonup> string"

datatype fileError = NotExist | FileError error

record ioEnv =
  io_mkdir :: "error option"
  io_stat :: "error option"
  io_read :: "error option"
  io_open :: "error option"
  io_write :: "(error \<times> string option) option"
  io_remove :: "error option"

definition ioFine :: ioEnv where
  "ioFine = \<lparr>io_mkdir = None, io_stat = None, io_read = None, io_open = None, io_write = None, io_remove = None\<rparr>"

definition osMkdirAll :: "ioEnv \<Rightarrow> string \<Rightarrow> error option" where
  "osMkdirAll io dir = io_mkdir io"

definition osStat :: "ioEnv \<Rightarrow> string \<Rightarrow> fileSystem \<Rightarrow> fileError option" where
  "osStat io path fs =
     (case io_stat io of Some err \<Rightarrow> Some (FileError err) | None \<Rightarrow> if fs path = None then Some NotExist else None)"

definition osReadFile :: "ioEnv \<Rightarrow> string \<Rightarrow> fileSystem \<Rightarrow> fileError + string" where
  "osReadFile io path fs =
     (case io_read io of
        Some err \<Rightarrow> Inl (FileError err)
      | None \<Rightarrow> (case fs path of None \<Rightarrow> Inl NotExist | Some content \<Rightarrow> Inr content))"

definition osWriteFile :: "ioEnv \<Rightarrow> string \<Rightarrow> string \<Rightarrow> fileSystem \<Rightarrow> error option \<times> fileSystem" where
  "osWriteFile io path content fs =
     (case io_write io of
        None \<Rightarrow> (None, fs(path \<mapsto> content))
      | Some (err, None) \<Rightarrow> (Some err, fs)
      | Some (err, Some part) \<Rightarrow> (Some err, fs(path \<mapsto> part)))"

text \<open>\<^verbatim>\<open>os.OpenFile\<close> with \<^verbatim>\<open>O_CREATE|O_EXCL\<close>: the file must not exist.\<close>

definition osCreateExcl :: "ioEnv \<Rightarrow> string \<Rightarrow> fileSystem \<Rightarrow> error option \<times> fileSystem" where
  "osCreateExcl io path fs =
     (case io_open io of
        Some err \<Rightarrow> (Some err, fs)
      | None \<Rightarrow> if fs path \<noteq> None then (Some ''file exists'', fs) else (None, fs(path \<mapsto> '''')))"

definition osRemove :: "ioEnv \<Rightarrow> string \<Rightarrow> fileSystem \<Rightarrow> error option \<times> fileSystem" where
  "osRemove io path fs =
     (case io_remove io of
        Some err \<Rightarrow> (Some err, fs)
      | None \<Rightarrow> if fs path = None then (Some ''no such file or directory'', fs) else (None, fs(path := None)))"

fun fileErrorString :: "string \<Rightarrow> fileError \<Rightarrow> error" where
  "fileErrorString path NotExist = ''open '' @ path @ '': no such file or directory''"
| "fileErrorString path (FileError err) = err"

section \<open>Paths\<close>

text \<open>\<^verbatim>\<open>filepath.Clean\<close>: the stack holds the kept elements, the last one first.\<close>

fun cleanElems :: "bool \<Rightarrow> string list \<Rightarrow> string list \<Rightarrow> string list" where
  "cleanElems rooted stack [] = rev stack"
| "cleanElems rooted stack (x # xs) =
     (if x = '''' \<or> x = ''.'' then cleanElems rooted stack xs
      else if x = ''..'' then
        (case stack of
           [] \<Rightarrow> cleanElems rooted (if rooted then [] else [''..'']) xs
         | y # ys \<Rightarrow> if y = ''..'' then cleanElems rooted (''..'' # stack) xs else cleanElems rooted ys xs)
      else cleanElems rooted (x # stack) xs)"

fun joinSlash :: "string list \<Rightarrow> string" where
  "joinSlash [] = ''''"
| "joinSlash [x] = x"
| "joinSlash (x # xs) = x @ ''/'' @ joinSlash xs"

definition pathClean :: "string \<Rightarrow> string" where
  "pathClean path =
     (let rooted = hasPrefix path ''/'';
          out = (if rooted then ''/'' else '''') @ joinSlash (cleanElems rooted [] (strSplit path CHR ''/''))
      in if out = '''' then ''.'' else out)"

text \<open>\<^verbatim>\<open>filepath.Join\<close> of two elements, the second not empty.\<close>

definition pathJoin :: "string \<Rightarrow> string \<Rightarrow> string" where
  "pathJoin a b = (if a = '''' then pathClean b else pathClean (a @ ''/'' @ b))"

definition pathDir :: "string \<Rightarrow> string" where
  "pathDir path = pathClean (rev (dropWhile (\<lambda>c. c \<noteq> CHR ''/'') (rev path)))"

section \<open>The codec\<close>

record 'a codec =
  co_Marshal :: "'a \<Rightarrow> error + string"
  co_Unmarshal :: "string \<Rightarrow> error + 'a"

definition codecExact :: "'a codec \<Rightarrow> 'a \<Rightarrow> bool" where
  "codecExact c x \<longleftrightarrow> (\<exists>b. co_Marshal c x = Inr b \<and> co_Unmarshal c b = Inr x)"

section \<open>Facts\<close>

lemma read_after_write:
  "osWriteFile io path content fs = (None, fs') \<Longrightarrow> io_read io' = None \<Longrightarrow> osReadFile io' path fs' = Inr content"
  by (auto simp: osWriteFile_def osReadFile_def split: option.splits)

lemma stat_after_write:
  "osWriteFile io path content fs = (None, fs') \<Longrightarrow> io_stat io' = None \<Longrightarrow> osStat io' path fs' = None"
  by (auto simp: osWriteFile_def osStat_def split: option.splits)

lemma create_excl_some: "osCreateExcl io path fs = (None, fs') \<Longrightarrow> fs path = None \<and> fs' = fs(path \<mapsto> '''')"
  by (auto simp: osCreateExcl_def split: option.splits if_splits)

end
