(* ===== verification/FileStore.thy ===== *)
theory FileStore
  imports MemoryStore Files
begin

text \<open>
  The file store (\<^verbatim>\<open>internal/store/file_store.go\<close>): a memory store that writes a snapshot of all workflows and runs
  after every save and reads it when it is opened. The state of its interface is the store and the file system;
  \<open>ioOf\<close> gives the outcomes of the file operations during a call.
\<close>

section \<open>Definitions\<close>

record FileStore =
  fst_baseDir :: string
  fst_mem :: MemoryStore

record persistedSnapshot =
  ps_Workflows :: "Workflow list"
  ps_Runs :: "Run list"

type_synonym fileState = "FileStore \<times> fileSystem"

definition snapshotPath :: "FileStore \<Rightarrow> string" where
  "snapshotPath s = pathJoin (fst_baseDir s) ''snapshot.json''"

text \<open>\<^verbatim>\<open>load\<close>. Its call environment is that of the memory store's saves.\<close>

fun loadWorkflows :: "opEnv \<Rightarrow> Workflow list \<Rightarrow> MemoryStore \<Rightarrow> error option \<times> MemoryStore" where
  "loadWorkflows e [] m = (None, m)"
| "loadWorkflows e (w # ws) m =
     (case SaveWorkflow e w m of (Some err, m') \<Rightarrow> (Some err, m') | (None, m') \<Rightarrow> loadWorkflows e ws m')"

fun loadRuns :: "opEnv \<Rightarrow> Run list \<Rightarrow> MemoryStore \<Rightarrow> error option \<times> MemoryStore" where
  "loadRuns e [] m = (None, m)"
| "loadRuns e (r # rs) m =
     (case SaveRun e r m of (Some err, m') \<Rightarrow> (Some err, m') | (None, m') \<Rightarrow> loadRuns e rs m')"

definition load :: "persistedSnapshot codec \<Rightarrow> ioEnv \<Rightarrow> opEnv \<Rightarrow> fileState \<Rightarrow> error option \<times> FileStore" where
  "load codec io e sf =
     (case sf of (s, fs) \<Rightarrow>
       (case osStat io (snapshotPath s) fs of
          Some NotExist \<Rightarrow> (None, s)
        | Some err \<Rightarrow> (Some (fileErrorString (snapshotPath s) err), s)
        | None \<Rightarrow>
            (case osReadFile io (snapshotPath s) fs of
               Inl err \<Rightarrow> (Some (fileErrorString (snapshotPath s) err), s)
             | Inr content \<Rightarrow>
                 (case co_Unmarshal codec content of
                    Inl err \<Rightarrow> (Some (''decode snapshot: '' @ err), s)
                  | Inr snapshot \<Rightarrow>
                      (case loadWorkflows e (ps_Workflows snapshot) (fst_mem s) of
                         (Some err, m) \<Rightarrow> (Some err, s\<lparr>fst_mem := m\<rparr>)
                       | (None, m) \<Rightarrow>
                           (case loadRuns e (ps_Runs snapshot) m of
                              (r, m') \<Rightarrow> (r, s\<lparr>fst_mem := m'\<rparr>)))))))"

definition NewFileStore ::
  "persistedSnapshot codec \<Rightarrow> ioEnv \<Rightarrow> opEnv \<Rightarrow> string \<Rightarrow> fileSystem \<Rightarrow> error + FileStore" where
  "NewFileStore codec io e baseDir fs =
     (if baseDir = '''' then Inl ''baseDir is required''
      else case osMkdirAll io baseDir of
             Some err \<Rightarrow> Inl err
           | None \<Rightarrow>
               (case load codec io e (\<lparr>fst_baseDir = baseDir, fst_mem = NewMemoryStore\<rparr>, fs) of
                  (Some err, _) \<Rightarrow> Inl err
                | (None, s) \<Rightarrow> Inr s))"

definition flushLocked :: "persistedSnapshot codec \<Rightarrow> ioEnv \<Rightarrow> opEnv \<Rightarrow> fileState \<Rightarrow> error option \<times> fileState" where
  "flushLocked codec io e sf =
     (case sf of (s, fs) \<Rightarrow>
       (case ListWorkflows e (fst_mem s) of
          Inl err \<Rightarrow> (Some err, sf)
        | Inr workflows \<Rightarrow>
            (case ListRuns e '''' (fst_mem s) of
               Inl err \<Rightarrow> (Some err, sf)
             | Inr runs \<Rightarrow>
                 (case co_Marshal codec \<lparr>ps_Workflows = workflows, ps_Runs = runs\<rparr> of
                    Inl err \<Rightarrow> (Some err, sf)
                  | Inr content \<Rightarrow>
                      (case osWriteFile io (snapshotPath s) content fs of (r, fs') \<Rightarrow> (r, (s, fs')))))))"

definition fsSaveWorkflow ::
  "persistedSnapshot codec \<Rightarrow> (opEnv \<Rightarrow> ioEnv) \<Rightarrow> opEnv \<Rightarrow> Workflow \<Rightarrow> fileState \<Rightarrow> error option \<times> fileState" where
  "fsSaveWorkflow codec ioOf e w sf =
     (case sf of (s, fs) \<Rightarrow>
       (case SaveWorkflow e w (fst_mem s) of
          (Some err, m) \<Rightarrow> (Some err, (s\<lparr>fst_mem := m\<rparr>, fs))
        | (None, m) \<Rightarrow> flushLocked codec (ioOf e) e (s\<lparr>fst_mem := m\<rparr>, fs)))"

definition fsSaveRun ::
  "persistedSnapshot codec \<Rightarrow> (opEnv \<Rightarrow> ioEnv) \<Rightarrow> opEnv \<Rightarrow> Run \<Rightarrow> fileState \<Rightarrow> error option \<times> fileState" where
  "fsSaveRun codec ioOf e r sf =
     (case sf of (s, fs) \<Rightarrow>
       (case SaveRun e r (fst_mem s) of
          (Some err, m) \<Rightarrow> (Some err, (s\<lparr>fst_mem := m\<rparr>, fs))
        | (None, m) \<Rightarrow> flushLocked codec (ioOf e) e (s\<lparr>fst_mem := m\<rparr>, fs)))"

definition fileStore :: "persistedSnapshot codec \<Rightarrow> (opEnv \<Rightarrow> ioEnv) \<Rightarrow> fileState WorkflowStore" where
  "fileStore codec ioOf =
     \<lparr>ws_SaveWorkflow = fsSaveWorkflow codec ioOf,
      ws_GetWorkflow = (\<lambda>e i sf. GetWorkflow e i (fst_mem (fst sf))),
      ws_ListWorkflows = (\<lambda>e sf. ListWorkflows e (fst_mem (fst sf))),
      ws_SaveRun = fsSaveRun codec ioOf,
      ws_GetRun = (\<lambda>e i sf. GetRun e i (fst_mem (fst sf))),
      ws_ListRuns = (\<lambda>e w sf. ListRuns e w (fst_mem (fst sf))),
      ws_ListRunsFiltered = (\<lambda>e w st r a b desc limit offset sf. ListRunsFiltered e w st r a b desc limit offset (fst_mem (fst sf))),
      ws_CountRunsFiltered = (\<lambda>e w st r a b sf. CountRunsFiltered e w st r a b (fst_mem (fst sf)))\<rparr>"

section \<open>Properties\<close>

lemma flush_mem: "flushLocked codec io e (s, fs) = (r, (s', fs')) \<Longrightarrow> s' = s"
  by (auto simp: flushLocked_def ListWorkflows_def ListRuns_def split: sum.splits prod.splits)

text \<open>The file store keeps the contract of a workflow store, whatever the codec and the disk do.\<close>

interpretation disk: workflow_store "fileStore codec ioOf" "\<lambda>sf. ms_workflows (fst_mem (fst sf))" "\<lambda>sf. ms_runs (fst_mem (fst sf))"
  by unfold_locales
    (auto simp: fileStore_def fsSaveWorkflow_def fsSaveRun_def SaveWorkflow_def SaveRun_def GetWorkflow_def GetRun_def
      dest!: flush_mem split: prod.splits)

text \<open>What is on disk: the snapshot of the memory store.\<close>

definition snapshotOf :: "opEnv \<Rightarrow> MemoryStore \<Rightarrow> persistedSnapshot" where
  "snapshotOf e m = \<lparr>ps_Workflows = sortSlice workflowLess (rangeValues (oe_ord e) (ms_workflows m)),
     ps_Runs = sortSlice startedBefore (rangeValues (oe_ord e) (ms_runs m))\<rparr>"

lemma flush_ok:
  "flushLocked codec io e (s, fs) = (None, sf') \<Longrightarrow>
     \<exists>content fs'. co_Marshal codec (snapshotOf e (fst_mem s)) = Inr content \<and> sf' = (s, fs') \<and>
       osWriteFile io (snapshotPath s) content fs = (None, fs')"
  by (auto simp: flushLocked_def ListWorkflows_def ListRuns_def snapshotOf_def split: sum.splits prod.splits)

lemma loadWorkflows_eq:
  "loadWorkflows e ws m = (None, m\<lparr>ms_workflows := fold (\<lambda>w f. f(w_ID w \<mapsto> w)) ws (ms_workflows m)\<rparr>)"
  by (induction ws arbitrary: m) (auto simp: SaveWorkflow_def)

lemma loadRuns_eq:
  "loadRuns e rs m = (None, m\<lparr>ms_runs := fold (\<lambda>r f. f(r_ID r \<mapsto> r)) rs (ms_runs m)\<rparr>)"
  by (induction rs arbitrary: m) (auto simp: SaveRun_def)

text \<open>Filing a list of values with distinct keys, each under its own key.\<close>

lemma fold_file:
  assumes "distinct (map key vs)"
  shows "fold (\<lambda>v f. f(key v \<mapsto> v)) vs m = (\<lambda>i. if \<exists>v \<in> set vs. key v = i then find (\<lambda>v. key v = i) vs else m i)"
  using assms
proof (induction vs arbitrary: m)
  case (Cons v vs)
  then have "v' \<in> set vs \<Longrightarrow> key v' \<noteq> key v" for v' by (auto simp: image_iff)
  with Cons show ?case by (auto simp: fun_eq_iff)
qed simp

lemma fold_file_exact:
  assumes "set vs = ran m" and "distinct (map key vs)" and "\<forall>i v. m i = Some v \<longrightarrow> key v = i"
  shows "fold (\<lambda>v f. f(key v \<mapsto> v)) vs Map.empty = m"
proof
  fix i
  show "fold (\<lambda>v f. f(key v \<mapsto> v)) vs Map.empty i = m i"
  proof (cases "m i")
    case None
    then have "\<not> (\<exists>v \<in> set vs. key v = i)" using assms(1,3) by (auto simp: ran_def)
    with None show ?thesis by (simp add: fold_file[OF assms(2)])
  next
    case (Some v)
    then have "v \<in> ran m" by (auto simp: ran_def)
    with assms(1) have v: "v \<in> set vs" "key v = i" using assms(3) Some by simp_all
    then have "find (\<lambda>v. key v = i) vs \<noteq> None" by (auto simp: find_None_iff)
    then obtain v' where f: "find (\<lambda>v. key v = i) vs = Some v'" by blast
    then have v': "v' \<in> set vs" "key v' = i" by (auto simp: find_Some_iff)
    have "inj_on key (set vs)" using assms(2) by (simp add: distinct_map)
    then have "v' = v" using v v' by (simp add: inj_on_def)
    with f v Some show ?thesis unfolding fold_file[OF assms(2)] by metis
  qed
qed

lemma distinct_keys_rangeValues:
  assumes "\<forall>i v. m i = Some v \<longrightarrow> key v = i" and "distinct ord"
  shows "distinct (map key (rangeValues ord m))"
  using assms by (simp add: rangeValues_ids)

text \<open>An order that lists every key of both maps once.\<close>

definition rangesStore :: "opEnv \<Rightarrow> MemoryStore \<Rightarrow> bool" where
  "rangesStore e m \<longleftrightarrow> distinct (oe_ord e) \<and> dom (ms_workflows m) \<union> dom (ms_runs m) \<subseteq> set (oe_ord e)"

lemma set_rangeValues_dom: "dom m \<subseteq> set ord \<Longrightarrow> set (rangeValues ord m) = ran m"
  by (auto simp: set_rangeValues ran_def dom_def)

text \<open>Loading the snapshot of a store gives the store back.\<close>

lemma load_snapshot:
  assumes "store_inv m" and "rangesStore e m" and "osStat io path fs = None" and "path = snapshotPath s"
    and "osReadFile io path fs = Inr content" and "co_Unmarshal codec content = Inr (snapshotOf e m)"
    and "fst_mem s = NewMemoryStore"
  shows "load codec io e' (s, fs) = (None, s\<lparr>fst_mem := m\<rparr>)"
proof -
  let ?snap = "snapshotOf e m"
  have keys: "\<forall>i w. ms_workflows m i = Some w \<longrightarrow> w_ID w = i" "\<forall>i r. ms_runs m i = Some r \<longrightarrow> r_ID r = i"
    using assms(1) by (auto simp: store_inv_def)
  have ord: "distinct (oe_ord e)" "dom (ms_workflows m) \<subseteq> set (oe_ord e)" "dom (ms_runs m) \<subseteq> set (oe_ord e)"
    using assms(2) by (auto simp: rangesStore_def)
  have "fold (\<lambda>w f. f(w_ID w \<mapsto> w)) (ps_Workflows ?snap) Map.empty = ms_workflows m"
    by (rule fold_file_exact[OF _ _ keys(1)])
      (simp_all add: snapshotOf_def set_rangeValues_dom ord distinct_keys_rangeValues[OF keys(1) ord(1)])
  moreover have "fold (\<lambda>r f. f(r_ID r \<mapsto> r)) (ps_Runs ?snap) Map.empty = ms_runs m"
    by (rule fold_file_exact[OF _ _ keys(2)])
      (simp_all add: snapshotOf_def set_rangeValues_dom ord distinct_keys_rangeValues[OF keys(2) ord(1)])
  ultimately show ?thesis
    using assms(3-7) by (simp add: load_def loadWorkflows_eq loadRuns_eq NewMemoryStore_def)
qed

lemma open_after_flush:
  assumes "store_inv (fst_mem s)" and "rangesStore e (fst_mem s)" and "fst_baseDir s \<noteq> ''''"
    and "codecExact codec (snapshotOf e (fst_mem s))" and "flushLocked codec io e (s, fs) = (None, (s', fs'))"
    and "io_mkdir io' = None" and "io_stat io' = None" and "io_read io' = None"
  shows "NewFileStore codec io' e' (fst_baseDir s) fs' = Inr s"
proof -
  let ?new = "\<lparr>fst_baseDir = fst_baseDir s, fst_mem = NewMemoryStore\<rparr>"
  from flush_ok[OF assms(5)] obtain content where m: "co_Marshal codec (snapshotOf e (fst_mem s)) = Inr content"
    and w: "osWriteFile io (snapshotPath s) content fs = (None, fs')" by auto
  have path: "snapshotPath s = snapshotPath ?new" by (simp add: snapshotPath_def)
  have "co_Unmarshal codec content = Inr (snapshotOf e (fst_mem s))" using assms(4) m by (simp add: codecExact_def)
  from load_snapshot[OF assms(1,2) stat_after_write[OF w assms(7)] path read_after_write[OF w assms(8)] this]
  show ?thesis using assms(3,6) by (simp add: NewFileStore_def osMkdirAll_def)
qed

end
