(* ===== verification/Scheduler.thy ===== *)
theory Scheduler
  imports Worker FileStore
begin

text \<open>
  The scheduler (\<^verbatim>\<open>internal/scheduler/service.go\<close>). Every method runs under the mutex, so a method is one step; \<^verbatim>\<open>Start\<close>
  and \<^verbatim>\<open>executeOnce\<close> release it in between and are modelled section by section. Goroutines are data of the model: an
  interval loop is an entry of \<open>sc_loops\<close> under a token, which its \<^verbatim>\<open>CancelFunc\<close> names, with the flag that its context is
  cancelled; a startup run of a cron job is an entry of \<open>sc_startups\<close>.

  The cron engine (\<^verbatim>\<open>github.com/robfig/cron\<close>) is a parameter, the record of the methods the code calls; \<open>cronOk\<close> is
  what its documentation promises of the entries.
\<close>

section \<open>The cron engine\<close>

record 'c Cron =
  cr_AddFunc :: "string \<Rightarrow> ScheduleConfig \<Rightarrow> 'c \<Rightarrow> (error + nat) \<times> 'c"
  cr_Remove :: "nat \<Rightarrow> 'c \<Rightarrow> 'c"
  cr_Start :: "'c \<Rightarrow> 'c"
  cr_Stop :: "'c \<Rightarrow> 'c"

definition cronOk :: "'c Cron \<Rightarrow> ('c \<Rightarrow> nat \<rightharpoonup> ScheduleConfig) \<Rightarrow> bool" where
  "cronOk cr entries \<longleftrightarrow>
     (\<forall>spec cfg c i c'. cr_AddFunc cr spec cfg c = (Inr i, c') \<longrightarrow> entries c i = None \<and> entries c' = (entries c)(i \<mapsto> cfg)) \<and>
     (\<forall>spec cfg c err c'. cr_AddFunc cr spec cfg c = (Inl err, c') \<longrightarrow> entries c' = entries c) \<and>
     (\<forall>i c. entries (cr_Remove cr i c) = (entries c)(i := None)) \<and>
     (\<forall>c. entries (cr_Start cr c) = entries c)"

section \<open>State\<close>

record ('e, 's, 'q, 'c) SchedulerService =
  sc_executor :: "('e, 's) Executor"
  sc_store :: "'s WorkflowStore"
  sc_queue :: "'q RunQueue option"
  sc_jobs :: "string \<rightharpoonup> ScheduleConfig"
  sc_paused :: "string \<rightharpoonup> bool"
  sc_running :: "string \<rightharpoonup> bool"
  sc_cronEntryIDs :: "string \<rightharpoonup> nat"
  sc_intervalStop :: "string \<rightharpoonup> nat"
  sc_cronEngine :: 'c
  sc_started :: bool
  sc_leaderLockPath :: string
  sc_leaderLockHeld :: bool
  sc_scheduleStore :: string
  sc_loops :: "nat \<rightharpoonup> ScheduleConfig \<times> bool"
  sc_nextLoop :: nat
  sc_startups :: "ScheduleConfig list"

record persistedSchedules =
  pd_Jobs :: "ScheduleConfig list"
  pd_Paused :: "string list"

definition NewSchedulerService :: "('e, 's) Executor \<Rightarrow> 's WorkflowStore \<Rightarrow> 'c \<Rightarrow> ('e, 's, 'q, 'c) SchedulerService" where
  "NewSchedulerService executor store cronEngine =
     \<lparr>sc_executor = executor, sc_store = store, sc_queue = None, sc_jobs = Map.empty, sc_paused = Map.empty,
      sc_running = Map.empty, sc_cronEntryIDs = Map.empty, sc_intervalStop = Map.empty, sc_cronEngine = cronEngine,
      sc_started = False, sc_leaderLockPath = '''', sc_leaderLockHeld = False, sc_scheduleStore = '''',
      sc_loops = Map.empty, sc_nextLoop = 0, sc_startups = []\<rparr>"

definition SetRunQueue :: "'q RunQueue \<Rightarrow> ('e, 's, 'q, 'c) SchedulerService \<Rightarrow> ('e, 's, 'q, 'c) SchedulerService" where
  "SetRunQueue queue s = s\<lparr>sc_queue := Some queue\<rparr>"

definition SetLeaderLockPath :: "string \<Rightarrow> ('e, 's, 'q, 'c) SchedulerService \<Rightarrow> ('e, 's, 'q, 'c) SchedulerService" where
  "SetLeaderLockPath path s = s\<lparr>sc_leaderLockPath := path\<rparr>"

text \<open>A Go map of booleans yields \<^verbatim>\<open>false\<close> for a missing key.\<close>

definition flag :: "(string \<rightharpoonup> bool) \<Rightarrow> string \<Rightarrow> bool" where
  "flag m i \<longleftrightarrow> m i = Some True"

definition IsPaused :: "string \<Rightarrow> ('e, 's, 'q, 'c) SchedulerService \<Rightarrow> bool" where
  "IsPaused workflowID s = flag (sc_paused s) workflowID"

section \<open>The schedule file\<close>

record scEnv =
  se_io :: ioEnv
  se_codec :: "persistedSchedules codec"
  se_jobsOrd :: "string list"
  se_pausedOrd :: "string list"

definition scheduleLess :: "ScheduleConfig \<Rightarrow> ScheduleConfig \<Rightarrow> bool" where
  "scheduleLess a b \<longleftrightarrow> s_WorkflowID a < s_WorkflowID b"

definition schedulesOf :: "scEnv \<Rightarrow> ('e, 's, 'q, 'c) SchedulerService \<Rightarrow> persistedSchedules" where
  "schedulesOf e s =
     \<lparr>pd_Jobs = sortSlice scheduleLess (rangeValues (se_jobsOrd e) (sc_jobs s)),
      pd_Paused = sortSlice (<) (filter (flag (sc_paused s)) (se_pausedOrd e))\<rparr>"

definition loadLocked ::
  "scEnv \<Rightarrow> fileSystem \<Rightarrow> ('e, 's, 'q, 'c) SchedulerService \<Rightarrow> error option \<times> ('e, 's, 'q, 'c) SchedulerService" where
  "loadLocked e fs s =
     (if sc_scheduleStore s = '''' then (None, s)
      else case osReadFile (se_io e) (sc_scheduleStore s) fs of
             Inl NotExist \<Rightarrow> (None, s)
           | Inl err \<Rightarrow> (Some (fileErrorString (sc_scheduleStore s) err), s)
           | Inr bytes \<Rightarrow>
               (case co_Unmarshal (se_codec e) bytes of
                  Inl err \<Rightarrow> (Some err, s)
                | Inr persisted \<Rightarrow>
                    (None, s\<lparr>sc_jobs := fold (\<lambda>cfg m. m(s_WorkflowID cfg \<mapsto> cfg)) (pd_Jobs persisted) Map.empty,
                             sc_paused := fold (\<lambda>i m. m(i \<mapsto> True)) (pd_Paused persisted) Map.empty\<rparr>)))"

definition persistLocked ::
  "scEnv \<Rightarrow> fileSystem \<Rightarrow> ('e, 's, 'q, 'c) SchedulerService \<Rightarrow> error option \<times> fileSystem" where
  "persistLocked e fs s =
     (if sc_scheduleStore s = '''' then (None, fs)
      else case osMkdirAll (se_io e) (pathDir (sc_scheduleStore s)) of
             Some err \<Rightarrow> (Some err, fs)
           | None \<Rightarrow>
               (case co_Marshal (se_codec e) (schedulesOf e s) of
                  Inl err \<Rightarrow> (Some err, fs)
                | Inr bytes \<Rightarrow> osWriteFile (se_io e) (sc_scheduleStore s) bytes fs))"

type_synonym ('e, 's, 'q, 'c) scState = "('e, 's, 'q, 'c) SchedulerService \<times> fileSystem"

definition SetScheduleStorePath :: "scEnv \<Rightarrow> string \<Rightarrow> ('e, 's, 'q, 'c) scState \<Rightarrow> ('e, 's, 'q, 'c) scState" where
  "SetScheduleStorePath e path sf =
     (case sf of (s, fs) \<Rightarrow> (snd (loadLocked e fs (s\<lparr>sc_scheduleStore := trimSpace path\<rparr>)), fs))"

definition Pause :: "scEnv \<Rightarrow> string \<Rightarrow> ('e, 's, 'q, 'c) scState \<Rightarrow> error option \<times> ('e, 's, 'q, 'c) scState" where
  "Pause e workflowID sf =
     (case sf of (s, fs) \<Rightarrow>
       (if sc_jobs s workflowID = None then (Some ''schedule not found'', sf)
        else let s' = s\<lparr>sc_paused := (sc_paused s)(workflowID \<mapsto> True)\<rparr>
             in (None, (s', snd (persistLocked e fs s')))))"

definition Resume :: "scEnv \<Rightarrow> string \<Rightarrow> ('e, 's, 'q, 'c) scState \<Rightarrow> error option \<times> ('e, 's, 'q, 'c) scState" where
  "Resume e workflowID sf =
     (case sf of (s, fs) \<Rightarrow>
       (if sc_jobs s workflowID = None then (Some ''schedule not found'', sf)
        else let s' = s\<lparr>sc_paused := (sc_paused s)(workflowID := None)\<rparr>
             in (None, (s', snd (persistLocked e fs s')))))"

section \<open>Triggers\<close>

text \<open>Calling the \<^verbatim>\<open>CancelFunc\<close> of a loop.\<close>

definition cancelLoop :: "nat \<Rightarrow> ('e, 's, 'q, 'c) SchedulerService \<Rightarrow> ('e, 's, 'q, 'c) SchedulerService" where
  "cancelLoop token s = s\<lparr>sc_loops := (sc_loops s)(token := map_option (\<lambda>(cfg, _). (cfg, True)) (sc_loops s token))\<rparr>"

definition unscheduleLocked ::
  "'c Cron \<Rightarrow> string \<Rightarrow> ('e, 's, 'q, 'c) SchedulerService \<Rightarrow> ('e, 's, 'q, 'c) SchedulerService" where
  "unscheduleLocked cr workflowID s0 =
     (let s = (case sc_cronEntryIDs s0 workflowID of
                 None \<Rightarrow> s0
               | Some existingID \<Rightarrow>
                   s0\<lparr>sc_cronEngine := cr_Remove cr existingID (sc_cronEngine s0),
                      sc_cronEntryIDs := (sc_cronEntryIDs s0)(workflowID := None)\<rparr>)
      in case sc_intervalStop s workflowID of
           None \<Rightarrow> s
         | Some stop \<Rightarrow> (cancelLoop stop s)\<lparr>sc_intervalStop := (sc_intervalStop s)(workflowID := None)\<rparr>)"

text \<open>The code of \<^verbatim>\<open>startJobLocked\<close> repeats the body of \<^verbatim>\<open>unscheduleLocked\<close> in both of its branches.\<close>

definition startJobLocked ::
  "'c Cron \<Rightarrow> ScheduleConfig \<Rightarrow> ('e, 's, 'q, 'c) SchedulerService \<Rightarrow> error option \<times> ('e, 's, 'q, 'c) SchedulerService" where
  "startJobLocked cr job s0 =
     (let s = unscheduleLocked cr (s_WorkflowID job) s0
      in if s_Cron job \<noteq> ''''
         then (case cr_AddFunc cr (s_Cron job) job (sc_cronEngine s) of
                 (Inl err, c) \<Rightarrow> (Some err, s\<lparr>sc_cronEngine := c\<rparr>)
               | (Inr entryID, c) \<Rightarrow>
                   (None, s\<lparr>sc_cronEngine := c, sc_cronEntryIDs := (sc_cronEntryIDs s)(s_WorkflowID job \<mapsto> entryID),
                            sc_startups := (if s_RunOnStartup job then sc_startups s @ [job] else sc_startups s)\<rparr>))
         else (None, s\<lparr>sc_intervalStop := (sc_intervalStop s)(s_WorkflowID job \<mapsto> sc_nextLoop s),
                       sc_loops := (sc_loops s)(sc_nextLoop s \<mapsto> (job, False)),
                       sc_nextLoop := Suc (sc_nextLoop s)\<rparr>))"

definition checkSchedule :: "ScheduleConfig \<Rightarrow> error option" where
  "checkSchedule config =
     (if s_WorkflowID config = '''' then Some ''workflowID is required''
      else if s_Interval config \<le> 0 \<and> s_Cron config = '''' then Some ''either interval or cron must be provided''
      else if s_Interval config > 0 \<and> s_Cron config \<noteq> '''' then Some ''interval and cron cannot both be set''
      else None)"

definition RegisterSchedule ::
  "'c Cron \<Rightarrow> scEnv \<Rightarrow> ScheduleConfig \<Rightarrow> ('e, 's, 'q, 'c) scState \<Rightarrow> error option \<times> ('e, 's, 'q, 'c) scState" where
  "RegisterSchedule cr e config sf =
     (case checkSchedule config of
        Some err \<Rightarrow> (Some err, sf)
      | None \<Rightarrow>
          (case sf of (s0, fs) \<Rightarrow>
            (let s1 = unscheduleLocked cr (s_WorkflowID config) s0;
                 s = s1\<lparr>sc_jobs := (sc_jobs s1)(s_WorkflowID config \<mapsto> config)\<rparr>;
                 fs' = snd (persistLocked e fs s)
             in if \<not> sc_started s then (None, (s, fs'))
                else (case startJobLocked cr config s of (r, s') \<Rightarrow> (r, (s', fs'))))))"

definition ListSchedules :: "scEnv \<Rightarrow> ('e, 's, 'q, 'c) SchedulerService \<Rightarrow> ScheduleConfig list" where
  "ListSchedules e s = rangeValues (se_jobsOrd e) (sc_jobs s)"

definition Unregister :: "'c Cron \<Rightarrow> scEnv \<Rightarrow> string \<Rightarrow> ('e, 's, 'q, 'c) scState \<Rightarrow> ('e, 's, 'q, 'c) scState" where
  "Unregister cr e workflowID sf =
     (case sf of (s0, fs) \<Rightarrow>
       (let s = unscheduleLocked cr workflowID
                  (s0\<lparr>sc_jobs := (sc_jobs s0)(workflowID := None), sc_paused := (sc_paused s0)(workflowID := None)\<rparr>)
        in (s, snd (persistLocked e fs s))))"

section \<open>Leadership and start\<close>

definition tryAcquireLeaderLockLocked :: "ioEnv \<Rightarrow> ('e, 's, 'q, 'c) scState \<Rightarrow> bool \<times> ('e, 's, 'q, 'c) scState" where
  "tryAcquireLeaderLockLocked io sf =
     (case sf of (s, fs) \<Rightarrow>
       (if sc_leaderLockPath s = '''' then (True, (s\<lparr>sc_leaderLockHeld := True\<rparr>, fs))
        else case osMkdirAll io (pathDir (sc_leaderLockPath s)) of
               Some err \<Rightarrow> (False, sf)
             | None \<Rightarrow>
                 (case osCreateExcl io (sc_leaderLockPath s) fs of
                    (Some err, fs') \<Rightarrow> (False, (s, fs'))
                  | (None, fs') \<Rightarrow> (True, (s\<lparr>sc_leaderLockHeld := True\<rparr>, fs')))))"

definition releaseLeaderLock :: "ioEnv \<Rightarrow> ('e, 's, 'q, 'c) scState \<Rightarrow> ('e, 's, 'q, 'c) scState" where
  "releaseLeaderLock io sf =
     (case sf of (s, fs) \<Rightarrow>
       (if \<not> sc_leaderLockHeld s \<or> sc_leaderLockPath s = '''' then sf
        else (s\<lparr>sc_leaderLockHeld := False\<rparr>, snd (osRemove io (sc_leaderLockPath s) fs))))"

text \<open>The first locked section of \<^verbatim>\<open>Start\<close>. It yields the jobs that the rest of \<^verbatim>\<open>Start\<close> starts one by one, each in a
  locked section of its own; a follower has none.\<close>

definition startBegin ::
  "'c Cron \<Rightarrow> scEnv \<Rightarrow> ('e, 's, 'q, 'c) scState \<Rightarrow> ScheduleConfig list \<times> ('e, 's, 'q, 'c) scState" where
  "startBegin cr e sf =
     (case sf of (s0, fs) \<Rightarrow>
       (if sc_started s0 then ([], sf)
        else case tryAcquireLeaderLockLocked (se_io e) (snd (loadLocked e fs s0), fs) of
               (False, (s, fs')) \<Rightarrow> ([], (s\<lparr>sc_started := True\<rparr>, fs'))
             | (True, (s, fs')) \<Rightarrow>
                 (rangeValues (se_jobsOrd e) (sc_jobs s),
                  (s\<lparr>sc_started := True, sc_cronEngine := cr_Start cr (sc_cronEngine s)\<rparr>, fs'))))"

definition startOne :: "'c Cron \<Rightarrow> ScheduleConfig \<Rightarrow> ('e, 's, 'q, 'c) scState \<Rightarrow> ('e, 's, 'q, 'c) scState" where
  "startOne cr job sf = (case sf of (s, fs) \<Rightarrow> (snd (startJobLocked cr job s), fs))"

definition SchedulerStart :: "'c Cron \<Rightarrow> scEnv \<Rightarrow> ('e, 's, 'q, 'c) scState \<Rightarrow> ('e, 's, 'q, 'c) scState" where
  "SchedulerStart cr e sf = (case startBegin cr e sf of (jobs, sf') \<Rightarrow> fold (startOne cr) jobs sf')"

text \<open>The goroutine that waits for the end of the leader's context.\<close>

definition shutdown :: "'c Cron \<Rightarrow> ioEnv \<Rightarrow> ('e, 's, 'q, 'c) scState \<Rightarrow> ('e, 's, 'q, 'c) scState" where
  "shutdown cr io sf =
     (case sf of (s, fs) \<Rightarrow> releaseLeaderLock io (s\<lparr>sc_cronEngine := cr_Stop cr (sc_cronEngine s)\<rparr>, fs))"

section \<open>Executing a schedule\<close>

definition intervalOf :: "ScheduleConfig \<Rightarrow> duration" where
  "intervalOf job = (if s_Interval job \<le> 0 then 10 * second else s_Interval job)"

text \<open>\<^verbatim>\<open>executeOnce\<close> in three sections: the guards under the mutex, the work without it, and the deferred reset.\<close>

definition executeBegin :: "ScheduleConfig \<Rightarrow> ('e, 's, 'q, 'c) SchedulerService \<Rightarrow> bool \<times> ('e, 's, 'q, 'c) SchedulerService" where
  "executeBegin job s =
     (if flag (sc_paused s) (s_WorkflowID job) then (False, s)
      else if flag (sc_running s) (s_WorkflowID job) \<and> \<not> s_AllowOverlap job then (False, s)
      else (True, s\<lparr>sc_running := (sc_running s)(s_WorkflowID job \<mapsto> True)\<rparr>))"

definition executeEnd :: "ScheduleConfig \<Rightarrow> ('e, 's, 'q, 'c) SchedulerService \<Rightarrow> ('e, 's, 'q, 'c) SchedulerService" where
  "executeEnd job s = s\<lparr>sc_running := (sc_running s)(s_WorkflowID job \<mapsto> False)\<rparr>"

record 'e onceEnv =
  on_get :: opEnv
  on_idNow :: gotime
  on_now :: clock
  on_enqueue :: opEnv
  on_run :: "'e runEnv"

definition scheduledJob :: "'e onceEnv \<Rightarrow> Workflow \<Rightarrow> RunQueueJob" where
  "scheduledJob env w =
     (let runID = NewRunID (w_ID w) (on_idNow env)
      in zeroRunQueueJob\<lparr>j_ID := ''job-'' @ runID, j_WorkflowID := w_ID w, j_RunID := runID,
           j_Status := RunJobStatusQueued, j_MaxAttempts := 5, j_AvailableAt := on_now env 0,
           j_CreatedAt := on_now env 1, j_UpdatedAt := on_now env 2\<rparr>)"

text \<open>\<^const>\<open>None\<close>: the run that the scheduler executes itself does not return.\<close>

definition executeBody ::
  "('e, 's, 'q, 'c) SchedulerService \<Rightarrow> 'e onceEnv \<Rightarrow> ScheduleConfig \<Rightarrow> ('s, 'q) world \<Rightarrow> (error option \<times> ('s, 'q) world) option" where
  "executeBody s env job w =
     (case ws_GetWorkflow (sc_store s) (on_get env) (s_WorkflowID job) (wd_store w) of
        Inl err \<Rightarrow> Some (Some err, w)
      | Inr workflow \<Rightarrow>
          (case sc_queue s of
             Some queue \<Rightarrow>
               (case rq_EnqueueRunJob queue (on_enqueue env) (scheduledJob env workflow) (wd_queue w) of
                  (r, q) \<Rightarrow> Some (r, w\<lparr>wd_queue := q\<rparr>))
           | None \<Rightarrow>
               (case ExecutorRun (sc_executor s) (on_run env) workflow (wd_store w) (wd_metrics w) of
                  RunReturned run err st m \<Rightarrow> Some (err, w\<lparr>wd_store := st, wd_metrics := m\<rparr>)
                | _ \<Rightarrow> None)))"

definition executeOnce ::
  "'e onceEnv \<Rightarrow> ScheduleConfig \<Rightarrow> ('e, 's, 'q, 'c) SchedulerService \<times> ('s, 'q) world \<Rightarrow>
   (error option \<times> ('e, 's, 'q, 'c) SchedulerService \<times> ('s, 'q) world) option" where
  "executeOnce env job sw =
     (case sw of (s, w) \<Rightarrow>
       (case executeBegin job s of
          (False, s') \<Rightarrow> Some (None, s', w)
        | (True, s') \<Rightarrow> (case executeBody s' env job w of
                          None \<Rightarrow> None
                        | Some (r, w') \<Rightarrow> Some (r, executeEnd job s', w'))))"

text \<open>The goroutine of an interval schedule, \<^verbatim>\<open>startIntervalJob\<close>: what its \<^verbatim>\<open>select\<close> picks, with the steps of other
  parties in between. The flag of the result tells whether the loop has ended; \<^const>\<open>None\<close>: an execution does not return.\<close>

datatype ('e, 'st) loopEvent = LoopTick "'e onceEnv" | LoopCtxDone | LoopForeign "'st \<Rightarrow> 'st"

fun intervalLoop ::
  "ScheduleConfig \<Rightarrow> ('e, ('e, 's, 'q, 'c) SchedulerService \<times> ('s, 'q) world) loopEvent list \<Rightarrow>
   ('e, 's, 'q, 'c) SchedulerService \<times> ('s, 'q) world \<Rightarrow>
   (bool \<times> ('e, 's, 'q, 'c) SchedulerService \<times> ('s, 'q) world) option" where
  "intervalLoop job [] sw = Some (False, sw)"
| "intervalLoop job (LoopCtxDone # evs) sw = Some (True, sw)"
| "intervalLoop job (LoopForeign f # evs) sw = intervalLoop job evs (f sw)"
| "intervalLoop job (LoopTick env # evs) sw =
     (case executeOnce env job sw of None \<Rightarrow> None | Some (r, sw') \<Rightarrow> intervalLoop job evs sw')"

definition startIntervalJob ::
  "'e onceEnv \<Rightarrow> ScheduleConfig \<Rightarrow> ('e, ('e, 's, 'q, 'c) SchedulerService \<times> ('s, 'q) world) loopEvent list \<Rightarrow>
   ('e, 's, 'q, 'c) SchedulerService \<times> ('s, 'q) world \<Rightarrow>
   (bool \<times> ('e, 's, 'q, 'c) SchedulerService \<times> ('s, 'q) world) option" where
  "startIntervalJob env job evs sw =
     (if s_RunOnStartup job
      then (case executeOnce env job sw of None \<Rightarrow> None | Some (r, sw') \<Rightarrow> intervalLoop job evs sw')
      else intervalLoop job evs sw)"

end
