(* ===== verification/SchedulerInv.thy ===== *)
theory SchedulerInv
  imports Scheduler
begin

text \<open>
  The invariants of the scheduler. Abstractly a scheduler is its map of schedules, its set of paused workflows and the
  set of live triggers: the schedules of the cron entries and of the interval loops that are not cancelled.
\<close>

section \<open>Triggers\<close>

definition live :: "('c \<Rightarrow> nat \<rightharpoonup> ScheduleConfig) \<Rightarrow> ('e, 's, 'q, 'c) SchedulerService \<Rightarrow> ScheduleConfig set" where
  "live entries s = ran (entries (sc_cronEngine s)) \<union> {cfg. \<exists>t. sc_loops s t = Some (cfg, False)}"

text \<open>The two tables of handles name exactly the live triggers, one per workflow and kind.\<close>

definition trig_ok :: "('c \<Rightarrow> nat \<rightharpoonup> ScheduleConfig) \<Rightarrow> ('e, 's, 'q, 'c) SchedulerService \<Rightarrow> bool" where
  "trig_ok entries s \<longleftrightarrow>
     (\<forall>i n. sc_cronEntryIDs s i = Some n \<longleftrightarrow> (\<exists>cfg. entries (sc_cronEngine s) n = Some cfg \<and> s_WorkflowID cfg = i)) \<and>
     (\<forall>i t. sc_intervalStop s i = Some t \<longleftrightarrow> (\<exists>cfg. sc_loops s t = Some (cfg, False) \<and> s_WorkflowID cfg = i)) \<and>
     (\<forall>n cfg. entries (sc_cronEngine s) n = Some cfg \<longrightarrow> s_Cron cfg \<noteq> '''') \<and>
     (\<forall>t cfg b. sc_loops s t = Some (cfg, b) \<longrightarrow> s_Cron cfg = '''') \<and>
     (\<forall>t. sc_nextLoop s \<le> t \<longrightarrow> sc_loops s t = None)"

lemma trig_okD:
  assumes "trig_ok entries s"
  shows "sc_cronEntryIDs s i = Some n \<longleftrightarrow> (\<exists>cfg. entries (sc_cronEngine s) n = Some cfg \<and> s_WorkflowID cfg = i)"
    and "sc_intervalStop s i = Some t \<longleftrightarrow> (\<exists>cfg. sc_loops s t = Some (cfg, False) \<and> s_WorkflowID cfg = i)"
    and "entries (sc_cronEngine s) n = Some cfg \<Longrightarrow> s_Cron cfg \<noteq> ''''"
    and "sc_loops s t = Some (cfg, b) \<Longrightarrow> s_Cron cfg = ''''"
    and "sc_nextLoop s \<le> t \<Longrightarrow> sc_loops s t = None"
  using assms unfolding trig_ok_def by blast+

lemma cronOkD:
  assumes "cronOk cr entries"
  shows "cr_AddFunc cr spec cfg c = (Inr i, c') \<Longrightarrow> entries c i = None \<and> entries c' = (entries c)(i \<mapsto> cfg)"
    and "cr_AddFunc cr spec cfg c = (Inl err, c') \<Longrightarrow> entries c' = entries c"
    and "entries (cr_Remove cr i c) = (entries c)(i := None)"
    and "entries (cr_Start cr c) = entries c"
  using assms unfolding cronOk_def by blast+

text \<open>What unscheduling does to the fields.\<close>

lemma unschedule_simps [simp]:
  "sc_jobs (unscheduleLocked cr i s) = sc_jobs s" "sc_paused (unscheduleLocked cr i s) = sc_paused s"
  "sc_running (unscheduleLocked cr i s) = sc_running s" "sc_started (unscheduleLocked cr i s) = sc_started s"
  "sc_cronEntryIDs (unscheduleLocked cr i s) = (sc_cronEntryIDs s)(i := None)"
  "sc_intervalStop (unscheduleLocked cr i s) = (sc_intervalStop s)(i := None)"
  "sc_nextLoop (unscheduleLocked cr i s) = sc_nextLoop s"
  "sc_leaderLockPath (unscheduleLocked cr i s) = sc_leaderLockPath s"
  "sc_leaderLockHeld (unscheduleLocked cr i s) = sc_leaderLockHeld s"
  "sc_scheduleStore (unscheduleLocked cr i s) = sc_scheduleStore s"
  "sc_queue (unscheduleLocked cr i s) = sc_queue s" "sc_store (unscheduleLocked cr i s) = sc_store s"
  by (auto simp: unscheduleLocked_def cancelLoop_def Let_def fun_eq_iff split: option.splits)

lemma unschedule_entries:
  assumes "cronOk cr entries"
  shows "entries (sc_cronEngine (unscheduleLocked cr i s)) n =
    (if sc_cronEntryIDs s i = Some n then None else entries (sc_cronEngine s) n)"
  by (auto simp: unscheduleLocked_def cancelLoop_def Let_def cronOkD(3)[OF assms] split: option.splits)

lemma unschedule_loops:
  "sc_loops (unscheduleLocked cr i s) t =
    (if sc_intervalStop s i = Some t then map_option (\<lambda>(cfg, _). (cfg, True)) (sc_loops s t) else sc_loops s t)"
  by (auto simp: unscheduleLocked_def cancelLoop_def Let_def split: option.splits)

lemma unschedule_trig_ok:
  assumes "cronOk cr entries" and "trig_ok entries s"
  shows "trig_ok entries (unscheduleLocked cr i s)"
proof -
  note T = trig_okD[OF assms(2)] and E = unschedule_entries[OF assms(1)]
  have "(sc_cronEntryIDs (unscheduleLocked cr i s)) k = Some n \<longleftrightarrow>
      (\<exists>cfg. entries (sc_cronEngine (unscheduleLocked cr i s)) n = Some cfg \<and> s_WorkflowID cfg = k)" for k n
    using T(1) by (auto simp: E)
  moreover have "(sc_intervalStop (unscheduleLocked cr i s)) k = Some t \<longleftrightarrow>
      (\<exists>cfg. sc_loops (unscheduleLocked cr i s) t = Some (cfg, False) \<and> s_WorkflowID cfg = k)" for k t
    using T(2) by (auto simp: unschedule_loops)
  moreover have "entries (sc_cronEngine (unscheduleLocked cr i s)) n = Some cfg \<Longrightarrow> s_Cron cfg \<noteq> ''''" for n cfg
    using T(3) by (auto simp: E split: if_splits)
  moreover have "sc_loops (unscheduleLocked cr i s) t = Some (cfg, b) \<Longrightarrow> s_Cron cfg = ''''" for t cfg b
    using T(4) by (fastforce simp: unschedule_loops split: if_splits)
  moreover have "sc_nextLoop s \<le> t \<Longrightarrow> sc_loops (unscheduleLocked cr i s) t = None" for t
    using T(5) by (simp add: unschedule_loops)
  ultimately show ?thesis unfolding trig_ok_def by simp
qed

text \<open>Unscheduling a workflow kills its triggers and no other.\<close>

lemma unschedule_live:
  assumes "cronOk cr entries" and "trig_ok entries s"
  shows "live entries (unscheduleLocked cr i s) = {cfg \<in> live entries s. s_WorkflowID cfg \<noteq> i}"
proof -
  note T = trig_okD[OF assms(2)] and E = unschedule_entries[OF assms(1)]
  have "entries (sc_cronEngine (unscheduleLocked cr i s)) n = Some cfg \<longleftrightarrow>
      entries (sc_cronEngine s) n = Some cfg \<and> s_WorkflowID cfg \<noteq> i" for n cfg
    using T(1)[of i n] by (auto simp: E)
  moreover have "sc_loops (unscheduleLocked cr i s) t = Some (cfg, False) \<longleftrightarrow>
      sc_loops s t = Some (cfg, False) \<and> s_WorkflowID cfg \<noteq> i" for t cfg
    using T(2)[of i t] by (auto simp: unschedule_loops)
  ultimately show ?thesis unfolding live_def ran_def by auto
qed

lemma live_cong:
  "sc_cronEngine s' = sc_cronEngine s \<Longrightarrow> sc_loops s' = sc_loops s \<Longrightarrow> live entries s' = live entries s"
  by (simp add: live_def)

lemma trig_ok_cong:
  "sc_cronEngine s' = sc_cronEngine s \<Longrightarrow> sc_loops s' = sc_loops s \<Longrightarrow> sc_cronEntryIDs s' = sc_cronEntryIDs s \<Longrightarrow>
   sc_intervalStop s' = sc_intervalStop s \<Longrightarrow> sc_nextLoop s' = sc_nextLoop s \<Longrightarrow> trig_ok entries s' = trig_ok entries s"
  by (simp add: trig_ok_def)

lemma ex_upd_fresh: "m k = None \<Longrightarrow> (\<exists>t. (m(k \<mapsto> v)) t = Some w) \<longleftrightarrow> v = w \<or> (\<exists>t. m t = Some w)"
  by (metis fun_upd_other fun_upd_same option.distinct(1) option.inject)

text \<open>Starting a job replaces the triggers of its workflow by one of its own, or removes them when the cron
  expression is refused.\<close>

lemma startJob_simps:
  assumes "startJobLocked cr job s = (r, s')"
  shows "sc_jobs s' = sc_jobs s" "sc_paused s' = sc_paused s" "sc_running s' = sc_running s" "sc_started s' = sc_started s"
    "sc_leaderLockPath s' = sc_leaderLockPath s" "sc_leaderLockHeld s' = sc_leaderLockHeld s"
    "sc_scheduleStore s' = sc_scheduleStore s" "sc_queue s' = sc_queue s" "sc_store s' = sc_store s"
  using assms by (auto simp: startJobLocked_def Let_def split: if_splits sum.splits prod.splits)

lemmas startJob_snd = startJob_simps[OF prod.collapse[symmetric]]

lemma startJob_live:
  assumes cron: "cronOk cr entries" and ok: "trig_ok entries s" and start: "startJobLocked cr job s = (r, s')"
  shows "trig_ok entries s'"
    and "live entries s' = {cfg \<in> live entries s. s_WorkflowID cfg \<noteq> s_WorkflowID job} \<union> (if r = None then {job} else {})"
    and "s_Cron job = '''' \<Longrightarrow> r = None"
proof -
  let ?u = "unscheduleLocked cr (s_WorkflowID job) s"
  note ok' = unschedule_trig_ok[OF cron ok, of "s_WorkflowID job"]
  note T = trig_okD[OF ok'] and L = unschedule_live[OF cron ok, of "s_WorkflowID job"]
  have noCron: "entries (sc_cronEngine ?u) n = Some cfg \<Longrightarrow> s_WorkflowID cfg \<noteq> s_WorkflowID job" for n cfg
    using T(1)[of "s_WorkflowID job" n] by auto
  have noLoop: "sc_loops ?u t = Some (cfg, False) \<Longrightarrow> s_WorkflowID cfg \<noteq> s_WorkflowID job" for t cfg
    using T(2)[of "s_WorkflowID job" t] by auto
  have "trig_ok entries s' \<and> live entries s' = live entries ?u \<union> (if r = None then {job} else {}) \<and>
      (s_Cron job = '''' \<longrightarrow> r = None)"
  proof (cases "s_Cron job = ''''")
    case True
    then have s': "r = None" "s' = ?u\<lparr>sc_intervalStop := (sc_intervalStop ?u)(s_WorkflowID job \<mapsto> sc_nextLoop ?u),
        sc_loops := (sc_loops ?u)(sc_nextLoop ?u \<mapsto> (job, False)), sc_nextLoop := Suc (sc_nextLoop ?u)\<rparr>"
      using start by (simp_all add: startJobLocked_def Let_def)
    have fresh: "sc_loops ?u (sc_nextLoop ?u) = None" using T(5) by blast
    have "trig_ok entries s'"
      unfolding trig_ok_def s'(2) using T noLoop fresh True by (auto simp del: unschedule_simps)
    moreover have "live entries s' = live entries ?u \<union> {job}"
      by (auto simp: live_def s'(2) ex_upd_fresh[where m = "sc_loops ?u", OF fresh] simp del: unschedule_simps fun_upd_apply)
    ultimately show ?thesis by (simp add: s'(1))
  next
    case False
    show ?thesis
    proof (cases "cr_AddFunc cr (s_Cron job) job (sc_cronEngine ?u)")
      case (Pair res c)
      show ?thesis
      proof (cases res)
        case (Inl err)
        then have s': "r = Some err" "s' = ?u\<lparr>sc_cronEngine := c\<rparr>" "entries c = entries (sc_cronEngine ?u)"
          using start False Pair cronOkD(2)[OF cron] by (auto simp: startJobLocked_def Let_def)
        then show ?thesis using ok' False by (simp add: trig_ok_def live_def del: unschedule_simps)
      next
        case (Inr n)
        then have c: "entries (sc_cronEngine ?u) n = None" "entries c = (entries (sc_cronEngine ?u))(n \<mapsto> job)"
          using Pair cronOkD(1)[OF cron] by auto
        have s': "r = None" "sc_cronEngine s' = c" "sc_loops s' = sc_loops ?u" "sc_intervalStop s' = sc_intervalStop ?u"
          "sc_nextLoop s' = sc_nextLoop ?u" "sc_cronEntryIDs s' = (sc_cronEntryIDs ?u)(s_WorkflowID job \<mapsto> n)"
          using start False Pair Inr by (auto simp: startJobLocked_def Let_def)
        have "trig_ok entries s'"
          unfolding trig_ok_def s' c using T noCron c(1) False by (auto simp del: unschedule_simps)
        moreover have "live entries s' = live entries ?u \<union> {job}"
          by (auto simp: live_def s' c(2) ran_def ex_upd_fresh[where m = "entries (sc_cronEngine ?u)", OF c(1)] simp del: fun_upd_apply)
        ultimately show ?thesis using False by (simp add: s'(1))
      qed
    qed
  qed
  then show "trig_ok entries s'"
    and "live entries s' = {cfg \<in> live entries s. s_WorkflowID cfg \<noteq> s_WorkflowID job} \<union> (if r = None then {job} else {})"
    and "s_Cron job = '''' \<Longrightarrow> r = None" unfolding L by simp_all
qed

section \<open>The operations\<close>

text \<open>The invariant: besides the handles, schedules are filed under their workflow, only \<^verbatim>\<open>true\<close> is stored for a paused
  workflow, every live trigger belongs to the registered schedule of its workflow, and there are none before
  \<^verbatim>\<open>Start\<close>.\<close>

definition sched_ok :: "('c \<Rightarrow> nat \<rightharpoonup> ScheduleConfig) \<Rightarrow> ('e, 's, 'q, 'c) SchedulerService \<Rightarrow> bool" where
  "sched_ok entries s \<longleftrightarrow> trig_ok entries s \<and>
     (\<forall>i cfg. sc_jobs s i = Some cfg \<longrightarrow> s_WorkflowID cfg = i) \<and> (\<forall>i. sc_paused s i \<noteq> Some False) \<and>
     (\<forall>cfg \<in> live entries s. sc_jobs s (s_WorkflowID cfg) = Some cfg) \<and> (\<not> sc_started s \<longrightarrow> live entries s = {})"

lemma sched_okD:
  assumes "sched_ok entries s"
  shows "trig_ok entries s" "sc_jobs s i = Some cfg \<Longrightarrow> s_WorkflowID cfg = i" "sc_paused s i \<noteq> Some False"
    "cfg \<in> live entries s \<Longrightarrow> sc_jobs s (s_WorkflowID cfg) = Some cfg" "\<not> sc_started s \<Longrightarrow> live entries s = {}"
  using assms unfolding sched_ok_def by blast+

text \<open>The operations of the service, \<^verbatim>\<open>Start\<close> as a whole. The schedule file is named before the start, as in
  \<^verbatim>\<open>main.go\<close>.\<close>

inductive schedOp :: "'c Cron \<Rightarrow> ('e, 's, 'q, 'c) scState \<Rightarrow> ('e, 's, 'q, 'c) scState \<Rightarrow> bool" for cr where
  pause: "schedOp cr sf (snd (Pause e i sf))"
| resume: "schedOp cr sf (snd (Resume e i sf))"
| register: "schedOp cr sf (snd (RegisterSchedule cr e cfg sf))"
| unregister: "schedOp cr sf (Unregister cr e i sf)"
| start: "schedOp cr sf (SchedulerStart cr e sf)"
| storePath: "\<not> sc_started (fst sf) \<Longrightarrow> schedOp cr sf (SetScheduleStorePath e path sf)"
| runQueue: "schedOp cr (s, fs) (SetRunQueue queue s, fs)"

lemma register_eq:
  assumes "checkSchedule cfg = None"
  shows "RegisterSchedule cr e cfg (s0, fs) =
    (let s = (unscheduleLocked cr (s_WorkflowID cfg) s0)\<lparr>sc_jobs := (sc_jobs s0)(s_WorkflowID cfg \<mapsto> cfg)\<rparr>;
         fs' = snd (persistLocked e fs s)
     in if \<not> sc_started s0 then (None, (s, fs')) else (fst (startJobLocked cr cfg s), (snd (startJobLocked cr cfg s), fs')))"
  using assms by (simp add: RegisterSchedule_def Let_def split: prod.splits)

text \<open>Registering replaces the schedule of the workflow and its trigger; other workflows keep theirs.\<close>

lemma register_spec:
  assumes cron: "cronOk cr entries" and ok: "sched_ok entries s0" and check: "checkSchedule cfg = None"
    and reg: "RegisterSchedule cr e cfg (s0, fs) = (r, (s, fs'))"
  shows "sched_ok entries s" and "sc_jobs s = (sc_jobs s0)(s_WorkflowID cfg \<mapsto> cfg)"
    and "live entries s = {c \<in> live entries s0. s_WorkflowID c \<noteq> s_WorkflowID cfg} \<union>
      (if sc_started s0 \<and> r = None then {cfg} else {})"
    and "s_Cron cfg = '''' \<Longrightarrow> r = None"
proof -
  let ?u = "unscheduleLocked cr (s_WorkflowID cfg) s0"
  let ?s = "?u\<lparr>sc_jobs := (sc_jobs s0)(s_WorkflowID cfg \<mapsto> cfg)\<rparr>"
  note S = sched_okD[OF ok]
  have tu: "trig_ok entries ?s" using unschedule_trig_ok[OF cron S(1), of "s_WorkflowID cfg"] by (subst trig_ok_cong) simp_all
  have lu: "live entries ?s = {c \<in> live entries s0. s_WorkflowID c \<noteq> s_WorkflowID cfg}"
    using unschedule_live[OF cron S(1), of "s_WorkflowID cfg"] by (subst live_cong[of _ ?u]) simp_all
  have "trig_ok entries s \<and> sc_jobs s = (sc_jobs s0)(s_WorkflowID cfg \<mapsto> cfg) \<and> sc_paused s = sc_paused s0 \<and>
    sc_started s = sc_started s0 \<and> live entries s = live entries ?s \<union> (if sc_started s0 \<and> r = None then {cfg} else {}) \<and>
    (s_Cron cfg = '''' \<longrightarrow> r = None)"
  proof (cases "sc_started s0")
    case True
    then have "startJobLocked cr cfg ?s = (r, s)" using reg by (auto simp: register_eq[OF check] Let_def)
    with startJob_simps[OF this] startJob_live[OF cron tu this] True lu show ?thesis by auto
  next
    case False
    then have "r = None" "s = ?s" using reg by (auto simp: register_eq[OF check] Let_def)
    with tu False show ?thesis by simp
  qed
  note A = this
  then show "sc_jobs s = (sc_jobs s0)(s_WorkflowID cfg \<mapsto> cfg)"
    and "live entries s = {c \<in> live entries s0. s_WorkflowID c \<noteq> s_WorkflowID cfg} \<union> (if sc_started s0 \<and> r = None then {cfg} else {})"
    and "s_Cron cfg = '''' \<Longrightarrow> r = None" by (simp_all add: lu)
  with A S show "sched_ok entries s" unfolding sched_ok_def lu by (auto split: if_splits)
qed

lemma unregister_spec:
  assumes cron: "cronOk cr entries" and ok: "sched_ok entries s0" and un: "Unregister cr e i (s0, fs) = (s, fs')"
  shows "sched_ok entries s" and "sc_jobs s = (sc_jobs s0)(i := None)" and "sc_paused s = (sc_paused s0)(i := None)"
    and "live entries s = {c \<in> live entries s0. s_WorkflowID c \<noteq> i}"
proof -
  let ?s = "s0\<lparr>sc_jobs := (sc_jobs s0)(i := None), sc_paused := (sc_paused s0)(i := None)\<rparr>"
  note S = sched_okD[OF ok]
  have s: "s = unscheduleLocked cr i ?s" using un by (simp add: Unregister_def Let_def)
  have t: "trig_ok entries ?s" using S(1) by (subst trig_ok_cong) simp_all
  have "live entries ?s = live entries s0" by (rule live_cong) simp_all
  then show l: "live entries s = {c \<in> live entries s0. s_WorkflowID c \<noteq> i}"
    using unschedule_live[OF cron t, of i] by (simp add: s)
  show j: "sc_jobs s = (sc_jobs s0)(i := None)" and p: "sc_paused s = (sc_paused s0)(i := None)" by (simp_all add: s)
  show "sched_ok entries s" unfolding sched_ok_def l j p
    using unschedule_trig_ok[OF cron t, of i] S by (auto simp: s split: if_splits)
qed

lemma fold_true: "fold (\<lambda>i m. m(i \<mapsto> True)) xs m i = (if i \<in> set xs then Some True else m i)"
  by (induction xs arbitrary: m) auto

lemma fold_keys:
  "(\<forall>i v. m i = Some v \<longrightarrow> key v = i) \<Longrightarrow> fold (\<lambda>v f. f(key v \<mapsto> v)) vs m i = Some v \<Longrightarrow> key v = i"
proof (induction vs arbitrary: m)
  case (Cons a vs)
  then show ?case by (intro Cons.IH[of "m(key a \<mapsto> a)"]) auto
qed simp

lemma load_simps:
  assumes "loadLocked e fs s = (r, s')"
  shows "sc_running s' = sc_running s" "sc_started s' = sc_started s" "sc_cronEngine s' = sc_cronEngine s"
    "sc_loops s' = sc_loops s" "sc_cronEntryIDs s' = sc_cronEntryIDs s" "sc_intervalStop s' = sc_intervalStop s"
    "sc_nextLoop s' = sc_nextLoop s" "sc_leaderLockPath s' = sc_leaderLockPath s"
    "sc_leaderLockHeld s' = sc_leaderLockHeld s" "sc_scheduleStore s' = sc_scheduleStore s"
  using assms by (auto simp: loadLocked_def split: if_splits sum.splits fileError.splits)

lemma load_cases:
  assumes "loadLocked e fs s = (r, s')"
  obtains (same) "s' = s" | (read) p :: persistedSchedules where "s' = s\<lparr>sc_jobs := fold (\<lambda>cfg m. m(s_WorkflowID cfg \<mapsto> cfg)) (pd_Jobs p) Map.empty,
    sc_paused := fold (\<lambda>i m. m(i \<mapsto> True)) (pd_Paused p) Map.empty\<rparr>"
  using assms unfolding loadLocked_def by (simp split: if_splits sum.splits fileError.splits) blast

lemma load_ok:
  assumes "sched_ok entries s" and "\<not> sc_started s" and "loadLocked e fs s = (r, s')"
  shows "sched_ok entries s'"
proof -
  note S = sched_okD[OF assms(1)] and L = load_simps[OF assms(3)]
  have "(\<forall>i cfg. sc_jobs s' i = Some cfg \<longrightarrow> s_WorkflowID cfg = i) \<and> (\<forall>i. sc_paused s' i \<noteq> Some False)"
    using assms(3)
  proof (cases rule: load_cases)
    case same
    then show ?thesis using S(2,3) by simp
  next
    case (read p)
    then show ?thesis by (auto simp: fold_true intro: fold_keys[of Map.empty] split: if_splits)
  qed
  moreover have "trig_ok entries s'" using S(1) L by (subst trig_ok_cong) simp_all
  moreover have "live entries s' = {}" using S(5)[OF assms(2)] L by (subst live_cong[of _ s]) simp_all
  ultimately show ?thesis by (simp add: sched_ok_def)
qed

text \<open>Starting the registered jobs one by one.\<close>

lemma startOnes_ok:
  assumes cron: "cronOk cr entries"
  shows "sched_ok entries s \<Longrightarrow> sc_started s \<Longrightarrow> \<forall>job \<in> set jobs. sc_jobs s (s_WorkflowID job) = Some job \<Longrightarrow>
    fold (startOne cr) jobs (s, fs) = (s', fs') \<Longrightarrow>
    sched_ok entries s' \<and> sc_jobs s' = sc_jobs s \<and> sc_paused s' = sc_paused s \<and> sc_running s' = sc_running s \<and> fs' = fs \<and>
    sc_leaderLockPath s' = sc_leaderLockPath s \<and> sc_leaderLockHeld s' = sc_leaderLockHeld s \<and> sc_started s' \<and>
    (\<forall>job \<in> live entries s \<union> set jobs. s_Cron job = '''' \<longrightarrow> job \<in> live entries s')"
proof (induction jobs arbitrary: s)
  case (Cons job jobs)
  obtain r s1 where st: "startJobLocked cr job s = (r, s1)" by fastforce
  note S = sched_okD[OF Cons.prems(1)] and F = startJob_simps[OF st] and L = startJob_live[OF cron S(1) st]
  have "sc_jobs s (s_WorkflowID job) = Some job" using Cons.prems(3) by simp
  then have "sc_jobs s (s_WorkflowID cfg) = Some cfg" if "cfg \<in> live entries s1" for cfg
    using that S(4)[of cfg] by (cases r) (auto simp: L(2))
  then have "sched_ok entries s1" unfolding sched_ok_def F using L(1) S(2,3) Cons.prems(2) by simp
  moreover have "fold (startOne cr) jobs (s1, fs) = (s', fs')" 
  proof -
    have "startOne cr job (s, fs) = (s1, fs)" by (simp add: startOne_def st)
    with Cons.prems(4) show ?thesis by simp
  qed
  moreover have "c \<in> live entries s1" if "c \<in> live entries s \<union> {job}" "s_Cron c = ''''" for c
  proof (cases "s_WorkflowID c = s_WorkflowID job")
    case True
    then have "c = job" using that(1) S(4)[of c] \<open>sc_jobs s (s_WorkflowID job) = Some job\<close> by auto
    then show ?thesis using L(2,3) that(2) by simp
  next
    case False
    then show ?thesis using that L(2) by auto
  qed
  ultimately show ?case using Cons.IH[of s1] Cons.prems(2,3) F by fastforce
qed simp

lemma sched_ok_cong:
  assumes "sched_ok entries s" and "entries (sc_cronEngine s') = entries (sc_cronEngine s)" and "sc_loops s' = sc_loops s"
    and "sc_cronEntryIDs s' = sc_cronEntryIDs s" and "sc_intervalStop s' = sc_intervalStop s"
    and "sc_nextLoop s' = sc_nextLoop s" and "sc_jobs s' = sc_jobs s" and "\<forall>i. sc_paused s' i \<noteq> Some False"
    and "sc_started s \<longrightarrow> sc_started s'"
  shows "sched_ok entries s'"
  using assms by (auto simp: sched_ok_def trig_ok_def live_def)

lemma acquire_cases:
  assumes "tryAcquireLeaderLockLocked io (s, fs) = (b, (s', fs'))"
  shows "s' = (if b then s\<lparr>sc_leaderLockHeld := True\<rparr> else s)"
    and "fs' = (if b \<and> sc_leaderLockPath s \<noteq> '''' then fs(sc_leaderLockPath s \<mapsto> '''') else fs)"
    and "b \<Longrightarrow> sc_leaderLockPath s \<noteq> '''' \<Longrightarrow> fs (sc_leaderLockPath s) = None"
  using assms by (auto simp: tryAcquireLeaderLockLocked_def osCreateExcl_def split: if_splits option.splits prod.splits)

lemma startOnes_simps:
  "fold (startOne cr) jobs (s, fs) = (s', fs') \<Longrightarrow> sc_running s' = sc_running s \<and> fs' = fs \<and>
    sc_leaderLockPath s' = sc_leaderLockPath s \<and> sc_leaderLockHeld s' = sc_leaderLockHeld s"
proof (induction jobs arbitrary: s)
  case (Cons job jobs)
  obtain r s1 where st: "startJobLocked cr job s = (r, s1)" by fastforce
  have "startOne cr job (s, fs) = (s1, fs)" by (simp add: startOne_def st)
  with Cons.prems have "fold (startOne cr) jobs (s1, fs) = (s', fs')" by simp
  from Cons.IH[OF this] startJob_simps[OF st] show ?case by simp
qed simp

text \<open>The first section of \<^verbatim>\<open>Start\<close> on a service that is not started.\<close>

lemma startBegin_cases:
  assumes "\<not> sc_started s0" and "startBegin cr e (s0, fs) = (jobs, (s, fs'))"
  obtains (leader) s1 where "snd (loadLocked e fs s0) = s1" "jobs = rangeValues (se_jobsOrd e) (sc_jobs s1)"
      "s = s1\<lparr>sc_leaderLockHeld := True, sc_started := True, sc_cronEngine := cr_Start cr (sc_cronEngine s1)\<rparr>"
      "sc_leaderLockPath s1 \<noteq> '''' \<Longrightarrow> fs (sc_leaderLockPath s1) = None"
      "fs' = (if sc_leaderLockPath s1 \<noteq> '''' then fs(sc_leaderLockPath s1 \<mapsto> '''') else fs)"
  | (follower) s1 where "snd (loadLocked e fs s0) = s1" "jobs = []" "s = s1\<lparr>sc_started := True\<rparr>" "fs' = fs"
proof -
  let ?s1 = "snd (loadLocked e fs s0)"
  obtain b s2 fs2 where acq: "tryAcquireLeaderLockLocked (se_io e) (?s1, fs) = (b, (s2, fs2))" by (metis prod.collapse)
  note A = acquire_cases[OF acq]
  show thesis
  proof (cases b)
    case True
    then show ?thesis using assms acq A by (intro leader[of ?s1]) (auto simp: startBegin_def)
  next
    case False
    then show ?thesis using assms acq A by (intro follower[of ?s1]) (auto simp: startBegin_def)
  qed
qed

lemma start_spec:
  assumes cron: "cronOk cr entries" and ok: "sched_ok entries s0" and new: "\<not> sc_started s0"
    and start: "SchedulerStart cr e (s0, fs) = (s, fs')"
  shows "sched_ok entries s" and "sc_started s"
    and "sc_leaderLockHeld s \<Longrightarrow> \<not> sc_leaderLockHeld s0 \<Longrightarrow> iterates (se_jobsOrd e) (sc_jobs s) \<Longrightarrow>
      \<forall>cfg \<in> ran (sc_jobs s). s_Cron cfg = '''' \<longrightarrow> cfg \<in> live entries s"
    and "\<not> sc_leaderLockHeld s \<Longrightarrow> live entries s = {}"
proof -
  obtain jobs s2 fs2 where b: "startBegin cr e (s0, fs) = (jobs, (s2, fs2))" by (metis prod.collapse)
  with start have f: "fold (startOne cr) jobs (s2, fs2) = (s, fs')" by (simp add: SchedulerStart_def)
  let ?s1 = "snd (loadLocked e fs s0)"
  have L: "loadLocked e fs s0 = (fst (loadLocked e fs s0), ?s1)" by simp
  have ok1: "sched_ok entries ?s1" by (rule load_ok[OF ok new L])
  note S1 = sched_okD[OF ok1] and F1 = load_simps[OF L]
  from new b have "sched_ok entries s \<and> sc_started s \<and> (sc_leaderLockHeld s \<longrightarrow> \<not> sc_leaderLockHeld s0 \<longrightarrow>
      iterates (se_jobsOrd e) (sc_jobs s) \<longrightarrow> (\<forall>cfg \<in> ran (sc_jobs s). s_Cron cfg = '''' \<longrightarrow> cfg \<in> live entries s)) \<and>
      (\<not> sc_leaderLockHeld s \<longrightarrow> live entries s = {})"
  proof (cases rule: startBegin_cases)
    case (leader s1)
    then have s1: "s1 = ?s1" by simp
    have ok2: "sched_ok entries s2"
      by (rule sched_ok_cong[OF ok1]) (simp_all add: leader(3) s1 cronOkD(4)[OF cron] S1(3))
    have jobs: "\<forall>job \<in> set jobs. sc_jobs s2 (s_WorkflowID job) = Some job"
      using S1(2) by (auto simp: leader(2,3) s1 set_rangeValues)
    have st: "sc_started s2" by (simp add: leader(3))
    note R = startOnes_ok[OF cron ok2 st jobs f]
    have "sc_jobs s = sc_jobs s1" using R by (simp add: leader(3))
    moreover have "sc_leaderLockHeld s" using R by (simp add: leader(3))
    moreover have "iterates (se_jobsOrd e) (sc_jobs s1) \<Longrightarrow> set jobs = ran (sc_jobs s1)"
      by (simp add: leader(2) set_rangeValues_iterates)
    ultimately show ?thesis using R by auto
  next
    case (follower s1)
    then have s: "s = ?s1\<lparr>sc_started := True\<rparr>" using f by simp
    have "sched_ok entries s" by (rule sched_ok_cong[OF ok1]) (simp_all add: s S1(3))
    moreover have "live entries s = {}"
      using S1(5) F1(2) new by (subst live_cong[of _ ?s1]) (simp_all add: s)
    moreover have "sc_leaderLockHeld s \<longrightarrow> sc_leaderLockHeld s0" using F1(9) by (simp add: s)
    ultimately show ?thesis by (simp add: s)
  qed
  then show "sched_ok entries s" and "sc_started s"
    and "sc_leaderLockHeld s \<Longrightarrow> \<not> sc_leaderLockHeld s0 \<Longrightarrow> iterates (se_jobsOrd e) (sc_jobs s) \<Longrightarrow>
      \<forall>cfg \<in> ran (sc_jobs s). s_Cron cfg = '''' \<longrightarrow> cfg \<in> live entries s"
    and "\<not> sc_leaderLockHeld s \<Longrightarrow> live entries s = {}" by blast+
qed

section \<open>Reachable services\<close>

lemma schedOp_ok:
  assumes "cronOk cr entries" and "schedOp cr sf sf'" and "sched_ok entries (fst sf)"
  shows "sched_ok entries (fst sf')"
  using assms(2,3)
proof (cases rule: schedOp.cases)
  case (pause e i)
  then show ?thesis
    using assms(3) sched_okD(3)[OF assms(3)]
    by (cases sf) (auto simp: Pause_def Let_def intro!: sched_ok_cong[OF assms(3)] split: if_splits)
next
  case (resume e i)
  then show ?thesis
    using assms(3) sched_okD(3)[OF assms(3)]
    by (cases sf) (auto simp: Resume_def Let_def intro!: sched_ok_cong[OF assms(3)] split: if_splits)
next
  case (register e cfg)
  show ?thesis
  proof (cases "checkSchedule cfg")
    case None
    obtain r s fs' where "RegisterSchedule cr e cfg (fst sf, snd sf) = (r, (s, fs'))" by (metis prod.collapse)
    with register_spec(1)[OF assms(1,3) None this] show ?thesis by (simp add: register)
  next
    case (Some err)
    with assms(3) show ?thesis by (simp add: register RegisterSchedule_def)
  qed
next
  case (unregister e i)
  obtain s fs' where "Unregister cr e i (fst sf, snd sf) = (s, fs')" by fastforce
  with unregister_spec(1)[OF assms(1,3) this] show ?thesis by (simp add: unregister)
next
  case (start e)
  obtain s fs' where st: "SchedulerStart cr e (fst sf, snd sf) = (s, fs')" by fastforce
  show ?thesis
  proof (cases "sc_started (fst sf)")
    case True
    then have "sf' = sf" by (cases sf) (simp add: start SchedulerStart_def startBegin_def)
    with assms(3) show ?thesis by simp
  next
    case False
    from start_spec(1)[OF assms(1,3) this st] st show ?thesis by (simp add: start)
  qed
next
  case (storePath e path)
  let ?s = "(fst sf)\<lparr>sc_scheduleStore := trimSpace path\<rparr>"
  have "sched_ok entries ?s" by (rule sched_ok_cong[OF assms(3)]) (simp_all add: sched_okD(3)[OF assms(3)])
  then have "sched_ok entries (snd (loadLocked e (snd sf) ?s))"
    by (rule load_ok) (use storePath in \<open>simp_all add: prod_eq_iff\<close>)
  then show ?thesis by (cases sf) (simp add: storePath SetScheduleStorePath_def)
next
  case (runQueue s fs queue)
  with assms(3) show ?thesis
    by (auto simp: SetRunQueue_def intro!: sched_ok_cong[OF assms(3)] dest: sched_okD(3))
qed

lemma new_ok: "(\<forall>n. entries c n = None) \<Longrightarrow> sched_ok entries (NewSchedulerService ex st c)"
  by (simp add: sched_ok_def trig_ok_def live_def NewSchedulerService_def ran_def)

text \<open>What the operations keep: the running flags, and the lock file of a holder.\<close>

lemma persist_keeps: "snd (persistLocked e fs s) p = None \<Longrightarrow> fs p = None"
  by (auto simp: persistLocked_def osWriteFile_def split: if_splits option.splits sum.splits prod.splits)

lemma schedOp_frame:
  assumes "schedOp cr (s, fs) (s', fs')"
  shows "sc_running s' = sc_running s" and "sc_leaderLockPath s' = sc_leaderLockPath s"
    and "sc_leaderLockHeld s \<Longrightarrow> sc_leaderLockHeld s'"
    and "fs' p = None \<Longrightarrow> fs p = None"
    and "sc_leaderLockHeld s' \<Longrightarrow> sc_leaderLockPath s \<noteq> '''' \<Longrightarrow>
      sc_leaderLockHeld s \<or> fs (sc_leaderLockPath s) = None \<and> fs' (sc_leaderLockPath s) \<noteq> None"
proof -
  have "sc_running s' = sc_running s \<and> sc_leaderLockPath s' = sc_leaderLockPath s \<and>
    (sc_leaderLockHeld s \<longrightarrow> sc_leaderLockHeld s') \<and> (fs' p = None \<longrightarrow> fs p = None) \<and>
    (sc_leaderLockHeld s' \<longrightarrow> sc_leaderLockPath s \<noteq> '''' \<longrightarrow>
      sc_leaderLockHeld s \<or> fs (sc_leaderLockPath s) = None \<and> fs' (sc_leaderLockPath s) \<noteq> None)"
    using assms
  proof (cases rule: schedOp.cases)
    case (register e cfg)
    show ?thesis
    proof (cases "checkSchedule cfg")
      case None
      let ?s = "(unscheduleLocked cr (s_WorkflowID cfg) s)\<lparr>sc_jobs := (sc_jobs s)(s_WorkflowID cfg \<mapsto> cfg)\<rparr>"
      have st: "startJobLocked cr cfg ?s = (fst (startJobLocked cr cfg ?s), snd (startJobLocked cr cfg ?s))" by simp
      show ?thesis
        using register startJob_simps[OF st]
        by (auto simp: register_eq[OF None] Let_def dest: persist_keeps split: if_splits)
    qed (use register in \<open>simp add: RegisterSchedule_def\<close>)
  next
    case (start e)
    show ?thesis
    proof (cases "sc_started s")
      case True
      with start show ?thesis by (simp add: SchedulerStart_def startBegin_def)
    next
      case False
      let ?s1 = "snd (loadLocked e fs s)"
      have L: "loadLocked e fs s = (fst (loadLocked e fs s), ?s1)" by simp
      obtain jobs s2 fs2 where b: "startBegin cr e (s, fs) = (jobs, (s2, fs2))" by (metis prod.collapse)
      with start have "fold (startOne cr) jobs (s2, fs2) = (s', fs')" by (simp add: SchedulerStart_def)
      note F = startOnes_simps[OF this] and L1 = load_simps[OF L]
      from False b show ?thesis
        by (cases rule: startBegin_cases) (use F L1 in \<open>auto split: if_splits\<close>)
    qed
  next
    case (storePath e path)
    let ?s = "s\<lparr>sc_scheduleStore := trimSpace path\<rparr>"
    have L: "loadLocked e fs ?s = (fst (loadLocked e fs ?s), snd (loadLocked e fs ?s))" by simp
    from storePath load_simps[OF L] show ?thesis by (simp add: SetScheduleStorePath_def)
  qed (auto simp: Pause_def Resume_def Unregister_def SetRunQueue_def Let_def dest: persist_keeps split: if_splits)
  then show "sc_running s' = sc_running s" and "sc_leaderLockPath s' = sc_leaderLockPath s"
    and "sc_leaderLockHeld s \<Longrightarrow> sc_leaderLockHeld s'" and "fs' p = None \<Longrightarrow> fs p = None"
    and "sc_leaderLockHeld s' \<Longrightarrow> sc_leaderLockPath s \<noteq> '''' \<Longrightarrow>
      sc_leaderLockHeld s \<or> fs (sc_leaderLockPath s) = None \<and> fs' (sc_leaderLockPath s) \<noteq> None" by blast+
qed

section \<open>Executions in flight\<close>

text \<open>Operations of the service interleaved with executions: an execution that passes the guards is in flight
  until its deferred reset. \<open>P\<close> restricts the schedules that fire.\<close>

inductive sysStep ::
  "'c Cron \<Rightarrow> (ScheduleConfig \<Rightarrow> bool) \<Rightarrow> ('e, 's, 'q, 'c) scState \<times> ScheduleConfig list \<Rightarrow>
   ('e, 's, 'q, 'c) scState \<times> ScheduleConfig list \<Rightarrow> bool" for cr P where
  operation: "schedOp cr sf sf' \<Longrightarrow> sysStep cr P (sf, fl) (sf', fl)"
| fire: "P cfg \<Longrightarrow> executeBegin cfg s = (True, s') \<Longrightarrow> sysStep cr P ((s, fs), fl) ((s', fs), cfg # fl)"
| finish: "cfg \<in> set fl \<Longrightarrow> sysStep cr P ((s, fs), fl) ((executeEnd cfg s, fs), remove1 cfg fl)"

abbreviation inFlight :: "string \<Rightarrow> ScheduleConfig list \<Rightarrow> ScheduleConfig list" where
  "inFlight i fl \<equiv> filter (\<lambda>cfg. s_WorkflowID cfg = i) fl"

lemma inFlight_step:
  assumes "sysStep cr P x y" and "\<forall>cfg. P cfg \<longrightarrow> s_WorkflowID cfg = i \<longrightarrow> \<not> s_AllowOverlap cfg"
    and "length (inFlight i (snd x)) = (if flag (sc_running (fst (fst x))) i then 1 else 0)"
  shows "length (inFlight i (snd y)) = (if flag (sc_running (fst (fst y))) i then 1 else 0)"
  using assms(1)
proof (cases rule: sysStep.cases)
  case (operation sf sf' fl)
  have "schedOp cr (fst sf, snd sf) (fst sf', snd sf')" using operation(3) by simp
  from schedOp_frame(1)[OF this] assms(3) operation show ?thesis by simp
next
  case (fire cfg s s' fs fl)
  show ?thesis
  proof (cases "s_WorkflowID cfg = i")
    case True
    then have "\<not> s_AllowOverlap cfg" using assms(2) fire(3) by blast
    with True fire assms(3) show ?thesis by (auto simp: executeBegin_def flag_def split: if_splits)
  qed (use fire assms(3) in \<open>auto simp: executeBegin_def flag_def split: if_splits\<close>)
next
  case (finish cfg fl s fs)
  have r: "inFlight i (remove1 cfg fl) = (if s_WorkflowID cfg = i then remove1 cfg (inFlight i fl) else inFlight i fl)"
    by (simp add: filter_remove1 remove1_idem)
  show ?thesis
  proof (cases "s_WorkflowID cfg = i")
    case True
    then have "cfg \<in> set (inFlight i fl)" using finish(3) by simp
    then have "0 < length (inFlight i fl)" by (metis length_pos_if_in_set)
    then have "length (inFlight i fl) = 1" using assms(3) finish(1) by (simp split: if_splits)
    with True finish \<open>cfg \<in> set (inFlight i fl)\<close> show ?thesis
      by (simp add: r executeEnd_def flag_def length_remove1)
  qed (use finish assms(3) in \<open>simp add: r executeEnd_def flag_def\<close>)
qed

section \<open>Several processes and one lock file\<close>

inductive clusterStep ::
  "'c Cron \<Rightarrow> (nat \<Rightarrow> ('e, 's, 'q, 'c) SchedulerService) \<times> fileSystem \<Rightarrow>
   (nat \<Rightarrow> ('e, 's, 'q, 'c) SchedulerService) \<times> fileSystem \<Rightarrow> bool" for cr where
  operation: "schedOp cr (procs k, fs) (s', fs') \<Longrightarrow> clusterStep cr (procs, fs) (procs(k := s'), fs')"
| stop: "shutdown cr io (procs k, fs) = (s', fs') \<Longrightarrow> clusterStep cr (procs, fs) (procs(k := s'), fs')"

definition lock_inv :: "string \<Rightarrow> (nat \<Rightarrow> ('e, 's, 'q, 'c) SchedulerService) \<times> fileSystem \<Rightarrow> bool" where
  "lock_inv p x \<longleftrightarrow> (\<forall>k. sc_leaderLockPath (fst x k) = p) \<and> (\<forall>k. sc_leaderLockHeld (fst x k) \<longrightarrow> snd x p \<noteq> None) \<and>
     (\<forall>k l. sc_leaderLockHeld (fst x k) \<longrightarrow> sc_leaderLockHeld (fst x l) \<longrightarrow> k = l)"

lemma lock_inv_step:
  assumes "clusterStep cr x y" and "p \<noteq> ''''" and "lock_inv p x"
  shows "lock_inv p y"
  using assms(1)
proof (cases rule: clusterStep.cases)
  case (operation procs k fs s' fs')
  note F = schedOp_frame[OF operation(3)]
  have p: "sc_leaderLockPath (procs k) = p" "sc_leaderLockPath s' = p" using assms(3) F(2) by (auto simp: lock_inv_def operation)
  have held: "sc_leaderLockHeld s' \<Longrightarrow> sc_leaderLockHeld (procs k) \<or> fs p = None \<and> fs' p \<noteq> None"
    using F(5) assms(2) p by simp
  note I = assms(3)[unfolded lock_inv_def operation(1) fst_conv snd_conv]
  note I = I[THEN conjunct1, THEN spec] I[THEN conjunct2, THEN conjunct1, THEN spec, THEN mp]
    I[THEN conjunct2, THEN conjunct2, THEN spec, THEN spec, THEN mp, THEN mp]
  have keep: "fs p \<noteq> None \<Longrightarrow> fs' p \<noteq> None" by (rule contrapos_nn[OF _ F(4)])
  have new: "l = k" if "sc_leaderLockHeld s'" "sc_leaderLockHeld (procs l)" for l
    using held[OF that(1)] I(2)[of l] I(3)[of l k] that(2) by blast
  have "(procs(k := s')) l = s' \<or> (procs(k := s')) l = procs l" for l by simp
  then have "sc_leaderLockHeld ((procs(k := s')) l) \<Longrightarrow> fs' p \<noteq> None" for l
    using held keep I(2)[of l] I(2)[of k] by (cases "l = k") auto
  moreover have "l = m" if "sc_leaderLockHeld ((procs(k := s')) l)" "sc_leaderLockHeld ((procs(k := s')) m)" for l m
    using that(1,2)[unfolded fun_upd_apply] new[of l] new[of m] I(3)[of l m] by presburger
  moreover have "sc_leaderLockPath ((procs(k := s')) l) = p" for l using I(1) p(2) by simp
  ultimately show ?thesis unfolding lock_inv_def operation fst_conv snd_conv by blast
next
  case (stop io procs k fs s' fs')
  have p: "sc_leaderLockPath (procs k) = p" using assms(3) by (simp add: lock_inv_def stop)
  show ?thesis
  proof (cases "sc_leaderLockHeld (procs k)")
    case True
    then have "\<forall>l. l \<noteq> k \<longrightarrow> \<not> sc_leaderLockHeld (procs l)" using assms(3) by (auto simp: lock_inv_def stop)
    moreover have "sc_leaderLockPath s' = p" "\<not> sc_leaderLockHeld s'"
      using stop(3) True assms(2) p by (auto simp: shutdown_def releaseLeaderLock_def)
    ultimately show ?thesis using assms(3) by (auto simp: lock_inv_def stop)
  next
    case False
    then have "s' = (procs k)\<lparr>sc_cronEngine := cr_Stop cr (sc_cronEngine (procs k))\<rparr>" "fs' = fs"
      using stop(3) by (auto simp: shutdown_def releaseLeaderLock_def)
    with False assms(3) show ?thesis by (auto simp: lock_inv_def stop)
  qed
qed

section \<open>The schedule file\<close>

text \<open>Reading back what was persisted gives the same schedules and the same paused workflows.\<close>

lemma load_after_persist:
  assumes ok: "sched_ok entries s" and path: "sc_scheduleStore s \<noteq> ''''" "sc_scheduleStore s2 = sc_scheduleStore s"
    and ord: "iterates (se_jobsOrd e) (sc_jobs s)" "iterates (se_pausedOrd e) (sc_paused s)"
    and codec: "codecExact (se_codec e) (schedulesOf e s)" "se_codec e2 = se_codec e"
    and persist: "persistLocked e fs s = (None, fs')" and io: "io_read (se_io e2) = None"
  shows "loadLocked e2 fs' s2 = (None, s2\<lparr>sc_jobs := sc_jobs s, sc_paused := sc_paused s\<rparr>)"
proof -
  note S = sched_okD[OF ok]
  obtain bytes where m: "co_Marshal (se_codec e) (schedulesOf e s) = Inr bytes"
    and u: "co_Unmarshal (se_codec e) bytes = Inr (schedulesOf e s)" using codec(1) by (auto simp: codecExact_def)
  have w: "osWriteFile (se_io e) (sc_scheduleStore s) bytes fs = (None, fs')"
    using persist path(1) m by (simp add: persistLocked_def split: option.splits)
  have keys: "\<forall>i cfg. sc_jobs s i = Some cfg \<longrightarrow> s_WorkflowID cfg = i" using S(2) by blast
  have "fold (\<lambda>cfg m. m(s_WorkflowID cfg \<mapsto> cfg)) (pd_Jobs (schedulesOf e s)) Map.empty = sc_jobs s"
  proof (rule fold_file_exact[OF _ _ keys])
    show "set (pd_Jobs (schedulesOf e s)) = ran (sc_jobs s)"
      using set_rangeValues_iterates[OF ord(1)] by (simp add: schedulesOf_def)
    have "distinct (se_jobsOrd e)" using ord(1) by (simp add: iterates_def)
    then show "distinct (map s_WorkflowID (pd_Jobs (schedulesOf e s)))"
      using distinct_keys_rangeValues[OF keys] by (simp add: schedulesOf_def)
  qed
  moreover have "fold (\<lambda>i m. m(i \<mapsto> True)) (pd_Paused (schedulesOf e s)) Map.empty = sc_paused s"
  proof
    fix i
    show "fold (\<lambda>i m. m(i \<mapsto> True)) (pd_Paused (schedulesOf e s)) Map.empty i = sc_paused s i"
      using ord(2) S(3)[of i] by (cases "sc_paused s i") (auto simp: fold_true schedulesOf_def iterates_def flag_def)
  qed
  ultimately show ?thesis
    using path read_after_write[OF w io] u codec(2) by (simp add: loadLocked_def)
qed

end
