(* ===== verification/EngineProperties.thy ===== *)
theory EngineProperties
  imports Executor
begin

text \<open>
  The properties of the engine (validation, conditions and templates, task retries, the scheduling loop,
  whole runs), each with an instance on a small pipeline.
\<close>

section \<open>A pipeline to instantiate the properties\<close>

definition exampleTask :: "string \<Rightarrow> string \<Rightarrow> string list \<Rightarrow> TaskNode" where
  "exampleTask i act deps = zeroTaskNode\<lparr>t_ID := i, t_Action := act, t_DependsOn := deps\<rparr>"

definition examplePipeline :: "string \<Rightarrow> Workflow" where
  "examplePipeline testAction =
     \<lparr>w_ID = ''deploy'', w_Name = ''deploy'', w_Description = '''', w_Version = ''v1'', w_MaxConcurrency = 2,
      w_FailFast = True, w_CompensateOnFailure = True, w_Timeout = 0,
      w_Tasks = [(exampleTask ''build'' ''ok'' [])\<lparr>t_Compensation := \<lparr>c_Action = ''ok'', c_Input = [], c_Timeout = 0\<rparr>\<rparr>,
                 exampleTask ''test'' testAction [''build''],
                 exampleTask ''ship'' ''ok'' [''test''],
                 exampleTask ''page'' ''ok'' [''test'']\<lparr>t_Condition := ''on_failed:test''\<rparr>]\<rparr>"

definition exampleRegistry :: "unit Registry" where
  "exampleRegistry =
     Register ''ok'' (\<lambda>_ _. Inr ''done'') (Register ''boom'' (\<lambda>_ _. Inl (ExecError ''boom'' False)) NewRegistry)"

definition exampleTaskEnv :: "unit taskEnv" where
  "exampleTaskEnv = \<lparr>te_now = (\<lambda>n. int n), te_exec = (\<lambda>_. ()), te_wait = (\<lambda>_. None)\<rparr>"

definition exampleIDs :: "string list" where
  "exampleIDs = [''build'', ''test'', ''ship'', ''page'']"

definition exampleEnv :: "unit runEnv" where
  "exampleEnv =
     \<lparr>re_idNow = 0, re_startedAt = 1, re_firstSave = \<lparr>oe_now = (\<lambda>_. 0), oe_ord = []\<rparr>,
      re_finalSave = \<lparr>oe_now = (\<lambda>_. 0), oe_ord = []\<rparr>, re_depsOrd = exampleIDs, re_clk = (\<lambda>n. 10 + int n),
      re_events = replicate 4 (Recv 0 exampleTaskEnv), re_markNow = 50, re_finishedAt = 60,
      re_statusOrd = exampleIDs, re_errorOrd = exampleIDs, re_compOrd = exampleIDs, re_metricsOrd = exampleIDs,
      re_comp = (\<lambda>_. \<lparr>ce_now = (\<lambda>n. 70 + int n), ce_exec = ()\<rparr>)\<rparr>"

definition exampleLoop :: "string \<Rightarrow> nat \<Rightarrow> loopOutcome" where
  "exampleLoop testAction n =
     runLoop exampleRegistry (examplePipeline testAction) (re_clk exampleEnv)
       (initState (examplePipeline testAction) exampleIDs) (replicate n (Recv 0 exampleTaskEnv))"

definition exampleState :: "string \<Rightarrow> nat \<Rightarrow> execState" where
  "exampleState testAction n = the (outcomeState (exampleLoop testAction n))"

lemma example_valid: "ValidateWorkflow (examplePipeline ''ok'') = None" "ValidateWorkflow (examplePipeline ''boom'') = None"
  by code_simp+

lemma example_ids: "distinct exampleIDs" "set exampleIDs = taskIDs (examplePipeline a)"
  by (auto simp: exampleIDs_def examplePipeline_def exampleTask_def)

lemma example_envOk: "runEnvOk (examplePipeline a) exampleEnv"
  using example_ids by (simp add: runEnvOk_def exampleEnv_def)

lemma example_resolves: "inputsResolve (examplePipeline a)" "compensationsResolve (examplePipeline a)"
  by (auto simp: inputsResolve_def compensationsResolve_def examplePipeline_def exampleTask_def zeroTaskNode_def
      zeroCompensationSpec_def)

lemma example_reachable:
  assumes "outcomeState (exampleLoop a n) \<noteq> None"
  shows "reachable exampleRegistry (examplePipeline a) (re_clk exampleEnv) exampleIDs (exampleState a n)"
proof -
  have "outcomeState (exampleLoop a n) = Some (exampleState a n)" using assms by (auto simp: exampleState_def)
  then show ?thesis unfolding exampleLoop_def by (rule runLoop_reachable)
qed

lemma example_running: "reachable exampleRegistry (examplePipeline ''ok'') (re_clk exampleEnv) exampleIDs (exampleState ''ok'' 1)"
  by (rule example_reachable) code_simp

lemma example_failed: "reachable exampleRegistry (examplePipeline ''boom'') (re_clk exampleEnv) exampleIDs (exampleState ''boom'' 2)"
  by (rule example_reachable) code_simp

lemma example_facts:
  "map fst (x_active (exampleState ''ok'' 1)) = [''test'']"
  "map_option tr_Status (x_results (exampleState ''boom'' 2) ''test'') = Some TaskStatusFailed"
  "map_option tr_Status (x_results (exampleState ''boom'' 2) ''ship'') = Some TaskStatusSkipped"
  by code_simp+

section \<open>Validation\<close>

text \<open>C7. \<^verbatim>\<open>ValidateWorkflow\<close> accepts exactly the well-formed workflows: an id, at least one task, unique
  nonempty task ids, only known dependencies and condition targets, no negative delay or timeout, no
  compensation input without an action, and no dependency cycle.\<close>

theorem validate_accepts_exactly_valid: "ValidateWorkflow w = None \<longleftrightarrow> valid_workflow w"
  by (rule ValidateWorkflow_iff)

text \<open>C8. The depth-first search of \<^verbatim>\<open>hasCycle\<close> finds a cycle exactly when the dependency relation has
  one, in whatever order \<^verbatim>\<open>range adj\<close> yields the nodes.\<close>

theorem cycle_check_exact:
  assumes "set ord = set (map fst (buildAdj tasks []))"
  shows "hasCycleOrder ord tasks \<longleftrightarrow> \<not> acyclic (depends tasks)"
  using assms by (rule hasCycleOrder_iff)

theorem cycle_check_exact_witness:
  "\<not> acyclic (depends [exampleTask ''a'' ''ok'' [''b''], exampleTask ''b'' ''ok'' [''a'']])"
proof -
  let ?ts = "[exampleTask ''a'' ''ok'' [''b''], exampleTask ''b'' ''ok'' [''a'']]"
  have s: "set [''b'', ''a''] = set (map fst (buildAdj ?ts []))" by code_simp
  have "hasCycleOrder [''b'', ''a''] ?ts" by code_simp
  with cycle_check_exact[OF s] show ?thesis by blast
qed

section \<open>Templates\<close>



text \<open>Resolution does not end for a reference to a recorded error that contains the same reference: the
  loop inserts it again for ever, and with it the run.\<close>

theorem resolve_self_reference_never_returns:
  assumes "plainName i" and "results i = Some res" and "tr_Error res = p @ ''${'' @ i @ ''.error}'' @ q"
    and "CHR ''$'' \<notin> set p"
  shows "resolveValue (''${'' @ i @ ''.error}'') results = None"
  using assms by (rule resolveValue_self_reference)

theorem resolve_self_reference_never_returns_witness:
  "resolveValue ''${S.error}'' [''S'' \<mapsto> zeroTaskResult\<lparr>tr_Error := ''condition not met: output_contains:A:${S.error}''\<rparr>] = None"
proof -
  let ?err = "''condition not met: output_contains:A:${S.error}''"
  have "plainName ''S''" by code_simp
  then have "resolveValue (''${'' @ ''S'' @ ''.error}'') [''S'' \<mapsto> zeroTaskResult\<lparr>tr_Error := ?err\<rparr>] = None"
    by (rule resolve_self_reference_never_returns[where p = "''condition not met: output_contains:A:''" and q = "[]"
          and res = "zeroTaskResult\<lparr>tr_Error := ?err\<rparr>"]) simp_all
  then show ?thesis by simp
qed

section \<open>Retries\<close>


definition exampleRetryTask :: TaskNode where
  "exampleRetryTask = (exampleTask ''t'' ''a'' [])\<lparr>t_RetryPolicy := \<lparr>rp_MaxAttempts = 3, rp_BackoffBase = 0\<rparr>\<rparr>"

definition exampleRetryEnv :: "nat taskEnv" where
  "exampleRetryEnv = \<lparr>te_now = (\<lambda>_. 0), te_exec = (\<lambda>n. n), te_wait = (\<lambda>_. None)\<rparr>"

definition flakyAction :: "nat action" where
  "flakyAction n input = (if n < 3 then Inl (ExecError ''busy'' False) else Inr ''done'')"


section \<open>The scheduling loop\<close>

text \<open>C5. In every reachable state of the loop at most \<^verbatim>\<open>MaxConcurrency\<close> tasks run (one, when the workflow
  sets none), each task of the workflow is in at most one of the ready list, the running tasks and the
  recorded results, and the counter \<^verbatim>\<open>completed\<close> is the number of recorded results.\<close>

theorem loop_state_consistent:
  assumes "ValidateWorkflow w = None" and "distinct ord" and "set ord = taskIDs w"
    and "reachable reg w clk ord s"
  shows "int (length (x_active s)) \<le> maxConcurrency w \<and>
    distinct (x_ready s @ map fst (x_active s)) \<and>
    set (x_ready s @ map fst (x_active s)) \<inter> dom (x_results s) = {} \<and>
    set (x_ready s @ map fst (x_active s)) \<union> dom (x_results s) \<subseteq> taskIDs w \<and>
    x_completed s = card (dom (x_results s))"
proof -
  have inv: "sched_inv w [] s" using reachable_inv[OF valid_wellFormed assms(2-4)] assms(1) by blast
  show ?thesis
    using sched_invD[OF inv] reachable_concurrency[OF assms(4)] by (simp add: pending_def)
qed

theorem loop_state_consistent_witness:
  "int (length (x_active (exampleState ''ok'' 1))) \<le> 2"
proof -
  have "maxConcurrency (examplePipeline ''ok'') = 2" by (simp add: maxConcurrency_def examplePipeline_def)
  with loop_state_consistent[OF example_valid(1) example_ids example_running] show ?thesis by simp
qed

text \<open>C3. A task is started only after every task it depends on has its result, is the workflow's own task
  with nothing but its input changed, and is never one that a failure upstream blocks: no task with a
  failed ancestor (one that does not allow failure) runs.\<close>

theorem started_after_dependencies:
  assumes "ValidateWorkflow w = None" and "distinct ord" and "set ord = taskIDs w"
    and "reachable reg w clk ord s" and "(i, task) \<in> set (x_active s)"
  shows "set (t_DependsOn (lookupTask w i)) \<subseteq> dom (x_results s) \<and>
    (\<exists>input. task = (lookupTask w i)\<lparr>t_Input := input\<rparr>) \<and>
    (\<forall>d res. (d, i) \<in> (depends (w_Tasks w))\<^sup>+ \<and> x_results s d = Some res \<and> tr_Status res = TaskStatusFailed \<longrightarrow>
       t_AllowFailure (lookupTask w d))"
proof -
  have w: "wellFormed w" by (rule valid_wellFormed[OF assms(1)])
  have inv: "sched_inv w [] s" and fi: "fail_inv w s" using reachable_inv[OF w assms(2-4)] by blast+
  have deps: "unfinishedDeps w s i = []"
    using started_deps_finished[OF inv, of i] assms(5) by (force simp: pending_def)
  have "t_AllowFailure (lookupTask w d)"
    if "(d, i) \<in> (depends (w_Tasks w))\<^sup>+" "x_results s d = Some res" "tr_Status res = TaskStatusFailed" for d res
    using blocked_by_ancestor[OF w inv fi that(1,2) _ deps] fail_invD(4)[OF fi assms(5)] that(3)
    by (auto simp: failedHard_def)
  then show ?thesis
    using deps fail_invD(4)[OF fi assms(5)] by (auto simp: unfinishedDeps_def filter_empty_conv)
qed

theorem started_after_dependencies_witness:
  "set (t_DependsOn (lookupTask (examplePipeline ''ok'') ''test'')) \<subseteq> dom (x_results (exampleState ''ok'' 1))"
proof -
  have "''test'' \<in> set (map fst (x_active (exampleState ''ok'' 1)))" unfolding example_facts by simp
  then obtain task where "(''test'', task) \<in> set (x_active (exampleState ''ok'' 1))" by auto
  from started_after_dependencies[OF example_valid(1) example_ids example_running this] show ?thesis by blast
qed

text \<open>C4. Failures travel along the dependencies: once a task has failed that does not allow failure, every
  direct or indirect dependent that gets a result in the loop is skipped with the reason ``skipped due to
  upstream failure''.\<close>

theorem upstream_failure_skips_dependents:
  assumes "ValidateWorkflow w = None" and "distinct ord" and "set ord = taskIDs w"
    and "reachable reg w clk ord s" and "(d, i) \<in> (depends (w_Tasks w))\<^sup>+"
    and "x_results s d = Some res" and "tr_Status res = TaskStatusFailed" and "\<not> t_AllowFailure (lookupTask w d)"
    and "x_results s i = Some r"
  shows "tr_Status r = TaskStatusSkipped \<and> tr_Error r = ''skipped due to upstream failure''"
proof -
  have w: "wellFormed w" by (rule valid_wellFormed[OF assms(1)])
  have inv: "sched_inv w [] s" and fi: "fail_inv w s" using reachable_inv[OF w assms(2-4)] by blast+
  have "unfinishedDeps w s i = []" using started_deps_finished[OF inv, of i] assms(9) by blast
  then have "x_blocked s i"
    using blocked_by_ancestor[OF w inv fi assms(5,6)] assms(7,8) by (simp add: failedHard_def)
  with fail_invD(3)[OF fi assms(9)] show ?thesis by (simp add: skippedUpstream_def)
qed

theorem upstream_failure_skips_dependents_witness:
  "map_option tr_Error (x_results (exampleState ''boom'' 2) ''ship'') = Some ''skipped due to upstream failure''"
proof -
  let ?w = "examplePipeline ''boom''"
  obtain res where res: "x_results (exampleState ''boom'' 2) ''test'' = Some res" "tr_Status res = TaskStatusFailed"
    using example_facts(2) by auto
  obtain r where r: "x_results (exampleState ''boom'' 2) ''ship'' = Some r" using example_facts(3) by auto
  have "(''test'', ''ship'') \<in> (depends (w_Tasks ?w))\<^sup>+"
    by (rule r_into_trancl) (auto simp: depends_def examplePipeline_def exampleTask_def)
  moreover have "\<not> t_AllowFailure (lookupTask ?w ''test'')" by code_simp
  ultimately have "tr_Error r = ''skipped due to upstream failure''"
    using upstream_failure_skips_dependents[OF example_valid(2) example_ids example_failed _ res _ r] by blast
  with r show ?thesis by simp
qed

text \<open>A recorded result is final: along any further steps of the loop it is neither changed nor removed,
  so no task is run a second time.\<close>

theorem results_are_final:
  assumes "ValidateWorkflow w = None" and "distinct ord" and "set ord = taskIDs w"
    and "reachable reg w clk ord s" and "(sched_step reg w clk)\<^sup>*\<^sup>* s s'" and "x_results s i = Some res"
  shows "x_results s' i = Some res \<and> i \<notin> set (map fst (x_active s'))"
proof -
  have w: "wellFormed w" by (rule valid_wellFormed[OF assms(1)])
  have inv: "sched_inv w [] s" using reachable_inv[OF w assms(2-4)] by blast
  have "x_results s' i = Some res"
    using reach_results_mono[OF w assms(5) inv] assms(6) by (metis domI map_le_def)
  moreover from this have "i \<notin> set (map fst (x_active s'))"
    using sched_invD(3)[OF reach_inv[OF w assms(5) inv]] by (auto simp: pending_def)
  ultimately show ?thesis by blast
qed

theorem results_are_final_witness: "''build'' \<notin> set (map fst (x_active (exampleState ''ok'' 1)))"
proof -
  have "x_results (exampleState ''ok'' 1) ''build'' \<noteq> None" by code_simp
  then obtain res where "x_results (exampleState ''ok'' 1) ''build'' = Some res" by blast
  with results_are_final[OF example_valid(1) example_ids example_running rtranclp.rtrancl_refl] show ?thesis by blast
qed

text \<open>The fail-fast flag is set exactly when the workflow asks for it and some recorded task has
  failed that does not allow failure.\<close>

theorem fail_fast_exact:
  assumes "ValidateWorkflow w = None" and "distinct ord" and "set ord = taskIDs w"
    and "reachable reg w clk ord s"
  shows "x_failFast s \<longleftrightarrow> w_FailFast w \<and> (\<exists>i res. x_results s i = Some res \<and>
    tr_Status res = TaskStatusFailed \<and> \<not> t_AllowFailure (lookupTask w i))"
  using reachable_failFast[OF valid_wellFormed[OF assms(1)] assms(2-4)] by (simp add: failedHard_def)

theorem fail_fast_exact_witness: "x_failFast (exampleState ''boom'' 2)"
proof -
  have "w_FailFast (examplePipeline ''boom'')" "\<not> t_AllowFailure (lookupTask (examplePipeline ''boom'') ''test'')"
    by code_simp+
  moreover obtain res where "x_results (exampleState ''boom'' 2) ''test'' = Some res" "tr_Status res = TaskStatusFailed"
    using example_facts(2) by auto
  ultimately show ?thesis using fail_fast_exact[OF example_valid(2) example_ids example_failed] by blast
qed

lemma estep_active_condition:
  assumes "estep reg w s s'" and "(i, task) \<in> set (x_active s')" and "(i, task) \<notin> set (x_active s)"
  shows "\<not> x_blocked s i \<and> fst (evaluateCondition (lookupTask w i) (x_results s))"
  using assms by (auto elim!: estepE dest: set_dropIndex[THEN subsetD])

text \<open>A task with the condition \<^verbatim>\<open>on_failed:A\<close> that also depends on \<open>A\<close> never runs unless \<open>A\<close> allows
  failure: when \<open>A\<close> fails the task is blocked, when it does not the condition is false.\<close>

theorem on_failed_dependent_never_starts:
  assumes "ValidateWorkflow w = None" and "distinct ord" and "set ord = taskIDs w"
    and "reachable reg w clk ord s"
    and "i \<in> taskIDs w" and "hasPrefix (trimSpace (t_Condition (lookupTask w i))) ''on_failed:''"
    and "trimSpace (drop 10 (trimSpace (t_Condition (lookupTask w i)))) \<in> set (t_DependsOn (lookupTask w i))"
    and "\<not> t_AllowFailure (lookupTask w (trimSpace (drop 10 (trimSpace (t_Condition (lookupTask w i))))))"
  shows "i \<notin> set (map fst (x_active s))"
  using assms(4)
proof (induction rule: rtranclp_induct)
  case base
  then show ?case by (simp add: initState_def)
next
  case (step s s')
  have w: "wellFormed w" by (rule valid_wellFormed[OF assms(1)])
  have fi: "fail_inv w s" using reachable_inv[OF w assms(2,3) step(1)] by blast
  show ?case
  proof
    assume "i \<in> set (map fst (x_active s'))"
    then obtain task where "(i, task) \<in> set (x_active s')" by auto
    moreover have "(i, task) \<notin> set (x_active s)" using step(3) by force
    ultimately have nb: "\<not> x_blocked s i" and c: "fst (evaluateCondition (lookupTask w i) (x_results s))"
      using estep_active_condition[OF sched_step_estep[OF step(2)]] by blast+
    from c evaluateCondition_on_failed[OF assms(6)] obtain res where
      "x_results s (trimSpace (drop 10 (trimSpace (t_Condition (lookupTask w i))))) = Some res"
      "tr_Status res = TaskStatusFailed" by auto
    with fail_invD(1)[OF fi assms(5,7)] nb assms(8) show False by (auto simp: failedHard_def)
  qed
qed

theorem on_failed_dependent_never_starts_witness:
  "''page'' \<notin> set (map fst (x_active (exampleState ''boom'' 2)))"
proof (rule on_failed_dependent_never_starts[OF example_valid(2) example_ids example_failed])
  show "''page'' \<in> taskIDs (examplePipeline ''boom'')" by (simp add: examplePipeline_def exampleTask_def)
qed code_simp+

section \<open>Whole runs\<close>


definition exampleExecutor :: "(unit, MemoryStore) Executor" where
  "exampleExecutor = \<lparr>ex_registry = exampleRegistry, ex_store = Some memoryStore\<rparr>"

lemma example_events:
  "\<forall>ev \<in> set (re_events exampleEnv). \<exists>n te. ev = Recv n te"
  "length (w_Tasks (examplePipeline a)) \<le> length (re_events exampleEnv)"
  by (simp_all add: exampleEnv_def examplePipeline_def)


text \<open>C2. Whatever happens during it (cancellation, timeout, fail-fast, failures), a run that returns for a
  valid workflow has exactly one final result per task, filed under the task's id, a final status, and
  is never reported successful when a task failed; without a cancellation it is not reported cancelled.\<close>

theorem run_result_complete:
  assumes "ValidateWorkflow w = None" and "runEnvOk w env"
    and "runWithID ex env w fid rid s m = RunReturned run err s' m'"
  shows "terminalResults w (r_Results run) \<and>
    r_Status run \<in> {RunStatusSuccess, RunStatusFailed, RunStatusCancelled} \<and>
    (r_Status run = RunStatusSuccess \<longrightarrow> (\<forall>i r. r_Results run i = Some r \<longrightarrow> tr_Status r \<noteq> TaskStatusFailed)) \<and>
    (r_Status run = RunStatusCancelled \<longrightarrow> (\<exists>e. CtxDone e \<in> set (re_events env)))"
  using runWithID_results[OF assms] by blast

definition exampleReturn :: "string \<Rightarrow> MemoryStore runReturn" where
  "exampleReturn testAction =
     runWithID exampleExecutor exampleEnv (examplePipeline testAction) ''run-1'' ''req-1'' NewMemoryStore None"

lemma example_returns:
  "\<exists>run s' m'. exampleReturn ''boom'' = RunReturned run None s' m' \<and> r_Status run = RunStatusFailed \<and>
     (\<exists>r. r_Results run ''build'' = Some r \<and> tr_Status r = TaskStatusSuccess)"
proof -
  let ?w = "examplePipeline ''boom''"
  have ex: "ex_store exampleExecutor = Some memoryStore" "ex_registry exampleExecutor = exampleRegistry"
    by (simp_all add: exampleExecutor_def)
  obtain run err s' m' where ret: "runWithID exampleExecutor exampleEnv ?w ''run-1'' ''req-1'' NewMemoryStore None
      = RunReturned run err s' m'"
    using runWithID_returns[OF example_valid(2) example_envOk example_resolves example_events,
      where ex = exampleExecutor and fid = "''run-1''" and rid = "''req-1''" and s = NewMemoryStore and m = None] by blast
  have "case exampleLoop ''boom'' 4 of LoopLeft st \<Rightarrow>
      map_option tr_Status (x_results st ''test'') = Some TaskStatusFailed \<and>
      map_option tr_Status (x_results st ''build'') = Some TaskStatusSuccess | _ \<Rightarrow> False" by code_simp
  then obtain st rt rb where "exampleLoop ''boom'' 4 = LoopLeft st"
    and test: "x_results st ''test'' = Some rt" "tr_Status rt = TaskStatusFailed"
    and build: "x_results st ''build'' = Some rb" "tr_Status rb = TaskStatusSuccess"
    by (auto split: loopOutcome.splits)
  then have "runLoop (ex_registry exampleExecutor) ?w (re_clk exampleEnv) (initState ?w (re_depsOrd exampleEnv))
      (re_events exampleEnv) = LoopLeft st" by (simp add: exampleLoop_def ex exampleEnv_def)
  note keep = runWithID_keeps_results[OF example_valid(2) ret this]
  note R = runWithID_results[OF example_valid(2) example_envOk ret]
  have "r_Status run = RunStatusFailed"
    using R(2,3,5) keep[OF test(1)] test(2) example_events(1) by fastforce
  moreover have "err = None" by (rule runWithID_memory_ok[OF example_valid(2) ex(1) ret])
  ultimately show ?thesis using ret keep[OF build(1)] build(2) by (auto simp: exampleReturn_def)
qed

theorem run_result_complete_witness:
  "\<exists>run s' m'. exampleReturn ''boom'' = RunReturned run None s' m' \<and> terminalResults (examplePipeline ''boom'') (r_Results run)"
proof -
  obtain run s' m' where ret: "exampleReturn ''boom'' = RunReturned run None s' m'" using example_returns by blast
  from run_result_complete[OF example_valid(2) example_envOk ret[unfolded exampleReturn_def]] ret show ?thesis by blast
qed



text \<open>A run that returns without error is in the store exactly as it was returned.\<close>

theorem returned_run_stored:
  assumes "ValidateWorkflow w = None" and "ex_store ex = Some memoryStore"
    and "runWithID ex env w fid rid s m = RunReturned run None s' m'"
  shows "GetRun e (r_ID run) s' = Inr run"
  using mem.returned_run_is_stored[OF assms, of e] by (simp add: memoryStore_def)

theorem returned_run_stored_witness:
  "\<exists>run s' m'. exampleReturn ''boom'' = RunReturned run None s' m' \<and>
     GetRun \<lparr>oe_now = (\<lambda>_. 0), oe_ord = []\<rparr> (r_ID run) s' = Inr run"
proof -
  obtain run s' m' where ret: "exampleReturn ''boom'' = RunReturned run None s' m'" using example_returns by blast
  have "ex_store exampleExecutor = Some memoryStore" by (simp add: exampleExecutor_def)
  from returned_run_stored[OF example_valid(2) this ret[unfolded exampleReturn_def]] ret show ?thesis by blast
qed

text \<open>The metrics stay consistent: recording a returned run keeps the sums of the counters by outcome equal
  to the totals and the histogram equal to the recorded durations (modulo $2^{64}$).\<close>

theorem run_metrics_consistent:
  assumes "ValidateWorkflow w = None" and "runEnvOk w env" and "collector_inv c"
    and "runWithID ex env w fid rid s (Some c) = RunReturned run err s' (Some c')"
  shows "collector_inv c' \<and> (err = None \<longrightarrow> m_totalRuns c' = m_totalRuns c + 1)"
proof -
  note R = runWithID_results[OF assms(1,2,4)]
  have dom: "dom (r_Results run) = taskIDs w" using R(1) by (simp add: terminalResults_def)
  have "collector_inv (RecordRun (re_metricsOrd env) run c)"
    using R(1) by (intro RecordRun_inv[OF assms(3) R(2) _ runEnvOk_iterates(4)[OF assms(2) dom]])
      (auto simp: terminalResults_def ran_def)
  moreover have "c' = (if err = None then RecordRun (re_metricsOrd env) run c else c)"
    using runWithID_collector[OF assms(1,4)] by (cases err) simp_all
  moreover have "m_totalRuns (RecordRun (re_metricsOrd env) run c) = m_totalRuns c + 1"
    by (simp add: RecordRun_def Let_def countDuration_def fold_countTask fold_countCompensation)
  ultimately show ?thesis using assms(3) by simp
qed

theorem run_metrics_consistent_witness:
  "\<exists>run s' c'. runWithID exampleExecutor exampleEnv (examplePipeline ''ok'') ''run-1'' ''req-1'' NewMemoryStore
     (Some NewCollector) = RunReturned run None s' (Some c') \<and> collector_inv c' \<and> m_totalRuns c' = 1"
proof -
  let ?w = "examplePipeline ''ok''"
  have st: "ex_store exampleExecutor = Some memoryStore" by (simp add: exampleExecutor_def)
  obtain run err s' m' where ret: "runWithID exampleExecutor exampleEnv ?w ''run-1'' ''req-1'' NewMemoryStore
      (Some NewCollector) = RunReturned run err s' m'"
    using runWithID_returns[OF example_valid(1) example_envOk example_resolves example_events,
      where ex = exampleExecutor and fid = "''run-1''" and rid = "''req-1''" and s = NewMemoryStore
        and m = "Some NewCollector"] by blast
  have "err = None" by (rule runWithID_memory_ok[OF example_valid(1) st ret])
  moreover from this obtain c' where "m' = Some c'" using runWithID_collector[OF example_valid(1) ret] by auto
  ultimately show ?thesis
    using run_metrics_consistent[OF example_valid(1) example_envOk NewCollector_inv, of exampleExecutor "''run-1''"
        "''req-1''" NewMemoryStore run err s' c'] ret by (auto simp: NewCollector_def)
qed

end
