(* ===== verification/QueueProperties.thy ===== *)
theory QueueProperties
  imports Worker
begin

text \<open>
  The properties of the run queue, of the listings and of the worker, with an instance of each on a small queue.
\<close>

section \<open>A queue to instantiate the properties\<close>

definition at :: "gotime \<Rightarrow> string list \<Rightarrow> opEnv" where
  "at t ord = \<lparr>oe_now = (\<lambda>n. t + int n), oe_ord = ord\<rparr>"

definition exampleJob :: "string \<Rightarrow> RunQueueJob" where
  "exampleJob i = zeroRunQueueJob\<lparr>j_ID := i, j_WorkflowID := ''deploy'', j_RunID := ''run-'' @ i, j_MaxAttempts := 2\<rparr>"

definition enqueuedQueue :: MemoryRunQueue where
  "enqueuedQueue =
     snd (EnqueueRunJob (at 20 []) (exampleJob ''b'') (snd (EnqueueRunJob (at 10 []) (exampleJob ''a'') NewMemoryRunQueue)))"

definition leasedQueue :: MemoryRunQueue where
  "leasedQueue = snd (LeaseNextRunJob (at 30 [''b'', ''a'']) ''w1'' 100 enqueuedQueue)"

definition cancelledQueue :: MemoryRunQueue where
  "cancelledQueue = snd (CancelRunJob (at 40 []) ''b'' ''no longer needed'' leasedQueue)"

lemma example_fresh: "freshJob (exampleJob i)"
  by (simp add: freshJob_def exampleJob_def zeroRunQueueJob_def)

lemma example_dom:
  "dom (mq_jobs enqueuedQueue) = {''a'', ''b''}" "dom (mq_jobs leasedQueue) = {''a'', ''b''}"
  "iterates [''b'', ''a''] (mq_jobs enqueuedQueue)" "iterates [''b'', ''a''] (mq_jobs leasedQueue)"
proof -
  show d: "dom (mq_jobs enqueuedQueue) = {''a'', ''b''}"
    by (simp add: enqueuedQueue_def EnqueueRunJob_def Let_def exampleJob_def zeroRunQueueJob_def NewMemoryRunQueue_def
        appendTransition_def putJob_def insert_commute)
  then show it: "iterates [''b'', ''a''] (mq_jobs enqueuedQueue)" by (auto simp: iterates_def)
  have "queue_inv enqueuedQueue"
    unfolding enqueuedQueue_def by (intro inv_intros example_fresh)
  have "case fst (LeaseNextRunJob (at 30 [''b'', ''a'']) ''w1'' 100 enqueuedQueue) of Inl _ \<Rightarrow> False | Inr _ \<Rightarrow> True"
    by code_simp
  then obtain j where "fst (LeaseNextRunJob (at 30 [''b'', ''a'']) ''w1'' 100 enqueuedQueue) = Inr j"
    by (auto split: sum.splits)
  then have lease: "LeaseNextRunJob (at 30 [''b'', ''a'']) ''w1'' 100 enqueuedQueue = (Inr j, leasedQueue)"
    by (simp only: leasedQueue_def prod_eq_iff fst_conv snd_conv)
  have it': "iterates (oe_ord (at 30 [''b'', ''a''])) (mq_jobs enqueuedQueue)" using it by (simp add: at_def)
  obtain j0 where j0: "mq_jobs enqueuedQueue (j_ID j) = Some j0"
    and q: "leasedQueue = appendTransition (oe_now (at 30 [''b'', ''a'']) 1) (j_ID j) (j_Status j0) (j_Status j) ''leased''
      ''w1'' (putJob (j_ID j) j enqueuedQueue)"
    by (rule LeaseNext_Inr[OF \<open>queue_inv enqueuedQueue\<close> it' lease])
  have "mq_jobs leasedQueue = (mq_jobs enqueuedQueue)(j_ID j \<mapsto> j)" by (subst q) (rule moveJob_simps(1))
  moreover have "j_ID j \<in> dom (mq_jobs enqueuedQueue)" using j0 by (rule domI)
  ultimately have "dom (mq_jobs leasedQueue) = dom (mq_jobs enqueuedQueue)" by (simp add: insert_absorb)
  with d show d': "dom (mq_jobs leasedQueue) = {''a'', ''b''}" by auto
  then show "iterates [''b'', ''a''] (mq_jobs leasedQueue)" by (auto simp: iterates_def)
qed

lemma example_reach: "mqreach enqueuedQueue" "mqreach leasedQueue" "mqreach cancelledQueue"
proof -
  have "mqreach NewMemoryRunQueue" by simp
  then have "mqreach (snd (EnqueueRunJob (at 10 []) (exampleJob ''a'') NewMemoryRunQueue))"
    by (rule rtranclp.rtrancl_into_rtrancl) (rule mqstep.enqueue[OF example_fresh])
  then show e: "mqreach enqueuedQueue" unfolding enqueuedQueue_def
    by (rule rtranclp.rtrancl_into_rtrancl) (rule mqstep.enqueue[OF example_fresh])
  then show l: "mqreach leasedQueue" unfolding leasedQueue_def
    by (rule rtranclp.rtrancl_into_rtrancl) (intro mqstep.lease, use example_dom(3) in \<open>simp add: at_def\<close>)
  then show "mqreach cancelledQueue" unfolding cancelledQueue_def
    by (rule rtranclp.rtrancl_into_rtrancl) (rule mqstep.cancel)
qed

lemma example_jobs:
  "map_option j_Status (mq_jobs enqueuedQueue ''a'') = Some RunJobStatusQueued"
  "map_option (\<lambda>j. (j_Status j, j_LeaseOwner j, j_LeaseUntil j, j_Attempts j)) (mq_jobs leasedQueue ''a'') =
     Some (RunJobStatusLeased, ''w1'', 130, 1)"
  "map_option j_Status (mq_jobs cancelledQueue ''b'') = Some RunJobStatusCancelled"
  by code_simp+

section \<open>The life of a job\<close>

text \<open>C27. In every reachable queue the recorded transitions of a job are a path of legal status changes from its
  enqueuing to its current status; \<^verbatim>\<open>Attempts\<close> is the number of leases and \<^verbatim>\<open>ReplayCount\<close> the number of
  replays on that path; a job that is not leased has no lease owner and no lease time.\<close>

theorem job_history_consistent:
  assumes "mqreach q" and "mq_jobs q i = Some j"
  shows "j_ID j = i \<and> chained RunJobStatusUnset (transitionsOf q i) (j_Status j) \<and>
    (\<forall>t \<in> set (transitionsOf q i). tn_JobID t = i) \<and>
    j_Attempts j = leaseCount (transitionsOf q i) \<and> j_ReplayCount j = replayCount (transitionsOf q i) \<and>
    (j_Status j \<noteq> RunJobStatusLeased \<longrightarrow> j_LeaseOwner j = '''' \<and> j_LeaseUntil j = 0)"
  using queue_invD[OF mqreach_inv[OF assms(1)] assms(2)] by (auto simp: job_ok_def lease_ok_def)

theorem job_history_consistent_witness:
  "\<exists>j. mq_jobs leasedQueue ''a'' = Some j \<and> chained RunJobStatusUnset (transitionsOf leasedQueue ''a'') RunJobStatusLeased"
proof -
  obtain j where "mq_jobs leasedQueue ''a'' = Some j" "j_Status j = RunJobStatusLeased" using example_jobs(2) by auto
  with job_history_consistent[OF example_reach(2)] show ?thesis by fastforce
qed

definition board :: "MemoryRunQueue \<Rightarrow> string \<rightharpoonup> RunJobStatus" where
  "board q i = map_option j_Status (mq_jobs q i)"

inductive board_step :: "(string \<rightharpoonup> RunJobStatus) \<Rightarrow> (string \<rightharpoonup> RunJobStatus) \<Rightarrow> bool" where
  same: "board_step b b"
| add: "b i = None \<Longrightarrow> board_step b (b(i \<mapsto> RunJobStatusQueued))"
| move: "b i = Some st \<Longrightarrow> legal st st' \<Longrightarrow> board_step b (b(i \<mapsto> st'))"
| remove: "board_step b (b |` A)"

lemma board_put [simp]:
  "board (appendTransition now i a b reason actor (putJob i j q)) = (board q)(i \<mapsto> j_Status j)"
  "board (putJob i j q) = (board q)(i \<mapsto> j_Status j)"
  by (auto simp: board_def qsimps)

lemma board_move:
  assumes "mq_jobs q i = Some j0" and "legal (j_Status j0) st"
  shows "board_step (board q) ((board q)(i \<mapsto> st))"
  using assms by (intro board_step.move) (simp_all add: board_def)

lemma board_same: "mq_jobs q i = Some j0 \<Longrightarrow> board_step (board q) ((board q)(i \<mapsto> j_Status j0))"
  using board_step.same[of "board q"] by (simp add: board_def fun_upd_idem)

lemma queue_refines_board_aux:
  assumes "mqstep q q'" and "queue_inv q"
  shows "board_step (board q) (board q')"
  using assms(1)
proof (cases rule: mqstep.cases)
  case (enqueue job e)
  show ?thesis
  proof (cases "mq_jobs q (j_ID job)")
    case None
    then have "board q' = (board q)(j_ID job \<mapsto> RunJobStatusQueued)"
      using enqueue by (auto simp: EnqueueRunJob_new stored_def freshJob_def)
    with None show ?thesis by (simp add: board_step.add board_def)
  next
    case (Some j)
    with enqueue show ?thesis by (simp add: EnqueueRunJob_def board_step.same)
  qed
next
  case (lease e wid d)
  obtain r q2 where r: "LeaseNextRunJob e wid d q = (r, q2)" by fastforce
  show ?thesis
  proof (cases r)
    case (Inl err)
    with r have "q2 = q" using LeaseNext_Inl[OF lease(2)] by blast
    with r lease(1) show ?thesis by (simp add: board_step.same)
  next
    case (Inr job)
    obtain j0 where j0: "mq_jobs q (j_ID job) = Some j0" "leasable (oe_now e 0) j0" "job = leaseOf e wid d j0"
      and q2: "q2 = appendTransition (oe_now e 1) (j_ID job) (j_Status j0) (j_Status job) ''leased'' wid (putJob (j_ID job) job q)"
      by (rule LeaseNext_Inr[OF assms(2) lease(2) r[unfolded Inr]])
    have "board q' = (board q)(j_ID job \<mapsto> RunJobStatusLeased)"
      using j0(3) q2 r lease(1) by (simp add: leaseOf_def)
    moreover have "legal (j_Status j0) RunJobStatusLeased" using j0(2) by (auto simp: leasable_def)
    ultimately show ?thesis using board_move[OF j0(1)] by simp
  qed
next
  case (purge e status olderThan limit)
  let ?A = "- pc_id ` set (purgeVictims e status olderThan limit q)"
  have "board q' = board q |` ?A"
    by (auto simp: purge PurgeRunJobs_eq Let_def board_def restrict_map_def fun_eq_iff)
  then show ?thesis by (simp add: board_step.remove)
next
  case (cancel e i reason)
  then show ?thesis
    using cancel_legal[OF assms(2)]
    by (auto simp: CancelRunJob_def Let_def board_step.same split: option.splits intro!: board_move)
qed (auto simp: ExtendRunJobLease_def CompleteRunJob_def RetryRunJob_def FailRunJob_def DeadLetterRunJob_def
      RequeueRunJob_def Let_def board_step.same split: option.splits intro!: board_move board_same)

lemma board_steps:
  assumes "mqstep\<^sup>*\<^sup>* q q'" and "mqreach q"
  shows "mqreach q' \<and> board_step\<^sup>*\<^sup>* (board q) (board q')"
  using assms(1)
proof induction
  case (step q1 q2)
  then have "board_step (board q1) (board q2)" using queue_refines_board_aux mqreach_inv by blast
  with step show ?case by (meson rtranclp.rtrancl_into_rtrancl)
qed (use assms(2) in simp)

lemma dom_board [simp]: "dom (board q) = dom (mq_jobs q)"
  by (auto simp: board_def)

text \<open>C26. The queue implements an abstract board of job statuses: every operation either leaves the board as it
  is, adds a queued job, moves one job along a legal status change, or removes jobs.\<close>

theorem queue_refines_board:
  assumes "mqstep q q'" and "mqreach q"
  shows "board_step (board q) (board q')"
  by (rule queue_refines_board_aux[OF assms(1) mqreach_inv[OF assms(2)]])

theorem queue_refines_board_witness: "board_step (board enqueuedQueue) (board leasedQueue)"
proof -
  have "mqstep enqueuedQueue leasedQueue"
    unfolding leasedQueue_def by (rule mqstep.lease) (use example_dom(3) in \<open>simp add: at_def\<close>)
  then show ?thesis by (rule queue_refines_board[OF _ example_reach(1)])
qed



section \<open>Leases\<close>

text \<open>C29. Leasing hands out a job that was available (queued and due, or leased and expired), no available job
  was created earlier, and the lease is recorded for the worker until the reading of the clock plus the duration
  with one more attempt; no other job changes. It fails exactly when no job is available.\<close>

theorem lease_takes_oldest_available:
  assumes "mqreach q" and "iterates (oe_ord e) (mq_jobs q)"
  shows "case LeaseNextRunJob e wid d q of
      (Inl err, q') \<Rightarrow> q' = q \<and> (\<forall>i j. mq_jobs q i = Some j \<longrightarrow> \<not> leasable (oe_now e 0) j)
    | (Inr j, q') \<Rightarrow> \<exists>j0. mq_jobs q (j_ID j) = Some j0 \<and> leasable (oe_now e 0) j0 \<and>
        (\<forall>k jk. mq_jobs q k = Some jk \<and> leasable (oe_now e 0) jk \<longrightarrow> j_CreatedAt j0 \<le> j_CreatedAt jk) \<and>
        leasedBy wid j0 j \<and> j_LeaseUntil j = oe_now e 0 + d \<and> mq_jobs q' = (mq_jobs q)(j_ID j \<mapsto> j)"
proof (cases "LeaseNextRunJob e wid d q")
  case (Pair r q')
  show ?thesis
  proof (cases r)
    case (Inl err)
    with Pair LeaseNext_Inl[OF assms(2), of wid d err q'] show ?thesis by simp
  next
    case (Inr j)
    obtain j0 where j0: "mq_jobs q (j_ID j) = Some j0" "leasable (oe_now e 0) j0" "j = leaseOf e wid d j0"
      "\<forall>k jk. mq_jobs q k = Some jk \<and> leasable (oe_now e 0) jk \<longrightarrow> j_CreatedAt j0 \<le> j_CreatedAt jk"
      and q': "q' = appendTransition (oe_now e 1) (j_ID j) (j_Status j0) (j_Status j) ''leased'' wid (putJob (j_ID j) j q)"
      by (rule LeaseNext_Inr[OF mqreach_inv[OF assms(1)] assms(2) Pair[unfolded Inr]])
    have "mq_jobs q' = (mq_jobs q)(j_ID j \<mapsto> j)" by (subst q') (rule moveJob_simps(1))
    moreover have "leasedBy wid j0 j" "j_LeaseUntil j = oe_now e 0 + d"
      using leasedBy_leaseOf[of wid j0 e d] unfolding j0(3) by (simp_all add: leaseOf_def)
    ultimately show ?thesis using Pair Inr j0(1,2,4) by auto
  qed
qed

theorem lease_takes_oldest_available_witness:
  "case LeaseNextRunJob (at 30 [''b'', ''a'']) ''w1'' 100 enqueuedQueue of
     (Inl err, q') \<Rightarrow> False | (Inr j, q') \<Rightarrow> mq_jobs enqueuedQueue (j_ID j) \<noteq> None \<and> j_LeaseUntil j = 130"
proof -
  have it: "iterates (oe_ord (at 30 [''b'', ''a''])) (mq_jobs enqueuedQueue)" using example_dom(3) by (simp add: at_def)
  have "case fst (LeaseNextRunJob (at 30 [''b'', ''a'']) ''w1'' 100 enqueuedQueue) of Inl _ \<Rightarrow> False | Inr _ \<Rightarrow> True"
    by code_simp
  moreover have "oe_now (at 30 [''b'', ''a'']) 0 = 30" by (simp add: at_def)
  ultimately show ?thesis
    using lease_takes_oldest_available[OF example_reach(1) it, of "''w1''" 100]
    by (cases "LeaseNextRunJob (at 30 [''b'', ''a'']) ''w1'' 100 enqueuedQueue") (auto split: sum.splits)
qed

text \<open>C28. Leases exclude each other: a job whose lease has not expired at the time of the call is not handed out
  again, to whichever worker.\<close>

theorem unexpired_lease_exclusive:
  assumes "mqreach q" and "iterates (oe_ord e) (mq_jobs q)" and "mq_jobs q i = Some j"
    and "j_Status j = RunJobStatusLeased" and "oe_now e 0 \<le> j_LeaseUntil j"
    and "LeaseNextRunJob e wid d q = (Inr j', q')"
  shows "j_ID j' \<noteq> i \<and> mq_jobs q' i = Some j"
proof -
  obtain j0 where j0: "mq_jobs q (j_ID j') = Some j0" "leasable (oe_now e 0) j0"
    and q': "q' = appendTransition (oe_now e 1) (j_ID j') (j_Status j0) (j_Status j') ''leased'' wid (putJob (j_ID j') j' q)"
    by (rule LeaseNext_Inr[OF mqreach_inv[OF assms(1)] assms(2,6)])
  then have "j_ID j' \<noteq> i" using assms(3-5) by (auto simp: leasable_def)
  with q' assms(3) show ?thesis by (simp add: moveJob_simps)
qed

theorem unexpired_lease_exclusive_witness:
  "\<exists>j q'. LeaseNextRunJob (at 100 [''b'', ''a'']) ''w2'' 100 leasedQueue = (Inr j, q') \<and> j_ID j \<noteq> ''a''"
proof -
  have it: "iterates (oe_ord (at 100 [''b'', ''a''])) (mq_jobs leasedQueue)" using example_dom(4) by (simp add: at_def)
  obtain j where j: "mq_jobs leasedQueue ''a'' = Some j" "j_Status j = RunJobStatusLeased" "j_LeaseUntil j = 130"
    using example_jobs(2) by auto
  have "case fst (LeaseNextRunJob (at 100 [''b'', ''a'']) ''w2'' 100 leasedQueue) of Inl _ \<Rightarrow> False | Inr _ \<Rightarrow> True"
    by code_simp
  then obtain j' where "fst (LeaseNextRunJob (at 100 [''b'', ''a'']) ''w2'' 100 leasedQueue) = Inr j'"
    by (auto split: sum.splits)
  then obtain q' where lease: "LeaseNextRunJob (at 100 [''b'', ''a'']) ''w2'' 100 leasedQueue = (Inr j', q')"
    by (metis prod.collapse)
  have "oe_now (at 100 [''b'', ''a'']) 0 \<le> j_LeaseUntil j" using j(3) by (simp add: at_def)
  from unexpired_lease_exclusive[OF example_reach(2) it j(1,2) this lease] lease show ?thesis by blast
qed

section \<open>Enqueuing and listing\<close>

text \<open>Enqueuing a job under a new id makes it retrievable with its missing times and status filled in;
  enqueuing under an existing id changes nothing.\<close>

theorem enqueue_then_get:
  "EnqueueRunJob e job q =
     (None, if mq_jobs q (j_ID job) = None then snd (EnqueueRunJob e job q) else q) \<and>
   (mq_jobs q (j_ID job) = None \<longrightarrow>
     GetRunJob e' (j_ID job) (snd (EnqueueRunJob e job q)) = Inr (stored e job) \<and>
     EnqueueRunJob e'' job (snd (EnqueueRunJob e job q)) = (None, snd (EnqueueRunJob e job q)))"
proof (cases "mq_jobs q (j_ID job)")
  case None
  have "j_ID (stored e job) = j_ID job" by (simp add: stored_def)
  then show ?thesis
    using None by (simp add: EnqueueRunJob_new[OF None] GetRunJob_def moveJob_simps) (simp add: EnqueueRunJob_def moveJob_simps)
next
  case (Some j)
  then show ?thesis by (simp add: EnqueueRunJob_def)
qed

theorem enqueue_then_get_witness:
  "GetRunJob (at 50 []) ''c'' (snd (EnqueueRunJob (at 40 []) (exampleJob ''c'') enqueuedQueue)) =
     Inr (stored (at 40 []) (exampleJob ''c''))"
proof -
  have id: "j_ID (exampleJob ''c'') = ''c''" by (simp add: exampleJob_def)
  have "mq_jobs enqueuedQueue ''c'' = None" by code_simp
  then have "mq_jobs enqueuedQueue (j_ID (exampleJob ''c'')) = None" by (simp only: id)
  with enqueue_then_get[of "at 40 []" "exampleJob ''c''" enqueuedQueue "at 50 []"] id show ?thesis by simp
qed

lemma rangeValues_jobs:
  assumes "queue_inv q" and "iterates ord (mq_jobs q)"
  shows "set (rangeValues ord (mq_jobs q)) = {j. \<exists>i. mq_jobs q i = Some j}"
    and "distinct (map j_ID (filter P (rangeValues ord (mq_jobs q))))"
proof -
  show "set (rangeValues ord (mq_jobs q)) = {j. \<exists>i. mq_jobs q i = Some j}"
    using set_rangeValues_iterates[OF assms(2)] by (auto simp: ran_def)
  have "map j_ID (rangeValues ord (mq_jobs q)) = filter (\<lambda>i. mq_jobs q i \<noteq> None) ord"
    by (rule rangeValues_ids) (use queue_inv_ID[OF assms(1)] in blast)
  then have "distinct (map j_ID (rangeValues ord (mq_jobs q)))" using assms(2) by (simp add: iterates_def)
  then show "distinct (map j_ID (filter P (rangeValues ord (mq_jobs q))))" by (rule distinct_map_filter)
qed

lemma mqreach_finite: "mqreach q \<Longrightarrow> finite (dom (mq_jobs q))"
proof (induction rule: rtranclp_induct)
  case base
  then show ?case by (simp add: NewMemoryRunQueue_def)
next
  case (step y z)
  have "board_step (board y) (board z)" by (rule queue_refines_board_aux[OF step(2) mqreach_inv[OF step(1)]])
  moreover have "finite (dom (board y))" using step(3) by simp
  ultimately have "finite (dom (board z))" by (cases rule: board_step.cases) simp_all
  then show ?case by simp
qed

lemma mqreach_iterates: "mqreach q \<Longrightarrow> \<exists>ord. iterates ord (mq_jobs q)"
  using finite_distinct_list[OF mqreach_finite, of q] unfolding iterates_def by metis

text \<open>The list that a filter selects, sorted by creation and id.\<close>

lemma listing_unique:
  assumes "queue_inv q" and "iterates ord (mq_jobs q)" and "iterates ord' (mq_jobs q)"
  shows "sortSlice jobLess (filter P (rangeValues ord (mq_jobs q))) =
         sortSlice jobLess (filter P (rangeValues ord' (mq_jobs q)))"
proof (rule byCreationID.sortSlice_order_irrelevant)
  show "mset (filter P (rangeValues ord (mq_jobs q))) = mset (filter P (rangeValues ord' (mq_jobs q)))"
    using mset_rangeValues_iterates[OF assms(2,3)] by simp
qed (rule rangeValues_jobs(2)[OF assms(1,2)])

text \<open>The filtered listing is pages of one list that depends on the queue alone: the matching jobs, each once,
  by creation and id. A page is the window at the offset, and the count is the length of that list.\<close>

theorem filtered_listing_pages:
  assumes "mqreach q"
  shows "\<exists>L. set L = {j. (\<exists>i. mq_jobs q i = Some j) \<and> jobMatches st wid rid ua ub j} \<and> distinct L \<and>
    sorted_wrt jobLess L \<and>
    (\<forall>e. iterates (oe_ord e) (mq_jobs q) \<longrightarrow>
       CountRunJobsFiltered e st wid rid ua ub q = Inr (length L) \<and>
       (\<forall>limit offset. 0 < limit \<and> 0 \<le> offset \<and> limit \<le> maxInt64 - int (length L) \<longrightarrow>
          ListRunJobsFiltered e st wid rid ua ub limit offset q = Some (Inr (take (nat limit) (drop (nat offset) L)))))"
proof -
  obtain ord0 where it0: "iterates ord0 (mq_jobs q)" using mqreach_iterates[OF assms] by blast
  note inv = mqreach_inv[OF assms]
  let ?P = "jobMatches st wid rid ua ub"
  define L where "L = sortSlice jobLess (filter ?P (rangeValues ord0 (mq_jobs q)))"
  have same: "sortSlice jobLess (filter ?P (rangeValues ord (mq_jobs q))) = L" if "iterates ord (mq_jobs q)" for ord
    unfolding L_def by (rule listing_unique[OF inv that it0])
  then have len: "length (filter ?P (rangeValues ord (mq_jobs q))) = length L" if "iterates ord (mq_jobs q)" for ord
    using that by (metis length_sortSlice)
  have dist: "distinct (map j_ID L)" using rangeValues_jobs(2)[OF inv it0, of ?P] by (simp add: L_def)
  have "sorted_wrt jobLess L" unfolding L_def by (rule byCreationID.sortSlice_strictly[OF rangeValues_jobs(2)[OF inv it0]])
  moreover have "set L = {j. (\<exists>i. mq_jobs q i = Some j) \<and> ?P j}" using rangeValues_jobs(1)[OF inv it0] by (auto simp: L_def)
  moreover have "distinct L" using dist by (simp add: distinct_map)
  moreover have "CountRunJobsFiltered e st wid rid ua ub q = Inr (length L)" if "iterates (oe_ord e) (mq_jobs q)" for e
    using len[OF that] by (simp add: CountRunJobsFiltered_def)
  moreover have "ListRunJobsFiltered e st wid rid ua ub limit offset q = Some (Inr (take (nat limit) (drop (nat offset) L)))"
    if "iterates (oe_ord e) (mq_jobs q)" "0 < limit" "0 \<le> offset" "limit \<le> maxInt64 - int (length L)" for e limit offset
    using same[OF that(1)] sliceWindow_exact[OF that(2-4)] by (simp add: ListRunJobsFiltered_def Let_def)
  ultimately show ?thesis by (intro exI[of _ L]) blast
qed

theorem filtered_listing_pages_witness:
  "\<exists>L. CountRunJobsFiltered (at 50 [''b'', ''a'']) ''QUEUED'' '''' '''' 0 0 leasedQueue = Inr (length L) \<and>
     ListRunJobsFiltered (at 50 [''b'', ''a'']) ''QUEUED'' '''' '''' 0 0 1 0 leasedQueue = Some (Inr (take 1 L))"
proof -
  have it: "iterates (oe_ord (at 50 [''b'', ''a''])) (mq_jobs leasedQueue)" using example_dom(4) by (simp add: at_def)
  from filtered_listing_pages[OF example_reach(2), of "''QUEUED''" "''''" "''''" 0 0] obtain L where
    count: "CountRunJobsFiltered (at 50 [''b'', ''a'']) ''QUEUED'' '''' '''' 0 0 leasedQueue = Inr (length L)"
    and list: "\<And>limit offset. 0 < limit \<and> 0 \<le> offset \<and> limit \<le> maxInt64 - int (length L) \<Longrightarrow>
      ListRunJobsFiltered (at 50 [''b'', ''a'']) ''QUEUED'' '''' '''' 0 0 limit offset leasedQueue =
        Some (Inr (take (nat limit) (drop (nat offset) L)))"
    using it by blast
  have "case CountRunJobsFiltered (at 50 [''b'', ''a'']) ''QUEUED'' '''' '''' 0 0 leasedQueue of Inr n \<Rightarrow> n \<le> 2 | _ \<Rightarrow> False"
    by code_simp
  with count have "length L \<le> 2" by simp
  with list[of 1 0] count show ?thesis by auto
qed

text \<open>The slice expression of the listings panics exactly when the sum of offset and limit wraps around:
  for an offset inside the list and a limit beyond the largest integer minus the offset.\<close>

theorem listing_window_panics:
  assumes "0 < limit" and "limit \<le> maxInt64" and "0 \<le> offset" and "int (length items) \<le> maxInt64"
  shows "sliceWindow items limit offset = None \<longleftrightarrow> offset < int (length items) \<and> maxInt64 < offset + limit"
proof (cases "offset < int (length items) \<and> maxInt64 < offset + limit")
  case True
  then have "wrap64 (offset + limit) = offset + limit - 18446744073709551616"
    using assms by (intro wrap64_over) auto
  with True assms show ?thesis by (simp add: sliceWindow_def Let_def)
next
  case False
  then have "offset < int (length items) \<Longrightarrow> wrap64 (offset + limit) = offset + limit"
    using assms by (intro wrap64_id) auto
  with False assms show ?thesis by (auto simp: sliceWindow_def Let_def)
qed

theorem listing_window_panics_witness: "sliceWindow [True, False] maxInt64 1 = None"
  using listing_window_panics[of maxInt64 1 "[True, False]"] by simp

lemma fold_counts:
  "fold (\<lambda>job counts. counts(j_Status job \<mapsto> (case counts (j_Status job) of None \<Rightarrow> 0 | Some n \<Rightarrow> n) + 1)) js m st =
     (let n = int (length (filter (\<lambda>j. j_Status j = st) js))
      in case m st of None \<Rightarrow> if n = 0 then None else Some n | Some k \<Rightarrow> Some (k + n))"
  by (induction js arbitrary: m) (auto simp: Let_def split: option.splits)

text \<open>\<^verbatim>\<open>CountRunJobsByStatus\<close> counts, for each status, the jobs that have it.\<close>

theorem counts_by_status:
  assumes "mqreach q" and "iterates (oe_ord e) (mq_jobs q)"
  shows "CountRunJobsByStatus e q = Inr (\<lambda>st. let n = card {i. \<exists>j. mq_jobs q i = Some j \<and> j_Status j = st} in
    if n = 0 then None else Some (int n))"
proof -
  have "length (filter (\<lambda>j. j_Status j = st) (rangeValues (oe_ord e) (mq_jobs q))) =
      card {i. \<exists>j. mq_jobs q i = Some j \<and> j_Status j = st}" for st
  proof -
    let ?js = "filter (\<lambda>j. j_Status j = st) (rangeValues (oe_ord e) (mq_jobs q))"
    have "length ?js = card (set (map j_ID ?js))"
      using distinct_card[OF rangeValues_jobs(2)[OF mqreach_inv[OF assms(1)] assms(2)], of "\<lambda>j. j_Status j = st"] by simp
    moreover have "set (map j_ID ?js) = {i. \<exists>j. mq_jobs q i = Some j \<and> j_Status j = st}"
      using rangeValues_jobs(1)[OF mqreach_inv[OF assms(1)] assms(2)] queue_inv_ID[OF mqreach_inv[OF assms(1)]]
      by (auto simp: image_iff)
    ultimately show ?thesis by simp
  qed
  then show ?thesis by (simp add: CountRunJobsByStatus_def fold_counts fun_eq_iff Let_def)
qed

theorem counts_by_status_witness:
  "CountRunJobsByStatus (at 50 [''b'', ''a'']) leasedQueue =
     Inr (\<lambda>st. let n = card {i. \<exists>j. mq_jobs leasedQueue i = Some j \<and> j_Status j = st} in
       if n = 0 then None else Some (int n))"
  using counts_by_status[OF example_reach(2), of "at 50 [''b'', ''a'']"] example_dom(4) by (simp add: at_def)

text \<open>A purge removes the jobs that match and are old enough, the least recently updated first, at most as many
  as the limit (1000 when it is not positive), with their histories; it reports how many and leaves every
  other job alone.\<close>

theorem purge_removes_oldest:
  assumes "mqreach q" and "iterates (oe_ord e) (mq_jobs q)"
    and "PurgeRunJobs e status olderThan limit q = (Inr n, q')"
  shows "\<exists>V. n = card V \<and> mq_jobs q' = mq_jobs q |` (- V) \<and> mq_transitions q' = mq_transitions q |` (- V) \<and>
    V \<subseteq> {i. \<exists>j. mq_jobs q i = Some j \<and> purgeable status (purgeCutoff (oe_now e 0) olderThan) j} \<and>
    card V = min (purgeLimit limit)
      (card {i. \<exists>j. mq_jobs q i = Some j \<and> purgeable status (purgeCutoff (oe_now e 0) olderThan) j}) \<and>
    (\<forall>i k ji jk. i \<in> V \<and> k \<notin> V \<and> mq_jobs q i = Some ji \<and> mq_jobs q k = Some jk \<and>
       purgeable status (purgeCutoff (oe_now e 0) olderThan) jk \<longrightarrow> j_UpdatedAt ji \<le> j_UpdatedAt jk)"
proof -
  let ?cut = "purgeCutoff (oe_now e 0) olderThan"
  let ?cs = "purgeCandidates (oe_ord e) status ?cut q"
  let ?sorted = "sortSlice purgeLess ?cs"
  let ?vs = "purgeVictims e status olderThan limit q"
  let ?V = "pc_id ` set ?vs"
  let ?A = "{i. \<exists>j. mq_jobs q i = Some j \<and> purgeable status ?cut j}"
  have vs: "?vs = take (purgeLimit limit) ?sorted" by (simp add: purgeVictims_def)
  have eq: "n = length ?vs" "mq_jobs q' = mq_jobs q |` (- ?V)" "mq_transitions q' = mq_transitions q |` (- ?V)"
    using assms(3) by (auto simp: PurgeRunJobs_eq Let_def)
  have mem: "c \<in> set ?cs \<longleftrightarrow> (\<exists>j. mq_jobs q (pc_id c) = Some j \<and> purgeable status ?cut j \<and> pc_updatedAt c = j_UpdatedAt j)" for c
    by (rule mem_purgeCandidates[OF assms(2)])
  have dist: "distinct (map pc_id ?cs)" by (rule distinct_purgeCandidates[OF assms(2)])
  have ids: "pc_id ` set ?cs = ?A"
  proof
    show "?A \<subseteq> pc_id ` set ?cs"
    proof
      fix i assume "i \<in> ?A"
      then obtain j where "mq_jobs q i = Some j" "purgeable status ?cut j" by blast
      then have "\<lparr>pc_id = i, pc_updatedAt = j_UpdatedAt j\<rparr> \<in> set ?cs" by (simp add: mem)
      then show "i \<in> pc_id ` set ?cs" by (metis image_eqI purgeCandidate.select_convs(1))
    qed
  qed (auto simp: mem)
  have dsorted: "distinct (map pc_id ?sorted)" using dist by simp
  have "distinct (map pc_id ?vs)" unfolding vs by (metis distinct_take dsorted take_map)
  then have card: "card ?V = length ?vs" by (metis distinct_card length_map list.set_map)
  have "card ?A = length ?cs" using dist ids by (metis distinct_card length_map list.set_map)
  then have len: "length ?vs = min (purgeLimit limit) (card ?A)" by (simp add: vs min.commute)
  have sub: "?V \<subseteq> ?A" using ids set_take_subset[of "purgeLimit limit" ?sorted] by (force simp: vs)
  have old: "j_UpdatedAt ji \<le> j_UpdatedAt jk"
    if V: "i \<in> ?V" "k \<notin> ?V" and i: "mq_jobs q i = Some ji" and k: "mq_jobs q k = Some jk" "purgeable status ?cut jk" for i k ji jk
  proof -
    obtain c where c: "c \<in> set ?vs" "i = pc_id c" using V(1) by blast
    then have "c \<in> set ?cs" using set_take_subset[of "purgeLimit limit" ?sorted] by (auto simp: vs)
    with c(2) i have uc: "pc_updatedAt c = j_UpdatedAt ji" by (auto simp: mem)
    let ?d = "\<lparr>pc_id = k, pc_updatedAt = j_UpdatedAt jk\<rparr>"
    have "?d \<in> set ?sorted" using k by (simp add: mem)
    moreover have "?d \<notin> set ?vs" using V(2) by (metis image_eqI purgeCandidate.select_convs(1))
    ultimately have "?d \<in> set (drop (purgeLimit limit) ?sorted)"
      unfolding vs by (metis Un_iff append_take_drop_id set_append)
    moreover have "sorted_wrt purgeLess (take (purgeLimit limit) ?sorted @ drop (purgeLimit limit) ?sorted)"
      using byUpdate.sortSlice_strictly[OF dist] by simp
    ultimately have "purgeLess c ?d" using c(1) unfolding vs sorted_wrt_append by blast
    then show ?thesis using uc by (auto simp: purgeLess_def split: if_splits)
  qed
  show ?thesis
  proof (intro exI[of _ ?V] conjI allI impI; (elim conjE)?)
    show "n = card ?V" "card ?V = min (purgeLimit limit) (card ?A)" using eq(1) card len by simp_all
  qed (rule eq(2) eq(3) sub | erule (4) old)+
qed

theorem purge_removes_oldest_witness:
  "\<exists>n q' V. PurgeRunJobs (at 1000 [''b'', ''a'']) ''QUEUED'' 100 1 leasedQueue = (Inr n, q') \<and> n = card V \<and>
     mq_jobs q' = mq_jobs leasedQueue |` (- V)"
proof -
  have it: "iterates (oe_ord (at 1000 [''b'', ''a''])) (mq_jobs leasedQueue)" using example_dom(4) by (simp add: at_def)
  obtain n q' where p: "PurgeRunJobs (at 1000 [''b'', ''a'']) ''QUEUED'' 100 1 leasedQueue = (Inr n, q')"
    by (simp add: PurgeRunJobs_eq Let_def)
  from purge_removes_oldest[OF example_reach(2) it p] p show ?thesis by blast
qed

end
