(* ===== verification/WorkerProperties.thy ===== *)
theory WorkerProperties
  imports EngineProperties QueueProperties
begin

text \<open>
  The properties of the worker over the memory queue, and of the composition queue, worker, executor, store.
\<close>

lemma reach_attempts: "mqreach q \<Longrightarrow> \<forall>i j. mq_jobs q i = Some j \<longrightarrow> 0 \<le> j_Attempts j"
  using queue_invD[OF mqreach_inv] by (fastforce simp: job_ok_def leaseCount_def)

section \<open>One turn of the worker\<close>

text \<open>C31. A worker that has leased a job whose workflow exists never panics, and unless its run hangs or still waits, it
  settles the job as the run ended: succeeded, cancelled, queued again with the backoff while attempts are left, and
  dead otherwise. The job keeps its identity and its attempts, loses its lease, and no other job changes, however
  heartbeats and watcher ticks fall during and after the run.\<close>

theorem worker_settles_job:
  assumes "mqreach (wd_queue w0)" and "iterates (oe_ord (pe_lease env)) (mq_jobs (wd_queue w0))"
    and "wk_queue svc = memoryQueue" and "\<forall>ev \<in> set (pe_during env). ownEvent ev"
    and "LeaseNextRunJob (pe_lease env) (wk_workerID svc) (wk_leaseDuration svc) (wd_queue w0) = (Inr job, q1)"
    and "ws_GetWorkflow (wk_store svc) (pe_get env) (j_WorkflowID job) (wd_store w0) = Inr workflow"
    and "processOne svc env w0 \<noteq> ProcHangs" and "processOne svc env w0 \<noteq> ProcWaits"
  shows "\<exists>r w' cancelled run execErr m j'. processOne svc env w0 = ProcReturned r w' \<and>
     RunWithID (wk_executor svc) (pe_run env cancelled) workflow (j_RunID job) (j_RequestID job) (wd_store w0)
       (map_option RecordWorkerLease (wd_metrics w0)) = RunReturned run execErr (wd_store w') m \<and>
     mq_jobs (wd_queue w') (j_ID job) = Some j' \<and> sameJob job j' \<and> j_Status j' = settledStatus job run execErr \<and>
     j_LeaseOwner j' = '''' \<and> j_Attempts j' = j_Attempts job \<and>
     (j_Status j' = RunJobStatusQueued \<longrightarrow>
       (\<exists>k. j_AvailableAt j' = oe_now (pe_settle env) k + workerBackoff (j_Attempts job))) \<and>
     (\<forall>k. k \<noteq> j_ID job \<longrightarrow> mq_jobs (wd_queue w') k = mq_jobs (wd_queue w0) k)"
proof -
  have lease: "rq_LeaseNextRunJob memoryQueue (pe_lease env) (wk_workerID svc) (wk_leaseDuration svc) (wd_queue w0) =
    (Inr job, q1)" using assms(5) by (simp add: memoryQueue_def)
  obtain q2 c where during: "fold (duringStep svc (j_ID job)) (pe_during env) (q1, False) = (q2, c)" by fastforce
  let ?run = "RunWithID (wk_executor svc) (pe_run env c) workflow (j_RunID job) (j_RequestID job) (wd_store w0)
    (map_option RecordWorkerLease (wd_metrics w0))"
  obtain run execErr s m where run: "?run = RunReturned run execErr s m"
  proof (cases ?run)
    case (RunWaiting st)
    then have "processOne svc env w0 = ProcWaits"
      using lease assms(3,6) during by (simp add: processOne_def Let_def)
    with assms(8) show ?thesis by blast
  next
    case RunHangs
    then have "processOne svc env w0 = ProcHangs"
      using lease assms(3,6) during by (simp add: processOne_def Let_def)
    with assms(7) show ?thesis by blast
  qed (rule that)
  from memq.processOne_run[OF assms(3) mqreach_inv[OF assms(1)] assms(2) reach_attempts[OF assms(1)] assms(4) lease
      assms(6) during run] run show ?thesis by metis
qed

definition exampleStore :: MemoryStore where
  "exampleStore = snd (SaveWorkflow (at 5 []) (examplePipeline ''ok'') NewMemoryStore)"

definition exampleWorker :: "(unit, MemoryStore, MemoryRunQueue) WorkerService" where
  "exampleWorker = NewWorkerService 0 ''w1'' memoryQueue memoryStore exampleExecutor"

definition exampleProc :: "(unit, MemoryRunQueue) procEnv" where
  "exampleProc = \<lparr>pe_lease = at 30 [''b'', ''a''], pe_get = at 31 [], pe_during = [Heartbeat (at 40 []), WatchTick (at 41 [])],
     pe_run = (\<lambda>_. exampleEnv), pe_settle = at 90 [], pe_late = [at 95 []]\<rparr>"

definition exampleWorld :: "MemoryStore \<Rightarrow> (MemoryStore, MemoryRunQueue) world" where
  "exampleWorld s = \<lparr>wd_queue = enqueuedQueue, wd_store = s, wd_metrics = None\<rparr>"

lemma example_lease:
  "\<exists>job q1. LeaseNextRunJob (pe_lease exampleProc) (wk_workerID exampleWorker) (wk_leaseDuration exampleWorker)
     (wd_queue (exampleWorld s)) = (Inr job, q1) \<and> j_WorkflowID job = ''deploy'' \<and> j_RunID job = ''run-a'' \<and> j_ID job = ''a''"
proof -
  have "case fst (LeaseNextRunJob (pe_lease exampleProc) (wk_workerID exampleWorker) (wk_leaseDuration exampleWorker)
     enqueuedQueue) of Inl _ \<Rightarrow> False | Inr job \<Rightarrow> j_WorkflowID job = ''deploy'' \<and> j_RunID job = ''run-a'' \<and> j_ID job = ''a''"
    by code_simp
  then show ?thesis by (auto simp: exampleWorld_def split: sum.splits prod.splits) (metis prod.collapse)
qed

lemma example_worker:
  "wk_queue exampleWorker = memoryQueue" "wk_store exampleWorker = memoryStore" "wk_executor exampleWorker = exampleExecutor"
  "\<forall>ev \<in> set (pe_during exampleProc). ownEvent ev" "mqreach (wd_queue (exampleWorld s))"
  "iterates (oe_ord (pe_lease exampleProc)) (mq_jobs (wd_queue (exampleWorld s)))"
  by (simp_all add: exampleWorker_def NewWorkerService_def exampleProc_def exampleWorld_def at_def example_dom(3) example_reach(1))

theorem worker_settles_job_witness:
  "\<exists>r w' j'. processOne exampleWorker exampleProc (exampleWorld exampleStore) = ProcReturned r w' \<and>
     mq_jobs (wd_queue w') ''a'' = Some j' \<and> j_LeaseOwner j' = ''''"
proof -
  obtain job q1 where L: "LeaseNextRunJob (pe_lease exampleProc) (wk_workerID exampleWorker) (wk_leaseDuration exampleWorker)
     (wd_queue (exampleWorld exampleStore)) = (Inr job, q1)" "j_WorkflowID job = ''deploy''" "j_ID job = ''a''"
    using example_lease by blast
  have W: "ws_GetWorkflow (wk_store exampleWorker) (pe_get exampleProc) (j_WorkflowID job)
      (wd_store (exampleWorld exampleStore)) = Inr (examplePipeline ''ok'')"
    by (simp add: example_worker L(2) exampleWorld_def exampleStore_def memoryStore_def GetWorkflow_def SaveWorkflow_def
        examplePipeline_def)
  have "\<exists>run err s' m'. RunWithID exampleExecutor exampleEnv (examplePipeline ''ok'') fid rid s m =
      RunReturned run err s' m'" for fid rid s m
    unfolding RunWithID_def
    by (rule runWithID_returns[OF example_valid(1) example_envOk example_resolves example_events])
  then obtain run err s' m' where R: "RunWithID exampleExecutor exampleEnv (examplePipeline ''ok'') (j_RunID job)
      (j_RequestID job) exampleStore None = RunReturned run err s' m'" by blast
  obtain q2 c where during: "fold (duringStep exampleWorker (j_ID job)) (pe_during exampleProc) (q1, False) = (q2, c)"
    by fastforce
  have "pe_run exampleProc c = exampleEnv" by (simp add: exampleProc_def)
  then have ne: "processOne exampleWorker exampleProc (exampleWorld exampleStore) \<noteq> ProcHangs"
    "processOne exampleWorker exampleProc (exampleWorld exampleStore) \<noteq> ProcWaits"
    using L(1) W during R
    by (auto simp: processOne_def example_worker(1,3) memoryQueue_def exampleWorld_def settleJob_def Let_def
        split: procOutcome.splits if_splits)
  from worker_settles_job[OF example_worker(5,6,1,4) L(1) W ne] L(3) show ?thesis by auto
qed

text \<open>A worker that has leased a job whose workflow is missing fails the job with the store's error, without a retry,
  and touches no other job.\<close>

theorem worker_fails_missing_workflow:
  assumes "mqreach (wd_queue w0)" and "iterates (oe_ord (pe_lease env)) (mq_jobs (wd_queue w0))"
    and "wk_queue svc = memoryQueue"
    and "LeaseNextRunJob (pe_lease env) (wk_workerID svc) (wk_leaseDuration svc) (wd_queue w0) = (Inr job, q1)"
    and "ws_GetWorkflow (wk_store svc) (pe_get env) (j_WorkflowID job) (wd_store w0) = Inl err"
  shows "\<exists>w' j'. processOne svc env w0 = ProcReturned (Some err) w' \<and>
     mq_jobs (wd_queue w') (j_ID job) = Some j' \<and> sameJob job j' \<and> j_Status j' = RunJobStatusFailed \<and> j_LastError j' = err \<and>
     (\<forall>k. k \<noteq> j_ID job \<longrightarrow> mq_jobs (wd_queue w') k = mq_jobs (wd_queue w0) k)"
proof -
  have lease: "rq_LeaseNextRunJob memoryQueue (pe_lease env) (wk_workerID svc) (wk_leaseDuration svc) (wd_queue w0) =
    (Inr job, q1)" using assms(4) by (simp add: memoryQueue_def)
  from memq.processOne_missing_workflow[OF assms(3) mqreach_inv[OF assms(1)] assms(2) reach_attempts[OF assms(1)] lease
      assms(5)] show ?thesis by blast
qed

theorem worker_fails_missing_workflow_witness:
  "\<exists>w' j'. processOne exampleWorker exampleProc (exampleWorld NewMemoryStore) = ProcReturned (Some ''workflow not found'') w' \<and>
     mq_jobs (wd_queue w') ''a'' = Some j' \<and> j_Status j' = RunJobStatusFailed"
proof -
  obtain job q1 where L: "LeaseNextRunJob (pe_lease exampleProc) (wk_workerID exampleWorker) (wk_leaseDuration exampleWorker)
     (wd_queue (exampleWorld NewMemoryStore)) = (Inr job, q1)" "j_ID job = ''a''"
    using example_lease by blast
  have W: "ws_GetWorkflow (wk_store exampleWorker) (pe_get exampleProc) (j_WorkflowID job)
      (wd_store (exampleWorld NewMemoryStore)) = Inl ''workflow not found''"
    by (simp add: example_worker exampleWorld_def memoryStore_def GetWorkflow_def NewMemoryStore_def)
  from worker_fails_missing_workflow[OF example_worker(5,6,1) L(1) W] L(2) show ?thesis by auto
qed

section \<open>The backoff between attempts\<close>

text \<open>C33. The backoff before a retry doubles with every attempt and is capped at thirty seconds, for the attempts 1 to 34.
  The cap does not hold in general: at the thirty-fifth attempt the product of the shift and the second wraps around to
  a negative duration, which the comparison with thirty seconds lets through, so a job that allows that many
  attempts is available again at once.\<close>

theorem worker_backoff_bounds:
  "(1 \<le> attempts \<and> attempts \<le> 34 \<longrightarrow>
     workerBackoff attempts = min (2 ^ nat (attempts - 1) * second) (30 * second) \<and> second \<le> workerBackoff attempts) \<and>
   workerBackoff 35 = - 1266874889709551616"
proof -
  have "(1::int) \<le> 2 ^ nat (attempts - 1)" by simp
  then show ?thesis using workerBackoff_exact[of attempts] by (auto simp: workerBackoff_overflow)
qed

theorem worker_backoff_bounds_witness: "workerBackoff 3 = 4 * second"
  using worker_backoff_bounds[of 3] by simp

end
