(* ===== verification/SchedulerProperties.thy ===== *)
theory SchedulerProperties
  imports SchedulerInv WorkerProperties
begin

text \<open>
  The properties of the scheduler and of the file store, with instances. For these, the cron engine is a list of entries
  that refuses one expression, and the codecs know the one document they are asked for.
\<close>

section \<open>Services to instantiate the properties\<close>

definition listCron :: "ScheduleConfig option list Cron" where
  "listCron =
     \<lparr>cr_AddFunc = (\<lambda>spec cfg c. if spec = ''bad'' then (Inl ''expected 5 fields'', c) else (Inr (length c), c @ [Some cfg])),
      cr_Remove = (\<lambda>i c. c[i := None]), cr_Start = id, cr_Stop = id\<rparr>"

definition listEntries :: "ScheduleConfig option list \<Rightarrow> nat \<rightharpoonup> ScheduleConfig" where
  "listEntries c n = (if n < length c then c ! n else None)"

lemma listCron_ok: "cronOk listCron listEntries"
  by (auto simp: cronOk_def listCron_def listEntries_def fun_eq_iff nth_append nth_list_update split: if_splits)

type_synonym exampleSched = "(unit, MemoryStore, MemoryRunQueue, ScheduleConfig option list) SchedulerService"

definition exampleSchedule :: ScheduleConfig where
  "exampleSchedule = \<lparr>s_WorkflowID = ''deploy'', s_Interval = 5 * second, s_Cron = '''', s_RunOnStartup = False, s_AllowOverlap = False\<rparr>"

definition exampleCodec :: "persistedSchedules codec" where
  "exampleCodec = \<lparr>co_Marshal = (\<lambda>p. Inr ''schedules''),
     co_Unmarshal = (\<lambda>b. if b = ''schedules'' then Inr \<lparr>pd_Jobs = [exampleSchedule], pd_Paused = [''deploy'']\<rparr> else Inl ''invalid'')\<rparr>"

definition exampleScEnv :: scEnv where
  "exampleScEnv = \<lparr>se_io = ioFine, se_codec = exampleCodec, se_jobsOrd = [''deploy''], se_pausedOrd = [''deploy'']\<rparr>"

definition freshSched :: exampleSched where
  "freshSched = NewSchedulerService exampleExecutor memoryStore []"

lemma scEnv_simps [simp]:
  "se_io exampleScEnv = ioFine" "se_codec exampleScEnv = exampleCodec" "se_jobsOrd exampleScEnv = [''deploy'']"
  "se_pausedOrd exampleScEnv = [''deploy'']"
  by (simp_all add: exampleScEnv_def)

lemma fresh_ok: "sched_ok listEntries freshSched"
  unfolding freshSched_def by (rule new_ok) (simp add: listEntries_def)

lemma example_schedule: "checkSchedule exampleSchedule = None" "s_Cron exampleSchedule = ''''"
  "s_WorkflowID exampleSchedule = ''deploy''" "\<not> s_AllowOverlap exampleSchedule"
  by (simp_all add: checkSchedule_def exampleSchedule_def)

definition registeredSched :: exampleSched where
  "registeredSched = fst (snd (RegisterSchedule listCron exampleScEnv exampleSchedule (freshSched, Map.empty)))"

lemma registered_facts:
  "sched_ok listEntries registeredSched" "sc_jobs registeredSched = [''deploy'' \<mapsto> exampleSchedule]"
  "\<not> sc_started registeredSched" "\<not> sc_leaderLockHeld registeredSched" "sc_leaderLockPath registeredSched = ''''"
  "sc_scheduleStore registeredSched = ''''"
proof -
  obtain r fs' where reg: "RegisterSchedule listCron exampleScEnv exampleSchedule (freshSched, Map.empty) = (r, (registeredSched, fs'))"
    unfolding registeredSched_def by (metis prod.collapse)
  show "sched_ok listEntries registeredSched" by (rule register_spec(1)[OF listCron_ok fresh_ok example_schedule(1) reg])
  show "sc_jobs registeredSched = [''deploy'' \<mapsto> exampleSchedule]"
    using register_spec(2)[OF listCron_ok fresh_ok example_schedule(1) reg]
    by (simp add: example_schedule(3) freshSched_def NewSchedulerService_def)
qed (simp_all add: registeredSched_def register_eq[OF example_schedule(1)] Let_def freshSched_def NewSchedulerService_def)

section \<open>Schedules and triggers\<close>



text \<open>C35. On the abstract state (the schedules and the set of live triggers) registering a valid schedule
  replaces the schedule and the trigger of its workflow, with no trigger when the scheduler is not started or the cron
  expression is refused, and unregistering removes both; other workflows are not affected.\<close>

theorem schedule_operations_refine:
  assumes "cronOk cr entries" and "sched_ok entries s0" and "checkSchedule cfg = None"
  shows "(\<exists>r s fs'. RegisterSchedule cr e cfg (s0, fs) = (r, (s, fs')) \<and> sc_jobs s = (sc_jobs s0)(s_WorkflowID cfg \<mapsto> cfg) \<and>
      live entries s = {c \<in> live entries s0. s_WorkflowID c \<noteq> s_WorkflowID cfg} \<union> (if sc_started s0 \<and> r = None then {cfg} else {}) \<and>
      (s_Cron cfg = '''' \<longrightarrow> r = None)) \<and>
    (\<exists>s fs'. Unregister cr e i (s0, fs) = (s, fs') \<and> sc_jobs s = (sc_jobs s0)(i := None) \<and>
      \<not> IsPaused i s \<and> live entries s = {c \<in> live entries s0. s_WorkflowID c \<noteq> i})"
proof -
  obtain r s fs' where reg: "RegisterSchedule cr e cfg (s0, fs) = (r, (s, fs'))" by (metis prod.collapse)
  obtain s1 fs1 where un: "Unregister cr e i (s0, fs) = (s1, fs1)" by fastforce
  from reg un register_spec(2-4)[OF assms reg] unregister_spec(2-4)[OF assms(1,2) un] show ?thesis
    by (simp add: IsPaused_def flag_def)
qed

theorem schedule_operations_refine_witness:
  "\<exists>s fs'. Unregister listCron exampleScEnv ''deploy'' (freshSched, Map.empty) = (s, fs') \<and> live listEntries s = {}"
  using schedule_operations_refine[OF listCron_ok fresh_ok example_schedule(1), of exampleScEnv Map.empty "''deploy''"]
    sched_okD(5)[OF fresh_ok] by (auto simp: freshSched_def NewSchedulerService_def)

text \<open>\<^verbatim>\<open>Start\<close> marks the service as started; a leader then has a live trigger for every interval schedule it
  holds, a follower has none.\<close>

theorem start_activates_schedules:
  assumes "cronOk cr entries" and "sched_ok entries s0" and "\<not> sc_started s0" and "\<not> sc_leaderLockHeld s0"
    and "SchedulerStart cr e (s0, fs) = (s, fs')" and "iterates (se_jobsOrd e) (sc_jobs s)"
  shows "sc_started s \<and> (if sc_leaderLockHeld s then \<forall>cfg \<in> ran (sc_jobs s). s_Cron cfg = '''' \<longrightarrow> cfg \<in> live entries s
    else live entries s = {})"
  using start_spec[OF assms(1-3,5)] assms(4,6) by simp

theorem start_activates_schedules_witness:
  "\<exists>s fs'. SchedulerStart listCron exampleScEnv (registeredSched, Map.empty) = (s, fs') \<and> exampleSchedule \<in> live listEntries s"
proof -
  obtain s fs' where st: "SchedulerStart listCron exampleScEnv (registeredSched, Map.empty) = (s, fs')" by fastforce
  note R = registered_facts
  have L: "loadLocked exampleScEnv Map.empty registeredSched = (None, registeredSched)" by (simp add: loadLocked_def R(6))
  have A: "tryAcquireLeaderLockLocked ioFine (registeredSched, Map.empty) =
      (True, (registeredSched\<lparr>sc_leaderLockHeld := True\<rparr>, Map.empty))" by (simp add: tryAcquireLeaderLockLocked_def R(5))
  have ord: "se_jobsOrd exampleScEnv = [''deploy'']" by simp
  have s: "sc_jobs s = [''deploy'' \<mapsto> exampleSchedule]" "sc_leaderLockHeld s"
    using st by (auto simp: SchedulerStart_def startBegin_def R(2,3) L A ord startOne_def startJob_snd)
  then have "iterates (se_jobsOrd exampleScEnv) (sc_jobs s)" by (simp add: iterates_def ord)
  from start_activates_schedules[OF listCron_ok R(1,3,4) st this] s st example_schedule(2) show ?thesis by simp
qed

section \<open>Executions\<close>

text \<open>C36. Without \<^verbatim>\<open>AllowOverlap\<close> a workflow is never executed twice at a time: whatever the operations of the
  scheduler and the triggers of all workflows do in between, at most one execution of the workflow is in flight, and the
  running flag is set exactly while one is.\<close>

theorem executions_do_not_overlap:
  assumes "(sysStep cr P)\<^sup>*\<^sup>* ((NewSchedulerService ex st c, fs0), []) ((s, fs), fl)"
    and "\<forall>cfg. P cfg \<longrightarrow> s_WorkflowID cfg = i \<longrightarrow> \<not> s_AllowOverlap cfg"
  shows "length (inFlight i fl) \<le> 1 \<and> (flag (sc_running s) i \<longleftrightarrow> inFlight i fl \<noteq> [])"
proof -
  have "length (inFlight i (snd x)) = (if flag (sc_running (fst (fst x))) i then 1 else 0)"
    if "(sysStep cr P)\<^sup>*\<^sup>* ((NewSchedulerService ex st c, fs0), []) x" for x
    using that
  proof (induction rule: rtranclp_induct)
    case base
    show ?case by (simp add: NewSchedulerService_def flag_def)
  next
    case (step y z)
    show ?case by (rule inFlight_step[OF step.hyps(2) assms(2) step.IH])
  qed
  from this[OF assms(1)] show ?thesis by (auto split: if_splits)
qed

definition firedSched :: exampleSched where
  "firedSched = snd (executeBegin exampleSchedule freshSched)"

theorem executions_do_not_overlap_witness:
  "length (inFlight ''deploy'' [exampleSchedule]) \<le> 1 \<and> flag (sc_running firedSched) ''deploy''"
proof -
  have b: "executeBegin exampleSchedule freshSched = (True, firedSched)"
    by (simp add: firedSched_def executeBegin_def freshSched_def NewSchedulerService_def flag_def)
  have "(sysStep listCron (\<lambda>cfg. cfg = exampleSchedule))\<^sup>*\<^sup>* ((freshSched, Map.empty), [])
      ((firedSched, Map.empty), [exampleSchedule])"
    by (rule r_into_rtranclp) (rule sysStep.fire[OF refl b])
  from executions_do_not_overlap[OF this[unfolded freshSched_def], of "''deploy''"] example_schedule(3,4)
  show ?thesis by auto
qed

text \<open>A trigger that fires for a workflow that is neither paused nor running enqueues one new job for it: queued, for a
  fresh run of the workflow, with five attempts, available from the clock reading on; it leaves the other jobs alone,
  and the workflow is not marked as running afterwards.\<close>

theorem trigger_enqueues_job:
  assumes "sc_queue s = Some memoryQueue" and "\<not> IsPaused (s_WorkflowID job) s" and "\<not> flag (sc_running s) (s_WorkflowID job)"
    and "ws_GetWorkflow (sc_store s) (on_get env) (s_WorkflowID job) (wd_store w) = Inr workflow"
    and "mq_jobs (wd_queue w) (j_ID (scheduledJob env workflow)) = None" and "on_now env 0 \<noteq> 0" and "on_now env 1 \<noteq> 0" and "on_now env 2 \<noteq> 0"
  shows "\<exists>s' w'. executeOnce env job (s, w) = Some (None, s', w') \<and> \<not> flag (sc_running s') (s_WorkflowID job) \<and>
     wd_store w' = wd_store w \<and>
     mq_jobs (wd_queue w') = (mq_jobs (wd_queue w))(j_ID (scheduledJob env workflow) \<mapsto> scheduledJob env workflow) \<and>
     j_Status (scheduledJob env workflow) = RunJobStatusQueued \<and> j_WorkflowID (scheduledJob env workflow) = w_ID workflow \<and>
     j_MaxAttempts (scheduledJob env workflow) = 5 \<and> j_AvailableAt (scheduledJob env workflow) = on_now env 0"
  using assms
  by (simp add: executeOnce_def executeBegin_def executeBody_def executeEnd_def IsPaused_def flag_def memoryQueue_def
      EnqueueRunJob_def Let_def isZero_def scheduledJob_def qsimps)

definition exampleOnce :: "unit onceEnv" where
  "exampleOnce = \<lparr>on_get = at 30 [], on_idNow = 30, on_now = (\<lambda>n. 31 + int n), on_enqueue = at 40 [], on_run = exampleEnv\<rparr>"

theorem trigger_enqueues_job_witness:
  "\<exists>s' w'. executeOnce exampleOnce exampleSchedule (SetRunQueue memoryQueue freshSched,
      \<lparr>wd_queue = NewMemoryRunQueue, wd_store = exampleStore, wd_metrics = None\<rparr>) = Some (None, s', w') \<and>
      \<not> flag (sc_running s') ''deploy''"
proof -
  let ?s = "SetRunQueue memoryQueue freshSched"
  let ?w = "\<lparr>wd_queue = NewMemoryRunQueue, wd_store = exampleStore, wd_metrics = None\<rparr> :: (MemoryStore, MemoryRunQueue) world"
  have S: "sc_queue ?s = Some memoryQueue" "\<not> IsPaused (s_WorkflowID exampleSchedule) ?s"
    "\<not> flag (sc_running ?s) (s_WorkflowID exampleSchedule)"
    by (simp_all add: SetRunQueue_def freshSched_def NewSchedulerService_def IsPaused_def flag_def)
  have G: "ws_GetWorkflow (sc_store ?s) (on_get exampleOnce) (s_WorkflowID exampleSchedule) (wd_store ?w) =
      Inr (examplePipeline ''ok'')"
    by (simp add: SetRunQueue_def freshSched_def NewSchedulerService_def example_schedule(3) exampleStore_def memoryStore_def
        GetWorkflow_def SaveWorkflow_def examplePipeline_def)
  have N: "mq_jobs (wd_queue ?w) (j_ID (scheduledJob exampleOnce (examplePipeline ''ok''))) = None"
    by (simp add: NewMemoryRunQueue_def)
  have T: "on_now exampleOnce 0 \<noteq> 0" "on_now exampleOnce 1 \<noteq> 0" "on_now exampleOnce 2 \<noteq> 0" by (simp_all add: exampleOnce_def)
  from trigger_enqueues_job[OF S G N T] show ?thesis unfolding example_schedule(3) by blast
qed

section \<open>Restart and leadership\<close>

text \<open>C38. Schedules survive a restart: once they are persisted, a new service that is given the schedule file has the same
  schedules and the same paused workflows (for schedules that \<^verbatim>\<open>encoding/json\<close> represents exactly).\<close>

theorem schedules_survive_restart:
  fixes new :: "('e, 's, 'q, 'c) SchedulerService"
  assumes "sched_ok entries s" and "sc_scheduleStore s \<noteq> ''''" and "trimSpace path = sc_scheduleStore s"
    and "iterates (se_jobsOrd e) (sc_jobs s)" and "iterates (se_pausedOrd e) (sc_paused s)"
    and "codecExact (se_codec e) (schedulesOf e s)" and "se_codec e2 = se_codec e"
    and "persistLocked e fs s = (None, fs')" and "io_read (se_io e2) = None"
    and "new = NewSchedulerService ex st c"
  shows "\<exists>s2. SetScheduleStorePath e2 path (new, fs') = (s2, fs') \<and> sc_jobs s2 = sc_jobs s \<and> sc_paused s2 = sc_paused s"
  using load_after_persist[OF assms(1,2) _ assms(4-9), of "new\<lparr>sc_scheduleStore := trimSpace path\<rparr>"] assms(3)
  by (simp add: SetScheduleStorePath_def)

definition pausedSched :: exampleSched where
  "pausedSched = registeredSched\<lparr>sc_scheduleStore := ''s.json'', sc_paused := [''deploy'' \<mapsto> True]\<rparr>"

theorem schedules_survive_restart_witness:
  "\<exists>s2. SetScheduleStorePath exampleScEnv ''s.json'' (freshSched, [''s.json'' \<mapsto> ''schedules'']) =
     (s2, [''s.json'' \<mapsto> ''schedules'']) \<and> sc_jobs s2 = sc_jobs pausedSched \<and> sc_paused s2 = sc_paused pausedSched"
proof -
  have f: "sc_scheduleStore pausedSched = ''s.json''" "sc_jobs pausedSched = [''deploy'' \<mapsto> exampleSchedule]"
    "sc_paused pausedSched = [''deploy'' \<mapsto> True]" by (simp_all add: pausedSched_def registered_facts(2))
  have ok: "sched_ok listEntries pausedSched"
    by (rule sched_ok_cong[OF registered_facts(1)]) (simp_all add: pausedSched_def)
  have snap: "schedulesOf exampleScEnv pausedSched = \<lparr>pd_Jobs = [exampleSchedule], pd_Paused = [''deploy'']\<rparr>"
    by (simp add: schedulesOf_def f flag_def)
  have ex: "codecExact (se_codec exampleScEnv) (schedulesOf exampleScEnv pausedSched)"
    by (simp add: codecExact_def snap exampleCodec_def)
  have p: "persistLocked exampleScEnv Map.empty pausedSched = (None, [''s.json'' \<mapsto> ''schedules''])"
    by (simp add: persistLocked_def snap f(1) exampleCodec_def osMkdirAll_def ioFine_def osWriteFile_def)
  have t: "trimSpace ''s.json'' = ''s.json''" by code_simp
  show ?thesis
    using schedules_survive_restart[OF ok _ _ _ _ ex refl p _ freshSched_def, of "''s.json''"] t
    by (simp add: f ioFine_def iterates_def)
qed

text \<open>C37. At most one of the processes that share a lock file is the leader: in every interleaving of the operations and
  the shutdowns of the services, no two of them hold the lock.\<close>

theorem one_leader:
  assumes "(clusterStep cr)\<^sup>*\<^sup>* (\<lambda>k. SetLeaderLockPath p (NewSchedulerService (ex k) (st k) (c k)), fs0) (procs, fs)"
    and "p \<noteq> ''''" and "sc_leaderLockHeld (procs k)" and "sc_leaderLockHeld (procs l)"
  shows "k = l \<and> fs p \<noteq> None"
proof -
  have "lock_inv p x" if "(clusterStep cr)\<^sup>*\<^sup>* (\<lambda>k. SetLeaderLockPath p (NewSchedulerService (ex k) (st k) (c k)), fs0) x" for x
    using that
  proof (induction rule: rtranclp_induct)
    case base
    show ?case by (simp add: lock_inv_def SetLeaderLockPath_def NewSchedulerService_def)
  next
    case (step y z)
    show ?case by (rule lock_inv_step[OF step.hyps(2) assms(2) step.IH])
  qed
  from this[OF assms(1)] assms(3,4) show ?thesis unfolding lock_inv_def fst_conv snd_conv by blast
qed

definition clusterSched :: "nat \<Rightarrow> exampleSched" where
  "clusterSched k = SetLeaderLockPath ''leader.lock'' (NewSchedulerService exampleExecutor memoryStore [])"

theorem one_leader_witness:
  "\<exists>s fs. SchedulerStart listCron exampleScEnv (clusterSched 0, Map.empty) = (s, fs) \<and> sc_leaderLockHeld s \<and>
     fs ''leader.lock'' \<noteq> None"
proof -
  obtain s fs where st: "SchedulerStart listCron exampleScEnv (clusterSched 0, Map.empty) = (s, fs)" by fastforce
  have L: "loadLocked exampleScEnv Map.empty (clusterSched 0) = (None, clusterSched 0)"
    by (simp add: loadLocked_def clusterSched_def SetLeaderLockPath_def NewSchedulerService_def)
  have c: "sc_leaderLockPath (clusterSched 0) = ''leader.lock''" "\<not> sc_started (clusterSched 0)" "sc_jobs (clusterSched 0) = Map.empty"
    by (simp_all add: clusterSched_def SetLeaderLockPath_def NewSchedulerService_def)
  have A: "tryAcquireLeaderLockLocked ioFine (clusterSched 0, Map.empty) =
      (True, ((clusterSched 0)\<lparr>sc_leaderLockHeld := True\<rparr>, [''leader.lock'' \<mapsto> '''']))"
    by (simp add: tryAcquireLeaderLockLocked_def c ioFine_def osMkdirAll_def osCreateExcl_def)
  have held: "sc_leaderLockHeld s"
    using st by (auto simp: SchedulerStart_def startBegin_def c L A)
  have "clusterStep listCron (clusterSched, Map.empty) (clusterSched(0 := s), fs)"
    by (rule clusterStep.operation) (metis schedOp.start st)
  then have "(clusterStep listCron)\<^sup>*\<^sup>* (clusterSched, Map.empty) (clusterSched(0 := s), fs)" by (rule r_into_rtranclp)
  moreover have "clusterSched = (\<lambda>k. SetLeaderLockPath ''leader.lock'' (NewSchedulerService exampleExecutor memoryStore []))"
    by (simp add: fun_eq_iff clusterSched_def)
  ultimately have "(clusterStep listCron)\<^sup>*\<^sup>* (\<lambda>k. SetLeaderLockPath ''leader.lock'' (NewSchedulerService exampleExecutor memoryStore []),
      Map.empty) (clusterSched(0 := s), fs)" by simp
  from one_leader[OF this, of 0 0] held st show ?thesis by simp
qed

section \<open>Where the scheduler does not do what it means to\<close>

text \<open>\<^verbatim>\<open>Start\<close> releases the mutex between taking the list of schedules and starting them: an interval schedule that is
  unregistered in between is started nevertheless, and its trigger stays live though the schedule is gone.\<close>

theorem start_revives_unregistered:
  assumes "cronOk cr entries" and "sched_ok entries s0" and "\<not> sc_started s0"
    and "startBegin cr e (s0, fs) = (jobs, sf1)" and "cfg \<in> set jobs" and "s_Cron cfg = ''''"
    and "startOne cr cfg (Unregister cr e' (s_WorkflowID cfg) sf1) = (s3, fs3)"
  shows "cfg \<in> live entries s3 \<and> sc_jobs s3 (s_WorkflowID cfg) = None"
proof -
  obtain s1 fs1 where sf1: "sf1 = (s1, fs1)" by fastforce
  let ?l = "snd (loadLocked e fs s0)"
  have L: "loadLocked e fs s0 = (fst (loadLocked e fs s0), ?l)" by simp
  note ok = load_ok[OF assms(2,3) L]
  from assms(3) assms(4)[unfolded sf1] have ok1: "sched_ok entries s1"
    by (cases rule: startBegin_cases)
      (auto intro!: sched_ok_cong[OF ok] simp: cronOkD(4)[OF assms(1)] sched_okD(3)[OF ok])
  obtain s2 fs2 where u: "Unregister cr e' (s_WorkflowID cfg) (s1, fs1) = (s2, fs2)" by fastforce
  note U = unregister_spec[OF assms(1) ok1 u]
  obtain r where st: "startJobLocked cr cfg s2 = (r, s3)"
    using assms(7) by (auto simp: sf1 u startOne_def prod_eq_iff)
  from startJob_live[OF assms(1) sched_okD(1)[OF U(1)] st] startJob_simps(1)[OF st] U(2) assms(6) show ?thesis by simp
qed

theorem start_revives_unregistered_witness:
  "\<exists>s3 fs3. startOne listCron exampleSchedule (Unregister listCron exampleScEnv ''deploy''
      (snd (startBegin listCron exampleScEnv (registeredSched, Map.empty)))) = (s3, fs3) \<and>
     exampleSchedule \<in> live listEntries s3 \<and> sc_jobs s3 ''deploy'' = None"
proof -
  note R = registered_facts
  have L: "loadLocked exampleScEnv Map.empty registeredSched = (None, registeredSched)" by (simp add: loadLocked_def R(6))
  have A: "tryAcquireLeaderLockLocked ioFine (registeredSched, Map.empty) =
      (True, (registeredSched\<lparr>sc_leaderLockHeld := True\<rparr>, Map.empty))" by (simp add: tryAcquireLeaderLockLocked_def R(5))
  have "fst (startBegin listCron exampleScEnv (registeredSched, Map.empty)) = [exampleSchedule]"
    by (simp add: startBegin_def R(2,3) L A)
  then have b: "startBegin listCron exampleScEnv (registeredSched, Map.empty) =
      ([exampleSchedule], snd (startBegin listCron exampleScEnv (registeredSched, Map.empty)))" by (metis prod.collapse)
  obtain s3 fs3 where st: "startOne listCron exampleSchedule (Unregister listCron exampleScEnv (s_WorkflowID exampleSchedule)
      (snd (startBegin listCron exampleScEnv (registeredSched, Map.empty)))) = (s3, fs3)" by fastforce
  from start_revives_unregistered[OF listCron_ok R(1,3) b _ example_schedule(2) st] st show ?thesis
    by (simp add: example_schedule(3))
qed

text \<open>A follower, whose \<^verbatim>\<open>Start\<close> did not get the leader lock, has no live trigger after \<^verbatim>\<open>Start\<close>; but an interval schedule
  that is registered with it afterwards becomes live there, although it does not hold the lock.\<close>

theorem follower_registers_live_trigger:
  assumes "cronOk cr entries" and "sched_ok entries s0" and "\<not> sc_started s0" and "\<not> sc_leaderLockHeld s0"
    and "sc_leaderLockPath s0 \<noteq> ''''" and "fs (sc_leaderLockPath s0) \<noteq> None"
    and "SchedulerStart cr e (s0, fs) = (s1, fs1)" and "checkSchedule cfg = None" and "s_Cron cfg = ''''"
    and "RegisterSchedule cr e' cfg (s1, fs1) = (r, (s2, fs2))"
  shows "live entries s1 = {} \<and> cfg \<in> live entries s2 \<and> \<not> sc_leaderLockHeld s2"
proof -
  have op: "schedOp cr (s0, fs) (s1, fs1)" using schedOp.start[of cr "(s0, fs)" e] assms(7) by simp
  have no: "\<not> sc_leaderLockHeld s1" using schedOp_frame(5)[OF op] assms(4-6) by blast
  note S = start_spec[OF assms(1-3,7)]
  note R = register_spec[OF assms(1) S(1) assms(8,10)]
  have "schedOp cr (s1, fs1) (s2, fs2)" using schedOp.register[of cr "(s1, fs1)" e' cfg] assms(10) by simp
  note F = schedOp_frame[OF this]
  have "sc_leaderLockPath s1 = sc_leaderLockPath s0" by (rule schedOp_frame(2)[OF op])
  moreover have "fs1 (sc_leaderLockPath s0) \<noteq> None" by (rule contrapos_nn[OF assms(6) schedOp_frame(4)[OF op]])
  ultimately have "\<not> sc_leaderLockHeld s2" using F(5) no assms(5) by force
  then show ?thesis using S(2) S(4)[OF no] R(3,4) assms(9) by simp
qed

theorem follower_registers_live_trigger_witness:
  "\<exists>r s2 fs2. RegisterSchedule listCron exampleScEnv exampleSchedule
       (SchedulerStart listCron exampleScEnv (clusterSched 2, [''leader.lock'' \<mapsto> ''''])) = (r, (s2, fs2)) \<and>
     exampleSchedule \<in> live listEntries s2 \<and> \<not> sc_leaderLockHeld s2"
proof -
  let ?fs = "[''leader.lock'' \<mapsto> ''''] :: fileSystem"
  have c: "\<not> sc_started (clusterSched 2)" "\<not> sc_leaderLockHeld (clusterSched 2)" "sc_leaderLockPath (clusterSched 2) = ''leader.lock''"
    by (simp_all add: clusterSched_def SetLeaderLockPath_def NewSchedulerService_def)
  have ok: "sched_ok listEntries (clusterSched 2)"
    by (rule sched_ok_cong[OF fresh_ok])
      (simp_all add: clusterSched_def SetLeaderLockPath_def freshSched_def NewSchedulerService_def)
  obtain s1 fs1 where st: "SchedulerStart listCron exampleScEnv (clusterSched 2, ?fs) = (s1, fs1)" by fastforce
  obtain r s2 fs2 where reg: "RegisterSchedule listCron exampleScEnv exampleSchedule (s1, fs1) = (r, (s2, fs2))"
    by (metis prod.collapse)
  have "sc_leaderLockPath (clusterSched 2) \<noteq> ''''" "?fs (sc_leaderLockPath (clusterSched 2)) \<noteq> None" by (simp_all add: c(3))
  from follower_registers_live_trigger[OF listCron_ok ok c(1,2) this st example_schedule(1,2) reg] st reg show ?thesis by simp
qed

section \<open>The file store\<close>

text \<open>C39. The file store keeps what it saved: after a run is saved without an error, opening the directory again gives a
  store with the same workflows and runs, the saved run among them (for a snapshot that \<^verbatim>\<open>encoding/json\<close> represents
  exactly, and file operations that succeed).\<close>

theorem file_store_reopens:
  assumes "store_inv (fst_mem s)" and "fst_baseDir s \<noteq> ''''"
    and "fsSaveRun codec ioOf e run (s, fs) = (None, (s', fs'))"
    and "rangesStore e (fst_mem s')" and "codecExact codec (snapshotOf e (fst_mem s'))"
    and "io_mkdir io = None" and "io_stat io = None" and "io_read io = None"
  shows "NewFileStore codec io e' (fst_baseDir s) fs' = Inr s' \<and> GetRun e'' (r_ID run) (fst_mem s') = Inr run \<and>
    ms_workflows (fst_mem s') = ms_workflows (fst_mem s)"
proof -
  let ?s = "s\<lparr>fst_mem := snd (SaveRun e run (fst_mem s))\<rparr>"
  have flush: "flushLocked codec (ioOf e) e (?s, fs) = (None, (s', fs'))"
    using assms(3) by (simp add: fsSaveRun_def SaveRun_def)
  then have s': "s' = ?s" by (rule flush_mem)
  have "store_inv (fst_mem ?s)" using assms(1) by (simp add: store_inv_save)
  from open_after_flush[OF this _ _ _ flush assms(6-8), of e'] assms(2,4,5) s'
  show ?thesis by (simp add: SaveRun_def GetRun_def)
qed

definition snapshotCodec :: "persistedSnapshot codec" where
  "snapshotCodec = \<lparr>co_Marshal = (\<lambda>p. Inr ''snapshot''),
     co_Unmarshal = (\<lambda>b. if b = ''snapshot'' then Inr \<lparr>ps_Workflows = [examplePipeline ''ok''], ps_Runs = [zeroRun\<lparr>r_ID := ''run-1''\<rparr>]\<rparr>
       else Inl ''invalid'')\<rparr>"

definition exampleDisk :: FileStore where
  "exampleDisk = \<lparr>fst_baseDir = ''data'', fst_mem = exampleStore\<rparr>"

theorem file_store_reopens_witness:
  "\<exists>s' fs'. fsSaveRun snapshotCodec (\<lambda>_. ioFine) (at 0 [''run-1'', ''deploy'']) (zeroRun\<lparr>r_ID := ''run-1''\<rparr>) (exampleDisk, Map.empty) =
     (None, (s', fs')) \<and> NewFileStore snapshotCodec ioFine (at 1 []) ''data'' fs' = Inr s'"
proof -
  let ?e = "at 0 [''run-1'', ''deploy'']"
  let ?run = "zeroRun\<lparr>r_ID := ''run-1''\<rparr>"
  have mem: "ms_workflows exampleStore = [''deploy'' \<mapsto> examplePipeline ''ok'']" "ms_runs exampleStore = Map.empty"
    by (simp_all add: exampleStore_def SaveWorkflow_def NewMemoryStore_def examplePipeline_def)
  obtain s' fs' where save: "fsSaveRun snapshotCodec (\<lambda>_. ioFine) ?e ?run (exampleDisk, Map.empty) = (None, (s', fs'))"
    and s': "ms_workflows (fst_mem s') = [''deploy'' \<mapsto> examplePipeline ''ok'']" "ms_runs (fst_mem s') = [''run-1'' \<mapsto> ?run]"
    by (simp add: fsSaveRun_def SaveRun_def flushLocked_def ListWorkflows_def ListRuns_def exampleDisk_def snapshotCodec_def
        osWriteFile_def ioFine_def mem)
  have "store_inv (fst_mem exampleDisk)" "fst_baseDir exampleDisk \<noteq> ''''"
    by (simp_all add: exampleDisk_def store_inv_def mem examplePipeline_def)
  moreover have "rangesStore ?e (fst_mem s')" by (simp add: rangesStore_def s' at_def)
  moreover have "codecExact snapshotCodec (snapshotOf ?e (fst_mem s'))"
    by (simp add: codecExact_def snapshotCodec_def snapshotOf_def s' at_def)
  ultimately have "NewFileStore snapshotCodec ioFine (at 1 []) (fst_baseDir exampleDisk) fs' = Inr s'"
    using file_store_reopens[OF _ _ save, of ioFine "at 1 []"] by (simp add: ioFine_def)
  with save show ?thesis by (simp add: exampleDisk_def)
qed

text \<open>A save whose snapshot cannot be written reports the error but keeps the run in memory: the store then
  answers with a run that the disk does not have.\<close>

theorem failed_save_stays_in_memory:
  assumes "co_Marshal codec (snapshotOf e (snd (SaveRun e run (fst_mem s)))) = Inr content"
    and "io_write (ioOf e) = Some (err, left)"
  shows "\<exists>s' fs'. fsSaveRun codec ioOf e run (s, fs) = (Some err, (s', fs')) \<and> GetRun e' (r_ID run) (fst_mem s') = Inr run \<and>
    fs' = (case left of None \<Rightarrow> fs | Some part \<Rightarrow> fs(snapshotPath s \<mapsto> part))"
  using assms
  by (auto simp: fsSaveRun_def SaveRun_def flushLocked_def ListWorkflows_def ListRuns_def snapshotOf_def osWriteFile_def
      GetRun_def snapshotPath_def split: option.splits)

theorem failed_save_stays_in_memory_witness:
  "\<exists>s' fs'. fsSaveRun snapshotCodec (\<lambda>_. ioFine\<lparr>io_write := Some (''disk full'', Some '''')\<rparr>) (at 0 []) (zeroRun\<lparr>r_ID := ''run-1''\<rparr>)
      (exampleDisk, Map.empty) = (Some ''disk full'', (s', fs')) \<and> fs' ''data/snapshot.json'' = Some ''''"
proof -
  have p: "snapshotPath exampleDisk = ''data/snapshot.json''" by code_simp
  have "co_Marshal snapshotCodec (snapshotOf (at 0 []) (snd (SaveRun (at 0 []) (zeroRun\<lparr>r_ID := ''run-1''\<rparr>) (fst_mem exampleDisk)))) =
      Inr ''snapshot''" by (simp add: snapshotCodec_def)
  from failed_save_stays_in_memory[OF this, of "\<lambda>_. ioFine\<lparr>io_write := Some (''disk full'', Some '''')\<rparr>" "''disk full''"
      "Some ''''" Map.empty "at 0 []"] p show ?thesis by fastforce
qed

end
