(* ===== verification/SQLiteStore.thy ===== *)
theory SQLiteStore
  imports Worker Files
begin

text \<open>
  The SQLite store (\<^verbatim>\<open>internal/store/sqlite_store.go\<close>), which implements both the workflow store and the run queue. A table
  with a text primary key is a map from keys to rows; a query without a unique order sees the rows in the
  order \<open>oe_ord\<close> of the call. The transitions are in the order of their row ids. A row of \<^verbatim>\<open>run_queue\<close> has the fields of a job,
  with every instant as 64-bit Unix nanoseconds. The status columns hold the texts of the status constants, which are
  modelled by the constants themselves.

  The database engine itself is a parameter in one respect: \<open>db k\<close> is the error with which the \<open>k\<close>-th statement of a call fails, or
  \<^const>\<open>None\<close>. The statements of a call are modelled without statements of other callers in between. \<^verbatim>\<open>encoding/json\<close> is a pair of
  codecs.
\<close>

section \<open>Tables\<close>

type_synonym jobRow = RunQueueJob
type_synonym dbEnv = "nat \<Rightarrow> error option"

record workflowRow =
  wr_payload :: string
  wr_updatedAt :: int

record runRow =
  rr_workflowID :: string
  rr_requestID :: string
  rr_startedAt :: int
  rr_payload :: string
  rr_updatedAt :: int

record SQLiteStore =
  db_workflows :: "string \<rightharpoonup> workflowRow"
  db_runs :: "string \<rightharpoonup> runRow"
  db_queue :: "string \<rightharpoonup> jobRow"
  db_transitions :: "RunJobTransition list"

text \<open>The tables that \<^verbatim>\<open>migrate\<close> creates in a new database.\<close>

definition emptyDB :: SQLiteStore where
  "emptyDB = \<lparr>db_workflows = Map.empty, db_runs = Map.empty, db_queue = Map.empty, db_transitions = []\<rparr>"

text \<open>\<^verbatim>\<open>time.Unix(0, n).UTC()\<close>\<close>

definition timeUnix :: "int \<Rightarrow> gotime" where
  "timeUnix n = n + 62135596800 * second"

text \<open>An instant that was written to a column and read back.\<close>

definition columnTime :: "gotime \<Rightarrow> gotime" where
  "columnTime t = timeUnix (unixNano t)"

section \<open>Opening the database\<close>

text \<open>\<^verbatim>\<open>execWithBusyRetry\<close>: the results of the attempts are given as a list; a busy error is retried, at most
  twenty times.\<close>

definition isSQLiteBusyError :: "error \<Rightarrow> bool" where
  "isSQLiteBusyError err \<longleftrightarrow>
     strContains (toLower err) ''sqlite_busy'' \<or> strContains (toLower err) ''database is locked''"

fun execAttempts :: "(error \<Rightarrow> bool) \<Rightarrow> nat \<Rightarrow> (nat \<Rightarrow> error option) \<Rightarrow> nat \<Rightarrow> error option \<Rightarrow> error option" where
  "execAttempts busy 0 result attempt lastErr =
     (case lastErr of Some err \<Rightarrow> Some err | None \<Rightarrow> Some ''sqlite busy retry exhausted'')"
| "execAttempts busy (Suc n) result attempt lastErr =
     (case result attempt of
        None \<Rightarrow> None
      | Some err \<Rightarrow> if \<not> busy err then Some err else execAttempts busy n result (Suc attempt) (Some err))"

definition execWithBusyRetry :: "(nat \<Rightarrow> error option) \<Rightarrow> error option" where
  "execWithBusyRetry result = execAttempts isSQLiteBusyError 20 result 0 None"

definition execIgnoreDuplicateColumn :: "error option \<Rightarrow> error option" where
  "execIgnoreDuplicateColumn result =
     (case result of
        None \<Rightarrow> None
      | Some err \<Rightarrow> if strContains (toLower err) ''duplicate column name'' then None else Some err)"

text \<open>Opening runs four pragmas, nine \<^verbatim>\<open>CREATE ... IF NOT EXISTS\<close> statements and four \<^verbatim>\<open>ALTER TABLE\<close> statements, which leave
  the rows of an existing database alone. The environment has the results of the attempts of each statement.\<close>

record openEnv =
  op_io :: ioEnv
  op_open :: "error option"
  op_pragmas :: "(nat \<Rightarrow> error option) list"
  op_creates :: "(nat \<Rightarrow> error option) list"
  op_alters :: "error option list"

fun execAll :: "(nat \<Rightarrow> error option) list \<Rightarrow> error option" where
  "execAll [] = None"
| "execAll (r # rs) = (case execWithBusyRetry r of Some err \<Rightarrow> Some err | None \<Rightarrow> execAll rs)"

fun alterAll :: "error option list \<Rightarrow> error option" where
  "alterAll [] = None"
| "alterAll (r # rs) = (case execIgnoreDuplicateColumn r of Some err \<Rightarrow> Some err | None \<Rightarrow> alterAll rs)"

definition migrate :: "openEnv \<Rightarrow> error option" where
  "migrate env = (case execAll (op_creates env) of Some err \<Rightarrow> Some err | None \<Rightarrow> alterAll (op_alters env))"

definition NewSQLiteStore :: "openEnv \<Rightarrow> string \<Rightarrow> SQLiteStore \<Rightarrow> error + SQLiteStore" where
  "NewSQLiteStore env dbPath onDisk =
     (if dbPath = '''' then Inl ''dbPath is required''
      else case osMkdirAll (op_io env) (pathDir dbPath) of
             Some err \<Rightarrow> Inl err
           | None \<Rightarrow>
               (case op_open env of
                  Some err \<Rightarrow> Inl err
                | None \<Rightarrow>
                    (case execAll (op_pragmas env) of
                       Some err \<Rightarrow> Inl err
                     | None \<Rightarrow> (case migrate env of Some err \<Rightarrow> Inl err | None \<Rightarrow> Inr onDisk))))"

section \<open>Workflows and runs\<close>

record sqlCodecs =
  cd_workflow :: "Workflow codec"
  cd_run :: "Run codec"

definition sqSaveWorkflow ::
  "sqlCodecs \<Rightarrow> dbEnv \<Rightarrow> opEnv \<Rightarrow> Workflow \<Rightarrow> SQLiteStore \<Rightarrow> error option \<times> SQLiteStore" where
  "sqSaveWorkflow c db e w s =
     (case co_Marshal (cd_workflow c) w of
        Inl err \<Rightarrow> (Some err, s)
      | Inr payload \<Rightarrow>
          (case db 0 of
             Some err \<Rightarrow> (Some err, s)
           | None \<Rightarrow> (None, s\<lparr>db_workflows := (db_workflows s)(w_ID w \<mapsto>
                       \<lparr>wr_payload = payload, wr_updatedAt = unixNano (oe_now e 0)\<rparr>)\<rparr>)))"

definition sqGetWorkflow :: "sqlCodecs \<Rightarrow> dbEnv \<Rightarrow> opEnv \<Rightarrow> string \<Rightarrow> SQLiteStore \<Rightarrow> error + Workflow" where
  "sqGetWorkflow c db e workflowID s =
     (case db 0 of
        Some err \<Rightarrow> Inl err
      | None \<Rightarrow> (case db_workflows s workflowID of
                  None \<Rightarrow> Inl ''workflow not found''
                | Some row \<Rightarrow> co_Unmarshal (cd_workflow c) (wr_payload row)))"

fun decodeAll :: "'a codec \<Rightarrow> string list \<Rightarrow> error + 'a list" where
  "decodeAll c [] = Inr []"
| "decodeAll c (p # ps) =
     (case co_Unmarshal c p of
        Inl err \<Rightarrow> Inl err
      | Inr x \<Rightarrow> (case decodeAll c ps of Inl err \<Rightarrow> Inl err | Inr xs \<Rightarrow> Inr (x # xs)))"

definition workflowBefore :: "Workflow \<Rightarrow> Workflow \<Rightarrow> bool" where
  "workflowBefore a b \<longleftrightarrow> w_ID a < w_ID b"

definition sqListWorkflows :: "sqlCodecs \<Rightarrow> dbEnv \<Rightarrow> opEnv \<Rightarrow> SQLiteStore \<Rightarrow> error + Workflow list" where
  "sqListWorkflows c db e s =
     (case db 0 of
        Some err \<Rightarrow> Inl err
      | None \<Rightarrow> (case decodeAll (cd_workflow c) (map wr_payload (rangeValues (oe_ord e) (db_workflows s))) of
                  Inl err \<Rightarrow> Inl err
                | Inr items \<Rightarrow> Inr (sortSlice workflowBefore items)))"

definition sqSaveRun :: "sqlCodecs \<Rightarrow> dbEnv \<Rightarrow> opEnv \<Rightarrow> Run \<Rightarrow> SQLiteStore \<Rightarrow> error option \<times> SQLiteStore" where
  "sqSaveRun c db e run s =
     (case co_Marshal (cd_run c) run of
        Inl err \<Rightarrow> (Some err, s)
      | Inr payload \<Rightarrow>
          (let startedAt = (if isZero (r_StartedAt run) then unixNano (oe_now e 0) else unixNano (r_StartedAt run))
           in case db 0 of
                Some err \<Rightarrow> (Some err, s)
              | None \<Rightarrow> (None, s\<lparr>db_runs := (db_runs s)(r_ID run \<mapsto>
                          \<lparr>rr_workflowID = r_WorkflowID run, rr_requestID = r_RequestID run, rr_startedAt = startedAt,
                           rr_payload = payload, rr_updatedAt = unixNano (oe_now e 1)\<rparr>)\<rparr>)))"

definition sqGetRun :: "sqlCodecs \<Rightarrow> dbEnv \<Rightarrow> opEnv \<Rightarrow> string \<Rightarrow> SQLiteStore \<Rightarrow> error + Run" where
  "sqGetRun c db e runID s =
     (case db 0 of
        Some err \<Rightarrow> Inl err
      | None \<Rightarrow> (case db_runs s runID of
                  None \<Rightarrow> Inl ''run not found''
                | Some row \<Rightarrow> co_Unmarshal (cd_run c) (rr_payload row)))"

definition rowStartedBefore :: "runRow \<Rightarrow> runRow \<Rightarrow> bool" where
  "rowStartedBefore a b \<longleftrightarrow> rr_startedAt a < rr_startedAt b"

definition rowStartedAfter :: "runRow \<Rightarrow> runRow \<Rightarrow> bool" where
  "rowStartedAfter a b \<longleftrightarrow> rr_startedAt b < rr_startedAt a"

definition sqListRuns :: "sqlCodecs \<Rightarrow> dbEnv \<Rightarrow> opEnv \<Rightarrow> string \<Rightarrow> SQLiteStore \<Rightarrow> error + Run list" where
  "sqListRuns c db e workflowID s =
     (case db 0 of
        Some err \<Rightarrow> Inl err
      | None \<Rightarrow>
          decodeAll (cd_run c) (map rr_payload (sortSlice rowStartedBefore
            (filter (\<lambda>row. workflowID = '''' \<or> rr_workflowID row = workflowID) (rangeValues (oe_ord e) (db_runs s))))))"

text \<open>The \<^verbatim>\<open>WHERE\<close> clauses that the filtered listing and the filtered count build.\<close>

definition runRowMatches :: "string \<Rightarrow> string \<Rightarrow> gotime \<Rightarrow> gotime \<Rightarrow> runRow \<Rightarrow> bool" where
  "runRowMatches workflowID requestID after before row \<longleftrightarrow>
     (workflowID \<noteq> '''' \<longrightarrow> rr_workflowID row = workflowID) \<and> (requestID \<noteq> '''' \<longrightarrow> rr_requestID row = requestID) \<and>
     (\<not> isZero after \<longrightarrow> unixNano after \<le> rr_startedAt row) \<and> (\<not> isZero before \<longrightarrow> rr_startedAt row \<le> unixNano before)"

text \<open>The loop over the rows when a status is asked for: decode, skip \<open>offset\<close> matches, stop when \<open>limit\<close> are taken.\<close>

fun scanStatus :: "Run codec \<Rightarrow> string \<Rightarrow> int \<Rightarrow> int \<Rightarrow> int \<Rightarrow> Run list \<Rightarrow> string list \<Rightarrow> error + Run list" where
  "scanStatus c status limit offset seen items [] = Inr items"
| "scanStatus c status limit offset seen items (p # ps) =
     (case co_Unmarshal c p of
        Inl err \<Rightarrow> Inl err
      | Inr run \<Rightarrow>
          if runStatusString (r_Status run) \<noteq> status then scanStatus c status limit offset seen items ps
          else if seen < offset then scanStatus c status limit offset (seen + 1) items ps
          else if limit \<le> int (length items) then Inr items
          else scanStatus c status limit offset seen (items @ [run]) ps)"

text \<open>\<^verbatim>\<open>LIMIT ? OFFSET ?\<close>\<close>

definition sqlPage :: "int \<Rightarrow> int \<Rightarrow> 'a list \<Rightarrow> 'a list" where
  "sqlPage limit offset rows = take (nat limit) (drop (nat offset) rows)"

definition sqListRunsFiltered ::
  "sqlCodecs \<Rightarrow> dbEnv \<Rightarrow> opEnv \<Rightarrow> string \<Rightarrow> string \<Rightarrow> string \<Rightarrow> gotime \<Rightarrow> gotime \<Rightarrow> bool \<Rightarrow> int \<Rightarrow> int \<Rightarrow> SQLiteStore \<Rightarrow>
   (error + Run list) option" where
  "sqListRunsFiltered c db e workflowID status requestID after before orderDesc limit0 offset0 s =
     (let limit = (if limit0 \<le> 0 then 50 else limit0); offset = (if offset0 < 0 then 0 else offset0);
          rows = sortSlice (if orderDesc then rowStartedAfter else rowStartedBefore)
            (filter (runRowMatches workflowID requestID after before) (rangeValues (oe_ord e) (db_runs s)))
      in case db 0 of
           Some err \<Rightarrow> Some (Inl err)
         | None \<Rightarrow>
             Some (if status = '''' then decodeAll (cd_run c) (map rr_payload (sqlPage limit offset rows))
                   else scanStatus (cd_run c) status limit offset 0 [] (map rr_payload rows)))"

definition sqCountRunsFiltered ::
  "sqlCodecs \<Rightarrow> dbEnv \<Rightarrow> opEnv \<Rightarrow> string \<Rightarrow> string \<Rightarrow> string \<Rightarrow> gotime \<Rightarrow> gotime \<Rightarrow> SQLiteStore \<Rightarrow> error + nat" where
  "sqCountRunsFiltered c db e workflowID status requestID after before s =
     (let rows = filter (runRowMatches workflowID requestID after before) (rangeValues (oe_ord e) (db_runs s))
      in case db 0 of
           Some err \<Rightarrow> Inl err
         | None \<Rightarrow>
             if status = '''' then Inr (length rows)
             else (case decodeAll (cd_run c) (map rr_payload rows) of
                     Inl err \<Rightarrow> Inl err
                   | Inr runs \<Rightarrow> Inr (length (filter (\<lambda>run. runStatusString (r_Status run) = status) runs))))"

definition sqliteStore :: "sqlCodecs \<Rightarrow> (opEnv \<Rightarrow> dbEnv) \<Rightarrow> SQLiteStore WorkflowStore" where
  "sqliteStore c dbOf =
     \<lparr>ws_SaveWorkflow = (\<lambda>e. sqSaveWorkflow c (dbOf e) e), ws_GetWorkflow = (\<lambda>e. sqGetWorkflow c (dbOf e) e),
      ws_ListWorkflows = (\<lambda>e. sqListWorkflows c (dbOf e) e), ws_SaveRun = (\<lambda>e. sqSaveRun c (dbOf e) e),
      ws_GetRun = (\<lambda>e. sqGetRun c (dbOf e) e), ws_ListRuns = (\<lambda>e. sqListRuns c (dbOf e) e),
      ws_ListRunsFiltered = (\<lambda>e. sqListRunsFiltered c (dbOf e) e), ws_CountRunsFiltered = (\<lambda>e. sqCountRunsFiltered c (dbOf e) e)\<rparr>"

end
