(* ===== verification/SQLiteQueue.thy ===== *)
theory SQLiteQueue
  imports SQLiteStore
begin

text \<open>
  The run queue in the database (\<^verbatim>\<open>internal/store/sqlite_store.go\<close>, from \<^verbatim>\<open>EnqueueRunJob\<close> on).
\<close>

section \<open>Rows\<close>

definition toRow :: "RunQueueJob \<Rightarrow> jobRow" where
  "toRow job = job\<lparr>j_LeaseUntil := unixNano (j_LeaseUntil job), j_AvailableAt := unixNano (j_AvailableAt job),
     j_ReplayedAt := unixNano (j_ReplayedAt job), j_CreatedAt := unixNano (j_CreatedAt job),
     j_UpdatedAt := unixNano (j_UpdatedAt job)\<rparr>"

text \<open>The conversion at the end of \<^verbatim>\<open>scanRunJob\<close>, which the listings repeat.\<close>

definition ofRow :: "jobRow \<Rightarrow> RunQueueJob" where
  "ofRow row = row\<lparr>j_LeaseUntil := timeUnix (j_LeaseUntil row), j_AvailableAt := timeUnix (j_AvailableAt row),
     j_ReplayedAt := timeUnix (j_ReplayedAt row), j_CreatedAt := timeUnix (j_CreatedAt row),
     j_UpdatedAt := timeUnix (j_UpdatedAt row)\<rparr>"

definition scanRunJob :: "error option \<Rightarrow> jobRow option \<Rightarrow> error + RunQueueJob" where
  "scanRunJob dbErr row =
     (case dbErr of
        Some err \<Rightarrow> Inl err
      | None \<Rightarrow> (case row of None \<Rightarrow> Inl ''run job not found'' | Some r \<Rightarrow> Inr (ofRow r)))"

text \<open>\<^verbatim>\<open>UPDATE run_queue SET ... WHERE id=? AND ...\<close>, with the number of rows affected.\<close>

definition updateJob :: "string \<Rightarrow> (jobRow \<Rightarrow> bool) \<Rightarrow> (jobRow \<Rightarrow> jobRow) \<Rightarrow> SQLiteStore \<Rightarrow> nat \<times> SQLiteStore" where
  "updateJob jobID guard f s =
     (case db_queue s jobID of
        None \<Rightarrow> (0, s)
      | Some row \<Rightarrow> if guard row then (1, s\<lparr>db_queue := (db_queue s)(jobID \<mapsto> f row)\<rparr>) else (0, s))"

text \<open>The foreign key refuses a transition of a job that is not in the table.\<close>

definition sqAppendTransition ::
  "error option \<Rightarrow> gotime \<Rightarrow> string \<Rightarrow> RunJobStatus \<Rightarrow> RunJobStatus \<Rightarrow> string \<Rightarrow> string \<Rightarrow> SQLiteStore \<Rightarrow>
   error option \<times> SQLiteStore" where
  "sqAppendTransition dbErr now jobID fromStatus toStatus reason actor s =
     (case dbErr of
        Some err \<Rightarrow> (Some err, s)
      | None \<Rightarrow>
          if db_queue s jobID = None then (Some ''FOREIGN KEY constraint failed'', s)
          else (None, s\<lparr>db_transitions := db_transitions s @
                 [\<lparr>tn_JobID = jobID, tn_FromStatus = fromStatus, tn_ToStatus = toStatus, tn_Reason = reason,
                   tn_Actor = actor, tn_CreatedAt = unixNano now\<rparr>]\<rparr>))"

section \<open>Operations\<close>

definition enqueueDefaults :: "gotime \<Rightarrow> RunQueueJob \<Rightarrow> RunQueueJob" where
  "enqueueDefaults now job0 =
     (let job = (if j_Status job0 = RunJobStatusUnset then job0\<lparr>j_Status := RunJobStatusQueued\<rparr> else job0);
          job = (if isZero (j_CreatedAt job) then job\<lparr>j_CreatedAt := now\<rparr> else job);
          job = (if isZero (j_UpdatedAt job) then job\<lparr>j_UpdatedAt := now\<rparr> else job);
          job = (if isZero (j_AvailableAt job) then job\<lparr>j_AvailableAt := now\<rparr> else job)
      in if j_MaxAttempts job \<le> 0 then job\<lparr>j_MaxAttempts := 5\<rparr> else job)"

definition sqEnqueueRunJob :: "dbEnv \<Rightarrow> opEnv \<Rightarrow> RunQueueJob \<Rightarrow> SQLiteStore \<Rightarrow> error option \<times> SQLiteStore" where
  "sqEnqueueRunJob db e job0 s =
     (if j_ID job0 = '''' then (Some ''job id is required'', s)
      else let job = enqueueDefaults (oe_now e 0) job0
           in case db 0 of
                Some err \<Rightarrow> (Some err, s)
              | None \<Rightarrow>
                  (let s' = (if db_queue s (j_ID job) = None then s\<lparr>db_queue := (db_queue s)(j_ID job \<mapsto> toRow job)\<rparr> else s)
                   in sqAppendTransition (db 1) (oe_now e 1) (j_ID job) RunJobStatusUnset (j_Status job) ''enqueued'' ''system'' s'))"

definition sqGetRunJob :: "dbEnv \<Rightarrow> opEnv \<Rightarrow> string \<Rightarrow> SQLiteStore \<Rightarrow> error + RunQueueJob" where
  "sqGetRunJob db e jobID s = scanRunJob (db 0) (db_queue s jobID)"

definition rowCreatedBefore :: "jobRow \<Rightarrow> jobRow \<Rightarrow> bool" where
  "rowCreatedBefore a b \<longleftrightarrow> j_CreatedAt a < j_CreatedAt b"

definition rowCreatedAfter :: "jobRow \<Rightarrow> jobRow \<Rightarrow> bool" where
  "rowCreatedAfter a b \<longleftrightarrow> j_CreatedAt b < j_CreatedAt a"

definition firstRow :: "'a list \<Rightarrow> 'a option" where
  "firstRow rows = (case rows of [] \<Rightarrow> None | r # rs \<Rightarrow> Some r)"

definition sqGetRunJobByRequest :: "dbEnv \<Rightarrow> opEnv \<Rightarrow> string \<Rightarrow> string \<Rightarrow> SQLiteStore \<Rightarrow> error + RunQueueJob" where
  "sqGetRunJobByRequest db e workflowID requestID s =
     scanRunJob (db 0) (firstRow (sortSlice rowCreatedAfter
       (filter (\<lambda>row. j_WorkflowID row = workflowID \<and> j_RequestID row = requestID) (rangeValues (oe_ord e) (db_queue s)))))"

definition leaseGuard :: "int \<Rightarrow> jobRow \<Rightarrow> bool" where
  "leaseGuard now row \<longleftrightarrow> j_Status row = RunJobStatusQueued \<or> j_Status row = RunJobStatusLeased \<and> j_LeaseUntil row < now"

definition leaseRow :: "opEnv \<Rightarrow> SQLiteStore \<Rightarrow> jobRow option" where
  "leaseRow e s =
     (let now = unixNano (oe_now e 0)
      in firstRow (sortSlice rowCreatedBefore
           (filter (\<lambda>row. leaseGuard now row \<and> j_AvailableAt row \<le> now) (rangeValues (oe_ord e) (db_queue s)))))"

definition sqLeaseNextRunJob ::
  "dbEnv \<Rightarrow> opEnv \<Rightarrow> string \<Rightarrow> duration \<Rightarrow> SQLiteStore \<Rightarrow> (error + RunQueueJob) \<times> SQLiteStore" where
  "sqLeaseNextRunJob db e workerID leaseDuration s =
     (case db 0 of
        Some err \<Rightarrow> (Inl err, s)
      | None \<Rightarrow>
          (case scanRunJob (db 1) (leaseRow e s) of
             Inl err \<Rightarrow> (Inl (if strContains err ''not found'' then ''no run job available'' else err), s)
           | Inr job \<Rightarrow>
               (let now = unixNano (oe_now e 0);
                    leaseUntil = unixNano (oe_now e 1 + leaseDuration);
                    updatedAt = unixNano (oe_now e 2)
                in case db 2 of
                     Some err \<Rightarrow> (Inl err, s)
                   | None \<Rightarrow>
                       (case updateJob (j_ID job) (leaseGuard now)
                               (\<lambda>row. row\<lparr>j_Status := RunJobStatusLeased, j_LeaseOwner := workerID, j_LeaseUntil := leaseUntil,
                                          j_Attempts := j_Attempts row + 1, j_UpdatedAt := updatedAt\<rparr>) s of
                          (affected, s1) \<Rightarrow>
                            if affected = 0 then (Inl ''run job lease lost'', s)
                            else case db 3 of
                                   Some err \<Rightarrow> (Inl err, s)
                                 | None \<Rightarrow>
                                     (let job' = job\<lparr>j_Status := RunJobStatusLeased, j_LeaseOwner := workerID,
                                            j_LeaseUntil := timeUnix leaseUntil, j_Attempts := j_Attempts job + 1,
                                            j_UpdatedAt := timeUnix updatedAt\<rparr>
                                      in case sqAppendTransition (db 4) (oe_now e 3) (j_ID job) (j_Status job) RunJobStatusLeased
                                                ''leased'' workerID s1 of
                                           (Some err, s2) \<Rightarrow> (Inl err, s2)
                                         | (None, s2) \<Rightarrow> (Inr job', s2))))))"

definition sqExtendRunJobLease ::
  "dbEnv \<Rightarrow> opEnv \<Rightarrow> string \<Rightarrow> string \<Rightarrow> duration \<Rightarrow> SQLiteStore \<Rightarrow> error option \<times> SQLiteStore" where
  "sqExtendRunJobLease db e jobID workerID leaseDuration s =
     (case db 0 of
        Some err \<Rightarrow> (Some err, s)
      | None \<Rightarrow>
          (case updateJob jobID (\<lambda>row. j_Status row = RunJobStatusLeased \<and> j_LeaseOwner row = workerID)
                  (\<lambda>row. row\<lparr>j_LeaseUntil := unixNano (oe_now e 0 + leaseDuration), j_UpdatedAt := unixNano (oe_now e 1)\<rparr>) s of
             (affected, s') \<Rightarrow> if affected = 0 then (Some ''run job lease extension failed'', s') else (None, s')))"

text \<open>The six operations that change the status of a job share one shape: read the job, update its row under a guard, append
  the transition.\<close>

definition changeJob ::
  "dbEnv \<Rightarrow> string \<Rightarrow> (jobRow \<Rightarrow> bool) \<Rightarrow> (jobRow \<Rightarrow> jobRow) \<Rightarrow> error \<Rightarrow> gotime \<Rightarrow> RunJobStatus \<Rightarrow> string \<Rightarrow> string \<Rightarrow>
   SQLiteStore \<Rightarrow> error option \<times> SQLiteStore" where
  "changeJob db jobID guard f rejected now toStatus reason actor s =
     (case scanRunJob (db 0) (db_queue s jobID) of
        Inl err \<Rightarrow> (Some err, s)
      | Inr job \<Rightarrow>
          (case db 1 of
             Some err \<Rightarrow> (Some err, s)
           | None \<Rightarrow>
               (case updateJob jobID guard f s of
                  (affected, s') \<Rightarrow>
                    if affected = 0 then (Some rejected, s')
                    else sqAppendTransition (db 2) now jobID (j_Status job) toStatus reason actor s')))"

definition sqCompleteRunJob :: "dbEnv \<Rightarrow> opEnv \<Rightarrow> string \<Rightarrow> SQLiteStore \<Rightarrow> error option \<times> SQLiteStore" where
  "sqCompleteRunJob db e jobID s =
     changeJob db jobID (\<lambda>row. j_Status row = RunJobStatusLeased)
       (\<lambda>row. row\<lparr>j_Status := RunJobStatusSucceeded, j_LeaseOwner := '''', j_LeaseUntil := 0, j_UpdatedAt := unixNano (oe_now e 0)\<rparr>)
       ''run job complete transition rejected'' (oe_now e 1) RunJobStatusSucceeded ''completed'' ''worker'' s"

definition sqCancelRunJob :: "dbEnv \<Rightarrow> opEnv \<Rightarrow> string \<Rightarrow> string \<Rightarrow> SQLiteStore \<Rightarrow> error option \<times> SQLiteStore" where
  "sqCancelRunJob db e jobID reason s =
     changeJob db jobID
       (\<lambda>row. j_Status row = RunJobStatusQueued \<or> j_Status row = RunJobStatusFailed \<or> j_Status row = RunJobStatusDead \<or>
              j_Status row = RunJobStatusLeased)
       (\<lambda>row. row\<lparr>j_Status := RunJobStatusCancelled, j_LastError := reason, j_LeaseOwner := '''', j_LeaseUntil := 0,
                  j_UpdatedAt := unixNano (oe_now e 0)\<rparr>)
       ''run job cancel transition rejected'' (oe_now e 1) RunJobStatusCancelled reason ''api'' s"

definition sqRetryRunJob :: "dbEnv \<Rightarrow> opEnv \<Rightarrow> string \<Rightarrow> duration \<Rightarrow> string \<Rightarrow> SQLiteStore \<Rightarrow> error option \<times> SQLiteStore" where
  "sqRetryRunJob db e jobID retryAfter lastError s =
     changeJob db jobID (\<lambda>row. j_Status row = RunJobStatusLeased)
       (\<lambda>row. row\<lparr>j_Status := RunJobStatusQueued, j_AvailableAt := unixNano (oe_now e 0 + retryAfter), j_LeaseOwner := '''',
                  j_LeaseUntil := 0, j_LastError := lastError, j_UpdatedAt := unixNano (oe_now e 1)\<rparr>)
       ''run job retry transition rejected'' (oe_now e 2) RunJobStatusQueued lastError ''worker'' s"

definition sqFailRunJob :: "dbEnv \<Rightarrow> opEnv \<Rightarrow> string \<Rightarrow> string \<Rightarrow> SQLiteStore \<Rightarrow> error option \<times> SQLiteStore" where
  "sqFailRunJob db e jobID lastError s =
     changeJob db jobID (\<lambda>row. j_Status row = RunJobStatusLeased)
       (\<lambda>row. row\<lparr>j_Status := RunJobStatusFailed, j_LeaseOwner := '''', j_LeaseUntil := 0, j_LastError := lastError,
                  j_UpdatedAt := unixNano (oe_now e 0)\<rparr>)
       ''run job fail transition rejected'' (oe_now e 1) RunJobStatusFailed lastError ''worker'' s"

definition sqDeadLetterRunJob :: "dbEnv \<Rightarrow> opEnv \<Rightarrow> string \<Rightarrow> string \<Rightarrow> SQLiteStore \<Rightarrow> error option \<times> SQLiteStore" where
  "sqDeadLetterRunJob db e jobID lastError s =
     changeJob db jobID (\<lambda>row. j_Status row = RunJobStatusLeased)
       (\<lambda>row. row\<lparr>j_Status := RunJobStatusDead, j_LeaseOwner := '''', j_LeaseUntil := 0, j_LastError := lastError,
                  j_UpdatedAt := unixNano (oe_now e 0)\<rparr>)
       ''run job dead-letter transition rejected'' (oe_now e 1) RunJobStatusDead lastError ''worker'' s"

definition sqRequeueRunJob ::
  "dbEnv \<Rightarrow> opEnv \<Rightarrow> string \<Rightarrow> duration \<Rightarrow> string \<Rightarrow> string \<Rightarrow> SQLiteStore \<Rightarrow> error option \<times> SQLiteStore" where
  "sqRequeueRunJob db e jobID availableAfter replayedBy replayReason s =
     changeJob db jobID (\<lambda>row. j_Status row = RunJobStatusDead \<or> j_Status row = RunJobStatusFailed)
       (\<lambda>row. row\<lparr>j_Status := RunJobStatusQueued, j_AvailableAt := unixNano (oe_now e 0 + availableAfter), j_LeaseOwner := '''',
                  j_LeaseUntil := 0, j_ReplayCount := j_ReplayCount row + 1, j_ReplayedBy := replayedBy,
                  j_ReplayReason := replayReason, j_ReplayedAt := unixNano (oe_now e 1), j_UpdatedAt := unixNano (oe_now e 2)\<rparr>)
       ''run job requeue transition rejected'' (oe_now e 3) RunJobStatusQueued replayReason replayedBy s"

section \<open>Listings\<close>

definition jobPage :: "opEnv \<Rightarrow> (jobRow \<Rightarrow> bool) \<Rightarrow> int \<Rightarrow> int \<Rightarrow> SQLiteStore \<Rightarrow> RunQueueJob list" where
  "jobPage e P limit0 offset0 s =
     (let limit = (if limit0 \<le> 0 then 50 else limit0); offset = (if offset0 < 0 then 0 else offset0)
      in map ofRow (sqlPage limit offset (sortSlice rowCreatedBefore (filter P (rangeValues (oe_ord e) (db_queue s))))))"

definition dbResult :: "error option \<Rightarrow> 'a \<Rightarrow> error + 'a" where
  "dbResult dbErr x = (case dbErr of Some err \<Rightarrow> Inl err | None \<Rightarrow> Inr x)"

definition sqListRunJobs :: "dbEnv \<Rightarrow> opEnv \<Rightarrow> string \<Rightarrow> int \<Rightarrow> int \<Rightarrow> SQLiteStore \<Rightarrow> (error + RunQueueJob list) option" where
  "sqListRunJobs db e status limit offset s =
     Some (dbResult (db 0) (jobPage e (\<lambda>row. status \<noteq> '''' \<longrightarrow> runJobStatusString (j_Status row) = status) limit offset s))"

definition jobRowMatches :: "string \<Rightarrow> string \<Rightarrow> string \<Rightarrow> gotime \<Rightarrow> gotime \<Rightarrow> jobRow \<Rightarrow> bool" where
  "jobRowMatches status workflowID requestID after before row \<longleftrightarrow>
     (status \<noteq> '''' \<longrightarrow> runJobStatusString (j_Status row) = status) \<and> (workflowID \<noteq> '''' \<longrightarrow> j_WorkflowID row = workflowID) \<and>
     (requestID \<noteq> '''' \<longrightarrow> j_RequestID row = requestID) \<and> (\<not> isZero after \<longrightarrow> unixNano after \<le> j_UpdatedAt row) \<and>
     (\<not> isZero before \<longrightarrow> j_UpdatedAt row \<le> unixNano before)"

definition sqListRunJobsFiltered ::
  "dbEnv \<Rightarrow> opEnv \<Rightarrow> string \<Rightarrow> string \<Rightarrow> string \<Rightarrow> gotime \<Rightarrow> gotime \<Rightarrow> int \<Rightarrow> int \<Rightarrow> SQLiteStore \<Rightarrow> (error + RunQueueJob list) option" where
  "sqListRunJobsFiltered db e status workflowID requestID after before limit offset s =
     Some (dbResult (db 0) (jobPage e (jobRowMatches status workflowID requestID after before) limit offset s))"

definition sqCountRunJobsFiltered ::
  "dbEnv \<Rightarrow> opEnv \<Rightarrow> string \<Rightarrow> string \<Rightarrow> string \<Rightarrow> gotime \<Rightarrow> gotime \<Rightarrow> SQLiteStore \<Rightarrow> error + nat" where
  "sqCountRunJobsFiltered db e status workflowID requestID after before s =
     dbResult (db 0) (length (filter (jobRowMatches status workflowID requestID after before) (rangeValues (oe_ord e) (db_queue s))))"

definition sqListRunJobsByRun :: "dbEnv \<Rightarrow> opEnv \<Rightarrow> string \<Rightarrow> int \<Rightarrow> int \<Rightarrow> SQLiteStore \<Rightarrow> (error + RunQueueJob list) option" where
  "sqListRunJobsByRun db e runID limit offset s =
     Some (dbResult (db 0) (jobPage e (\<lambda>row. j_RunID row = runID) limit offset s))"

text \<open>\<^verbatim>\<open>SELECT status, COUNT(*) ... GROUP BY status\<close>: one row for each status that occurs.\<close>

definition sqCountRunJobsByStatus :: "dbEnv \<Rightarrow> opEnv \<Rightarrow> SQLiteStore \<Rightarrow> error + (RunJobStatus \<rightharpoonup> int)" where
  "sqCountRunJobsByStatus db e s =
     dbResult (db 0)
       (let rows = rangeValues (oe_ord e) (db_queue s)
        in fold (\<lambda>st counts. counts(st \<mapsto> int (length (filter (\<lambda>row. j_Status row = st) rows)))) (remdups (map j_Status rows)) Map.empty)"

section \<open>Purging\<close>

definition rowUpdatedBefore :: "jobRow \<Rightarrow> jobRow \<Rightarrow> bool" where
  "rowUpdatedBefore a b \<longleftrightarrow> j_UpdatedAt a < j_UpdatedAt b"

definition purgeRow :: "opEnv \<Rightarrow> string \<Rightarrow> duration \<Rightarrow> jobRow \<Rightarrow> bool" where
  "purgeRow e status olderThan row \<longleftrightarrow>
     (status \<noteq> '''' \<longrightarrow> runJobStatusString (j_Status row) = status) \<and>
     (olderThan > 0 \<longrightarrow> j_UpdatedAt row \<le> unixNano (oe_now e 0 - olderThan))"

text \<open>\<^verbatim>\<open>DELETE FROM run_queue WHERE id = ?\<close>, which cascades to the transitions.\<close>

definition deleteJob :: "string \<Rightarrow> SQLiteStore \<Rightarrow> nat \<times> SQLiteStore" where
  "deleteJob jobID s =
     (if db_queue s jobID = None then (0, s)
      else (1, s\<lparr>db_queue := (db_queue s)(jobID := None), db_transitions := filter (\<lambda>t. tn_JobID t \<noteq> jobID) (db_transitions s)\<rparr>))"

fun deleteAll :: "dbEnv \<Rightarrow> nat \<Rightarrow> string list \<Rightarrow> nat \<Rightarrow> SQLiteStore \<Rightarrow> (error + nat) \<times> SQLiteStore" where
  "deleteAll db k [] deleted s = (Inr deleted, s)"
| "deleteAll db k (jobID # ids) deleted s =
     (case db k of
        Some err \<Rightarrow> (Inl err, s)
      | None \<Rightarrow> (case deleteJob jobID s of (affected, s') \<Rightarrow> deleteAll db (Suc k) ids (deleted + affected) s'))"

definition sqPurgeRunJobs ::
  "dbEnv \<Rightarrow> opEnv \<Rightarrow> string \<Rightarrow> duration \<Rightarrow> int \<Rightarrow> SQLiteStore \<Rightarrow> (error + nat) \<times> SQLiteStore" where
  "sqPurgeRunJobs db e status olderThan limit0 s =
     (let limit = (if limit0 \<le> 0 then 1000 else limit0);
          ids = map j_ID (take (nat limit)
            (sortSlice rowUpdatedBefore (filter (purgeRow e status olderThan) (rangeValues (oe_ord e) (db_queue s)))))
      in case db 0 of
           Some err \<Rightarrow> (Inl err, s)
         | None \<Rightarrow>
             if ids = [] then (Inr 0, s)
             else case db 1 of
                    Some err \<Rightarrow> (Inl err, s)
                  | None \<Rightarrow>
                      (case deleteAll db 2 ids 0 s of
                         (Inl err, s') \<Rightarrow> (Inl err, s)
                       | (Inr deleted, s') \<Rightarrow>
                           (case db (length ids + 2) of
                              Some err \<Rightarrow> (Inl err, s)
                            | None \<Rightarrow> (Inr deleted, s'))))"

section \<open>Transitions\<close>

definition ofTransition :: "RunJobTransition \<Rightarrow> RunJobTransition" where
  "ofTransition t = t\<lparr>tn_CreatedAt := timeUnix (tn_CreatedAt t)\<rparr>"

definition transitionBefore :: "RunJobTransition \<Rightarrow> RunJobTransition \<Rightarrow> bool" where
  "transitionBefore a b \<longleftrightarrow> tn_CreatedAt a < tn_CreatedAt b"

definition transitionRowMatches :: "string \<Rightarrow> string \<Rightarrow> string \<Rightarrow> gotime \<Rightarrow> gotime \<Rightarrow> RunJobTransition \<Rightarrow> bool" where
  "transitionRowMatches jobID toStatus actor after before t \<longleftrightarrow>
     tn_JobID t = jobID \<and> (toStatus \<noteq> '''' \<longrightarrow> runJobStatusString (tn_ToStatus t) = toStatus) \<and>
     (actor \<noteq> '''' \<longrightarrow> tn_Actor t = actor) \<and> (\<not> isZero after \<longrightarrow> unixNano after \<le> tn_CreatedAt t) \<and>
     (\<not> isZero before \<longrightarrow> tn_CreatedAt t \<le> unixNano before)"

definition sqListRunJobTransitions ::
  "dbEnv \<Rightarrow> opEnv \<Rightarrow> string \<Rightarrow> int \<Rightarrow> int \<Rightarrow> SQLiteStore \<Rightarrow> (error + RunJobTransition list) option" where
  "sqListRunJobTransitions db e jobID limit0 offset0 s =
     (let limit = (if limit0 \<le> 0 then 50 else limit0); offset = (if offset0 < 0 then 0 else offset0)
      in Some (dbResult (db 0) (map ofTransition (sqlPage limit offset
           (sortSlice transitionBefore (filter (\<lambda>t. tn_JobID t = jobID) (db_transitions s)))))))"

definition sqListRunJobTransitionsFiltered ::
  "dbEnv \<Rightarrow> opEnv \<Rightarrow> string \<Rightarrow> string \<Rightarrow> string \<Rightarrow> gotime \<Rightarrow> gotime \<Rightarrow> int \<Rightarrow> int \<Rightarrow> SQLiteStore \<Rightarrow>
   (error + RunJobTransition list) option" where
  "sqListRunJobTransitionsFiltered db e jobID toStatus actor after before limit0 offset0 s =
     (let limit = (if limit0 \<le> 0 then 50 else limit0); offset = (if offset0 < 0 then 0 else offset0)
      in Some (dbResult (db 0) (map ofTransition (sqlPage limit offset
           (sortSlice transitionBefore (filter (transitionRowMatches jobID toStatus actor after before) (db_transitions s)))))))"

definition sqCountRunJobTransitionsFiltered ::
  "dbEnv \<Rightarrow> opEnv \<Rightarrow> string \<Rightarrow> string \<Rightarrow> string \<Rightarrow> gotime \<Rightarrow> gotime \<Rightarrow> SQLiteStore \<Rightarrow> error + nat" where
  "sqCountRunJobTransitionsFiltered db e jobID toStatus actor after before s =
     dbResult (db 0) (length (filter (transitionRowMatches jobID toStatus actor after before) (db_transitions s)))"

definition sqliteQueue :: "(opEnv \<Rightarrow> dbEnv) \<Rightarrow> SQLiteStore RunQueue" where
  "sqliteQueue dbOf =
     \<lparr>rq_EnqueueRunJob = (\<lambda>e. sqEnqueueRunJob (dbOf e) e), rq_GetRunJob = (\<lambda>e. sqGetRunJob (dbOf e) e),
      rq_GetRunJobByRequest = (\<lambda>e. sqGetRunJobByRequest (dbOf e) e), rq_LeaseNextRunJob = (\<lambda>e. sqLeaseNextRunJob (dbOf e) e),
      rq_ExtendRunJobLease = (\<lambda>e. sqExtendRunJobLease (dbOf e) e), rq_CompleteRunJob = (\<lambda>e. sqCompleteRunJob (dbOf e) e),
      rq_CancelRunJob = (\<lambda>e. sqCancelRunJob (dbOf e) e), rq_RetryRunJob = (\<lambda>e. sqRetryRunJob (dbOf e) e),
      rq_FailRunJob = (\<lambda>e. sqFailRunJob (dbOf e) e), rq_DeadLetterRunJob = (\<lambda>e. sqDeadLetterRunJob (dbOf e) e),
      rq_RequeueRunJob = (\<lambda>e. sqRequeueRunJob (dbOf e) e), rq_ListRunJobs = (\<lambda>e. sqListRunJobs (dbOf e) e),
      rq_ListRunJobsFiltered = (\<lambda>e. sqListRunJobsFiltered (dbOf e) e),
      rq_CountRunJobsFiltered = (\<lambda>e. sqCountRunJobsFiltered (dbOf e) e),
      rq_ListRunJobsByRun = (\<lambda>e. sqListRunJobsByRun (dbOf e) e), rq_CountRunJobsByStatus = (\<lambda>e. sqCountRunJobsByStatus (dbOf e) e),
      rq_PurgeRunJobs = (\<lambda>e. sqPurgeRunJobs (dbOf e) e), rq_ListRunJobTransitions = (\<lambda>e. sqListRunJobTransitions (dbOf e) e),
      rq_ListRunJobTransitionsFiltered = (\<lambda>e. sqListRunJobTransitionsFiltered (dbOf e) e),
      rq_CountRunJobTransitionsFiltered = (\<lambda>e. sqCountRunJobTransitionsFiltered (dbOf e) e)\<rparr>"

end
