(* ===== verification/SQLiteInv.thy ===== *)
theory SQLiteInv
  imports SQLiteQueue MemoryQueueInv
begin

text \<open>
  The invariant of the queue tables, and the contract of the run queue: the database keeps it as the memory queue
  does, when its statements succeed.
\<close>

section \<open>Instants in columns\<close>

lemma columnTime_exact:
  assumes "minInt64 \<le> t - 62135596800 * second" and "t - 62135596800 * second \<le> maxInt64"
  shows "columnTime t = t"
  using wrap64_id[of "t - 62135596800 * second"] assms by (simp add: columnTime_def timeUnix_def unixNano_def)

section \<open>The shape of the operations\<close>

lemma updateJob_eq:
  "updateJob i guard f s =
     (case db_queue s i of
        Some row \<Rightarrow> if guard row then (1, s\<lparr>db_queue := (db_queue s)(i \<mapsto> f row)\<rparr>) else (0, s)
      | None \<Rightarrow> (0, s))"
  by (simp add: updateJob_def split: option.splits)

text \<open>Every outcome of a status change: nothing happened, or the row was changed under its guard and the
  transition was appended or failed to be.\<close>

lemma changeJob_cases:
  assumes "changeJob db i guard f rejected now st reason actor s = (r, s')"
  obtains (same) "s' = s" "r \<noteq> None"
  | (changed) row where "db_queue s i = Some row" "guard row" "db_queue s' = (db_queue s)(i \<mapsto> f row)"
      "db_transitions s' = db_transitions s @ (if r = None then [\<lparr>tn_JobID = i, tn_FromStatus = j_Status row, tn_ToStatus = st,
         tn_Reason = reason, tn_Actor = actor, tn_CreatedAt = unixNano now\<rparr>] else [])"
      "db_workflows s' = db_workflows s" "db_runs s' = db_runs s"
proof (cases "db_queue s i")
  case None
  with assms have "s' = s" "r \<noteq> None" by (cases "db 0"; auto simp: changeJob_def scanRunJob_def)+
  then show ?thesis by (rule same)
next
  case (Some row)
  consider (err) "db 0 \<noteq> None \<or> db 1 \<noteq> None \<or> \<not> guard row" | (ok) "db 0 = None" "db 1 = None" "guard row" by blast
  then show ?thesis
  proof cases
    case err
    with assms Some have "s' = s" "r \<noteq> None"
      by (cases "db 0"; cases "db 1"; auto simp: changeJob_def scanRunJob_def updateJob_def split: if_splits)+
    then show ?thesis by (rule same)
  next
    case ok
    with assms Some show ?thesis
      by (intro changed[of row])
        (auto simp: changeJob_def scanRunJob_def updateJob_def sqAppendTransition_def ofRow_def split: option.splits if_splits)
  qed
qed

lemma changeJob_ok:
  assumes "db_queue s i = Some row" and "guard row"
  shows "changeJob (\<lambda>_. None) i guard f rejected now st reason actor s =
    (None, s\<lparr>db_queue := (db_queue s)(i \<mapsto> f row), db_transitions := db_transitions s @
       [\<lparr>tn_JobID = i, tn_FromStatus = j_Status row, tn_ToStatus = st, tn_Reason = reason, tn_Actor = actor,
         tn_CreatedAt = unixNano now\<rparr>]\<rparr>)"
  using assms by (simp add: changeJob_def scanRunJob_def updateJob_def sqAppendTransition_def ofRow_def)

lemma changeJob_rejected:
  assumes "\<And>row. db_queue s i = Some row \<Longrightarrow> \<not> guard row"
  shows "\<exists>err. changeJob db i guard f rejected now st reason actor s = (Some err, s)"
  using assms by (auto simp: changeJob_def scanRunJob_def updateJob_def split: option.splits)

lemmas changeDefs = sqCompleteRunJob_def sqCancelRunJob_def sqRetryRunJob_def sqFailRunJob_def sqDeadLetterRunJob_def
  sqRequeueRunJob_def

section \<open>The invariant\<close>

text \<open>Rows are filed under their id, have a status and no negative number of attempts, and the foreign key holds.\<close>

definition row_ok :: "string \<Rightarrow> jobRow \<Rightarrow> bool" where
  "row_ok i row \<longleftrightarrow> j_ID row = i \<and> j_Status row \<noteq> RunJobStatusUnset \<and> 0 \<le> j_Attempts row"

definition sq_inv :: "SQLiteStore \<Rightarrow> bool" where
  "sq_inv s \<longleftrightarrow> (\<forall>i row. db_queue s i = Some row \<longrightarrow> row_ok i row) \<and>
     (\<forall>t \<in> set (db_transitions s). db_queue s (tn_JobID t) \<noteq> None)"

definition sqJobs :: "SQLiteStore \<Rightarrow> string \<rightharpoonup> RunQueueJob" where
  "sqJobs s i = map_option ofRow (db_queue s i)"

lemma sqJobs_upd: "db_queue s' = (db_queue s)(i \<mapsto> row) \<Longrightarrow> sqJobs s' = (sqJobs s)(i \<mapsto> ofRow row)"
  by (auto simp: sqJobs_def fun_eq_iff)

lemma sq_inv_put:
  assumes "sq_inv s" and "db_queue s i = Some row0" and "row_ok i row" and "db_queue s' = (db_queue s)(i \<mapsto> row)"
    and "\<forall>t \<in> set (db_transitions s'). t \<in> set (db_transitions s) \<or> tn_JobID t = i"
  shows "sq_inv s'"
  using assms by (auto simp: sq_inv_def)

lemma changeJob_inv:
  assumes "sq_inv s" and "changeJob db i guard f rejected now st reason actor s = (r, s')"
    and "\<And>row. row_ok i row \<Longrightarrow> row_ok i (f row)"
  shows "sq_inv s'"
  using assms(2)
proof (cases rule: changeJob_cases)
  case same
  with assms(1) show ?thesis by simp
next
  case (changed row)
  have "row_ok i row" using assms(1) changed(1) by (simp add: sq_inv_def)
  from sq_inv_put[OF assms(1) changed(1) assms(3)[OF this] changed(3)] changed(4) show ?thesis
    by (auto split: if_splits)
qed

lemma firstRow_sorted:
  "firstRow (sortSlice lt (filter P (rangeValues ord m))) = Some row \<Longrightarrow> P row \<and> (\<exists>i \<in> set ord. m i = Some row)"
proof -
  assume "firstRow (sortSlice lt (filter P (rangeValues ord m))) = Some row"
  then obtain rs where eq: "sortSlice lt (filter P (rangeValues ord m)) = row # rs" by (auto simp: firstRow_def split: list.splits)
  have "row \<in> set (sortSlice lt (filter P (rangeValues ord m)))" unfolding eq by simp
  then show ?thesis by (auto simp: set_rangeValues)
qed

text \<open>A successful lease: the chosen row passes the guards, and it is the row that changes.\<close>

definition leasedRow :: "opEnv \<Rightarrow> string \<Rightarrow> duration \<Rightarrow> jobRow \<Rightarrow> jobRow" where
  "leasedRow e wid d row = row\<lparr>j_Status := RunJobStatusLeased, j_LeaseOwner := wid, j_LeaseUntil := unixNano (oe_now e 1 + d),
     j_Attempts := j_Attempts row + 1, j_UpdatedAt := unixNano (oe_now e 2)\<rparr>"

lemma lease_cases:
  assumes "sq_inv s" and "sqLeaseNextRunJob db e wid d s = (r, s')"
  obtains (none) err where "r = Inl err" "s' = s"
  | (leased) row where "db_queue s (j_ID row) = Some row" "leaseGuard (unixNano (oe_now e 0)) row"
      "j_AvailableAt row \<le> unixNano (oe_now e 0)" "leaseRow e s = Some row"
      "db_queue s' = (db_queue s)(j_ID row \<mapsto> leasedRow e wid d row)"
      "\<forall>t \<in> set (db_transitions s'). t \<in> set (db_transitions s) \<or> tn_JobID t = j_ID row"
      "\<And>job. r = Inr job \<Longrightarrow> job = ofRow (leasedRow e wid d row)" "\<forall>k. db k = None \<Longrightarrow> r = Inr (ofRow (leasedRow e wid d row))"
proof (cases "db 0 = None \<and> db 1 = None \<and> db 2 = None \<and> db 3 = None \<and> leaseRow e s \<noteq> None")
  case False
  have "\<exists>err. r = Inl err \<and> s' = s"
    using assms(2) False
    by (auto simp: sqLeaseNextRunJob_def scanRunJob_def updateJob_def Let_def split: option.splits if_splits)
  then show ?thesis using none by blast
next
  case True
  then obtain row where row: "leaseRow e s = Some row" by blast
  from firstRow_sorted[OF this[unfolded leaseRow_def Let_def]] obtain i where
    g: "leaseGuard (unixNano (oe_now e 0)) row" "j_AvailableAt row \<le> unixNano (oe_now e 0)" "db_queue s i = Some row" by blast
  have i: "i = j_ID row" using assms(1) g(3) by (auto simp: sq_inv_def row_ok_def)
  have id: "j_ID (ofRow row) = j_ID row" by (simp add: ofRow_def)
  have "ofRow (leasedRow e wid d row) = (ofRow row)\<lparr>j_Status := RunJobStatusLeased, j_LeaseOwner := wid,
      j_LeaseUntil := timeUnix (unixNano (oe_now e 1 + d)), j_Attempts := j_Attempts row + 1,
      j_UpdatedAt := timeUnix (unixNano (oe_now e 2))\<rparr>" by (simp add: ofRow_def leasedRow_def)
  moreover have "j_Attempts (ofRow row) = j_Attempts row" by (simp add: ofRow_def)
  ultimately show ?thesis
    using assms(2) True row g i
    by (intro leased[of row])
      (auto simp: sqLeaseNextRunJob_def scanRunJob_def updateJob_def sqAppendTransition_def Let_def id leasedRow_def
        split: option.splits)
qed

lemma lease_inv:
  assumes "sq_inv s" and "sqLeaseNextRunJob db e wid d s = (r, s')"
  shows "sq_inv s'"
  using assms
proof (cases rule: lease_cases)
  case (leased row)
  have "row_ok (j_ID row) row" using assms(1) leased(1) by (simp add: sq_inv_def)
  then have "row_ok (j_ID row) (leasedRow e wid d row)" by (simp add: row_ok_def leasedRow_def)
  from sq_inv_put[OF assms(1) leased(1) this leased(5,6)] show ?thesis .
qed (use assms in simp)

section \<open>The contract of the run queue\<close>

lemma ofRow_fields [simp]:
  "j_ID (ofRow row) = j_ID row" "j_WorkflowID (ofRow row) = j_WorkflowID row" "j_RunID (ofRow row) = j_RunID row"
  "j_RequestID (ofRow row) = j_RequestID row" "j_Status (ofRow row) = j_Status row" "j_Attempts (ofRow row) = j_Attempts row"
  "j_MaxAttempts (ofRow row) = j_MaxAttempts row" "j_LastError (ofRow row) = j_LastError row"
  "j_LeaseOwner (ofRow row) = j_LeaseOwner row" "j_ReplayCount (ofRow row) = j_ReplayCount row"
  "j_CreatedAt (ofRow row) = timeUnix (j_CreatedAt row)" "j_AvailableAt (ofRow row) = timeUnix (j_AvailableAt row)"
  "j_LeaseUntil (ofRow row) = timeUnix (j_LeaseUntil row)"
  by (simp_all add: ofRow_def)

abbreviation sqlite :: "SQLiteStore RunQueue" where
  "sqlite \<equiv> sqliteQueue (\<lambda>_ _. None)"

lemma change_law:
  assumes inv: "sq_inv s" and j: "sqJobs s i = Some j" and "guard (the (db_queue s i))"
    and keep: "\<And>row. row_ok i row \<Longrightarrow> row_ok i (f row)"
  shows "\<exists>s' row. changeJob (\<lambda>_. None) i guard f rejected now st reason actor s = (None, s') \<and> sq_inv s' \<and>
    sqJobs s' = (sqJobs s)(i \<mapsto> ofRow (f row)) \<and> db_queue s i = Some row \<and> j = ofRow row"
proof -
  obtain row where row: "db_queue s i = Some row" "j = ofRow row" using j by (auto simp: sqJobs_def)
  obtain s' where ch: "changeJob (\<lambda>_. None) i guard f rejected now st reason actor s = (None, s')"
    and q: "db_queue s' = (db_queue s)(i \<mapsto> f row)"
    using changeJob_ok[OF row(1), where guard = guard and f = f] assms(3) row(1) by simp
  from changeJob_inv[OF inv ch keep] sqJobs_upd[OF q] ch row show ?thesis by blast
qed

interpretation sqlq: run_queue sqlite sqJobs sq_inv "\<lambda>e s. iterates (oe_ord e) (db_queue s)" columnTime
proof unfold_locales
  fix s e wid d j s'
  assume inv: "sq_inv s" and "rq_LeaseNextRunJob sqlite e wid d s = (Inr j, s')"
  then have L: "sqLeaseNextRunJob (\<lambda>_. None) e wid d s = (Inr j, s')" by (simp add: sqliteQueue_def)
  from inv L show "sq_inv s' \<and> sqJobs s' = (sqJobs s)(j_ID j \<mapsto> j) \<and>
      (\<exists>j0. sqJobs s (j_ID j) = Some j0 \<and> j_Status j0 \<in> {RunJobStatusQueued, RunJobStatusLeased} \<and> leasedBy wid j0 j)"
  proof (cases rule: lease_cases)
    case (leased row)
    have j: "j = ofRow (leasedRow e wid d row)" by (rule leased(7)[OF refl])
    have "sqJobs s (j_ID row) = Some (ofRow row)" using leased(1) by (simp add: sqJobs_def)
    moreover have "leasedBy wid (ofRow row) j" by (simp add: leasedBy_def sameJob_def j leasedRow_def)
    moreover have "j_ID j = j_ID row" by (simp add: j leasedRow_def)
    moreover have "sqJobs s' = (sqJobs s)(j_ID row \<mapsto> j)" using sqJobs_upd[OF leased(5)] by (simp add: j)
    ultimately show ?thesis using leased(2) lease_inv[OF inv L] by (auto simp: leaseGuard_def)
  qed auto
next
  fix e wid d s err s'
  assume "rq_LeaseNextRunJob sqlite e wid d s = (Inl err, s')"
  then show "s' = s"
    by (auto simp: sqliteQueue_def sqLeaseNextRunJob_def scanRunJob_def updateJob_def sqAppendTransition_def Let_def
        split: option.splits if_splits)
next
  fix s i j e
  assume j: "sq_inv s" "sqJobs s i = Some j" "j_Status j = RunJobStatusLeased"
  then have st: "j_Status (the (db_queue s i)) = RunJobStatusLeased" by (auto simp: sqJobs_def)
  show "\<exists>s' j'. rq_CompleteRunJob sqlite e i s = (None, s') \<and> sq_inv s' \<and> sqJobs s' = (sqJobs s)(i \<mapsto> j') \<and>
      settled RunJobStatusSucceeded j j'"
    using change_law[where guard = "\<lambda>row. j_Status row = RunJobStatusLeased", OF j(1,2) st,
      of "\<lambda>row. row\<lparr>j_Status := RunJobStatusSucceeded, j_LeaseOwner := '''', j_LeaseUntil := 0, j_UpdatedAt := unixNano (oe_now e 0)\<rparr>"]
    by (fastforce simp: sqliteQueue_def sqCompleteRunJob_def row_ok_def settled_def sameJob_def)
  fix msg
  show "\<exists>s' j'. rq_FailRunJob sqlite e i msg s = (None, s') \<and> sq_inv s' \<and> sqJobs s' = (sqJobs s)(i \<mapsto> j') \<and>
      settled RunJobStatusFailed j j' \<and> j_LastError j' = msg"
    using change_law[where guard = "\<lambda>row. j_Status row = RunJobStatusLeased", OF j(1,2) st,
      of "\<lambda>row. row\<lparr>j_Status := RunJobStatusFailed, j_LeaseOwner := '''', j_LeaseUntil := 0, j_LastError := msg, j_UpdatedAt := unixNano (oe_now e 0)\<rparr>"]
    by (fastforce simp: sqliteQueue_def sqFailRunJob_def row_ok_def settled_def sameJob_def)
  show "\<exists>s' j'. rq_DeadLetterRunJob sqlite e i msg s = (None, s') \<and> sq_inv s' \<and> sqJobs s' = (sqJobs s)(i \<mapsto> j') \<and>
      settled RunJobStatusDead j j' \<and> j_LastError j' = msg"
    using change_law[where guard = "\<lambda>row. j_Status row = RunJobStatusLeased", OF j(1,2) st,
      of "\<lambda>row. row\<lparr>j_Status := RunJobStatusDead, j_LeaseOwner := '''', j_LeaseUntil := 0, j_LastError := msg, j_UpdatedAt := unixNano (oe_now e 0)\<rparr>"]
    by (fastforce simp: sqliteQueue_def sqDeadLetterRunJob_def row_ok_def settled_def sameJob_def)
  fix d
  show "\<exists>s' j'. rq_RetryRunJob sqlite e i d msg s = (None, s') \<and> sq_inv s' \<and> sqJobs s' = (sqJobs s)(i \<mapsto> j') \<and>
      settled RunJobStatusQueued j j' \<and> j_LastError j' = msg \<and> (\<exists>k. j_AvailableAt j' = columnTime (oe_now e k + d))"
    using change_law[where guard = "\<lambda>row. j_Status row = RunJobStatusLeased", OF j(1,2) st,
      of "\<lambda>row. row\<lparr>j_Status := RunJobStatusQueued, j_AvailableAt := unixNano (oe_now e 0 + d), j_LeaseOwner := '''', j_LeaseUntil := 0, j_LastError := msg, j_UpdatedAt := unixNano (oe_now e 1)\<rparr>"]
    by (fastforce simp: sqliteQueue_def sqRetryRunJob_def row_ok_def settled_def sameJob_def columnTime_def)
next
  fix s i e d msg
  assume "\<nexists>j. sqJobs s i = Some j \<and> j_Status j = RunJobStatusLeased"
  then have no: "\<And>row. db_queue s i = Some row \<Longrightarrow> j_Status row \<noteq> RunJobStatusLeased" by (auto simp: sqJobs_def)
  show "(\<exists>err. rq_CompleteRunJob sqlite e i s = (Some err, s)) \<and> (\<exists>err. rq_RetryRunJob sqlite e i d msg s = (Some err, s)) \<and>
      (\<exists>err. rq_FailRunJob sqlite e i msg s = (Some err, s)) \<and> (\<exists>err. rq_DeadLetterRunJob sqlite e i msg s = (Some err, s))"
    using changeJob_rejected[where guard = "\<lambda>row. j_Status row = RunJobStatusLeased", OF no]
    by (simp add: sqliteQueue_def changeDefs)
next
  fix s i j e msg
  assume j: "sq_inv s" "sqJobs s i = Some j" "j_Status j \<notin> {RunJobStatusSucceeded, RunJobStatusCancelled}"
  let ?g = "\<lambda>row. j_Status row = RunJobStatusQueued \<or> j_Status row = RunJobStatusFailed \<or> j_Status row = RunJobStatusDead \<or>
    j_Status row = RunJobStatusLeased"
  have "?g (the (db_queue s i))"
    using j by (cases "j_Status j") (auto simp: sqJobs_def sq_inv_def row_ok_def)
  then show "\<exists>s' j'. rq_CancelRunJob sqlite e i msg s = (None, s') \<and> sq_inv s' \<and> sqJobs s' = (sqJobs s)(i \<mapsto> j') \<and>
      settled RunJobStatusCancelled j j' \<and> j_LastError j' = msg"
    using change_law[where guard = ?g, OF j(1,2),
      of "\<lambda>row. row\<lparr>j_Status := RunJobStatusCancelled, j_LastError := msg, j_LeaseOwner := '''', j_LeaseUntil := 0, j_UpdatedAt := unixNano (oe_now e 0)\<rparr>"]
    by (fastforce simp: sqliteQueue_def sqCancelRunJob_def row_ok_def settled_def sameJob_def)
next
  fix s i j e msg
  show "sqJobs s i = None \<or> sqJobs s i = Some j \<and> j_Status j \<in> {RunJobStatusSucceeded, RunJobStatusCancelled} \<Longrightarrow>
      snd (rq_CancelRunJob sqlite e i msg s) = s"
    by (auto simp: sqliteQueue_def sqCancelRunJob_def changeJob_def scanRunJob_def updateJob_def sqJobs_def)
next
  fix s e i wid d r s'
  assume inv: "sq_inv s" and "rq_ExtendRunJobLease sqlite e i wid d s = (r, s')"
  then have ext: "sqExtendRunJobLease (\<lambda>_. None) e i wid d s = (r, s')" by (simp add: sqliteQueue_def)
  show "sq_inv s' \<and> (s' = s \<or> (\<exists>j j'. sqJobs s i = Some j \<and> j_Status j = RunJobStatusLeased \<and> j_LeaseOwner j = wid \<and>
      sqJobs s' = (sqJobs s)(i \<mapsto> j') \<and> sameJob j j' \<and> j_Status j' = RunJobStatusLeased \<and> j_LeaseOwner j' = wid \<and>
      j_Attempts j' = j_Attempts j \<and> j_ReplayCount j' = j_ReplayCount j))"
  proof (cases "s' = s")
    case False
    then obtain row where row: "db_queue s i = Some row" "j_Status row = RunJobStatusLeased" "j_LeaseOwner row = wid"
      and s': "s' = s\<lparr>db_queue := (db_queue s)(i \<mapsto> row\<lparr>j_LeaseUntil := unixNano (oe_now e 0 + d), j_UpdatedAt := unixNano (oe_now e 1)\<rparr>)\<rparr>"
      using ext by (auto simp: sqExtendRunJobLease_def updateJob_def split: option.splits if_splits)
    let ?row = "row\<lparr>j_LeaseUntil := unixNano (oe_now e 0 + d), j_UpdatedAt := unixNano (oe_now e 1)\<rparr>"
    have q: "db_queue s' = (db_queue s)(i \<mapsto> ?row)" by (simp add: s')
    have "row_ok i ?row" using inv row(1) by (auto simp: sq_inv_def row_ok_def)
    from sq_inv_put[OF inv row(1) this q] have "sq_inv s'" by (simp add: s')
    moreover have "sqJobs s i = Some (ofRow row)" using row(1) by (simp add: sqJobs_def)
    ultimately show ?thesis using row sqJobs_upd[OF q]
      by (intro conjI disjI2 exI[of _ "ofRow row"] exI[of _ "ofRow ?row"]) (simp_all add: sameJob_def)
  qed (use inv in simp)
qed (auto simp: sqliteQueue_def sqGetRunJob_def scanRunJob_def sqJobs_def)

section \<open>Steps\<close>

inductive sqstep :: "SQLiteStore \<Rightarrow> SQLiteStore \<Rightarrow> bool" where
  enqueue: "freshJob job \<Longrightarrow> sqstep s (snd (sqEnqueueRunJob db e job s))"
| lease: "sqstep s (snd (sqLeaseNextRunJob db e wid d s))"
| extend: "sqstep s (snd (sqExtendRunJobLease db e i wid d s))"
| complete: "sqstep s (snd (sqCompleteRunJob db e i s))"
| cancel: "sqstep s (snd (sqCancelRunJob db e i reason s))"
| retry: "sqstep s (snd (sqRetryRunJob db e i d msg s))"
| fail: "sqstep s (snd (sqFailRunJob db e i msg s))"
| deadLetter: "sqstep s (snd (sqDeadLetterRunJob db e i msg s))"
| requeue: "sqstep s (snd (sqRequeueRunJob db e i d who why s))"
| purge: "sqstep s (snd (sqPurgeRunJobs db e status olderThan limit s))"

abbreviation sqreach :: "SQLiteStore \<Rightarrow> bool" where
  "sqreach s \<equiv> sqstep\<^sup>*\<^sup>* emptyDB s"

text \<open>What enqueuing does to the table.\<close>

lemma enqueue_cases:
  assumes "sqEnqueueRunJob db e job s = (r, s')"
  obtains (same) "db_queue s' = db_queue s" "\<forall>t \<in> set (db_transitions s'). t \<in> set (db_transitions s) \<or> db_queue s (tn_JobID t) \<noteq> None"
  | (added) "db_queue s (j_ID job) = None" "db_queue s' = (db_queue s)(j_ID job \<mapsto> toRow (enqueueDefaults (oe_now e 0) job))"
      "\<forall>t \<in> set (db_transitions s'). t \<in> set (db_transitions s) \<or> tn_JobID t = j_ID job"
proof -
  have id: "j_ID (enqueueDefaults (oe_now e 0) job) = j_ID job" by (simp add: enqueueDefaults_def Let_def)
  show thesis
  proof (cases "j_ID job \<noteq> '''' \<and> db 0 = None \<and> db_queue s (j_ID job) = None")
    case True
    with assms show ?thesis
      by (intro added) (auto simp: sqEnqueueRunJob_def Let_def id sqAppendTransition_def split: option.splits)
  next
    case False
    with assms show ?thesis
      by (intro same) (auto simp: sqEnqueueRunJob_def Let_def id sqAppendTransition_def split: option.splits if_splits)
  qed
qed

lemma deleteAll_spec:
  "deleteAll db k ids n s = (Inr m, s') \<Longrightarrow> sq_inv s \<Longrightarrow> sq_inv s' \<and> db_queue s' = db_queue s |` (- set ids)"
proof (induction ids arbitrary: k n s)
  case (Cons i ids)
  obtain a s1 where d: "deleteJob i s = (a, s1)" by fastforce
  have q: "db_queue s1 = (db_queue s)(i := None)" and inv: "sq_inv s1"
    using d Cons.prems(2) by (auto simp: deleteJob_def sq_inv_def split: if_splits)
  have "deleteAll db (Suc k) ids (n + a) s1 = (Inr m, s')" using Cons.prems(1) d by (auto split: option.splits)
  from Cons.IH[OF this inv] q show ?case by (auto simp: fun_eq_iff restrict_map_def)
qed (simp add: restrict_map_def)

lemma purge_cases:
  assumes "sqPurgeRunJobs db e status olderThan limit s = (r, s')" and "sq_inv s"
  obtains (same) "s' = s" | (purged) ids where "db_queue s' = db_queue s |` (- set ids)" "sq_inv s'"
proof -
  let ?ids = "map j_ID (take (nat (if limit \<le> 0 then 1000 else limit))
    (sortSlice rowUpdatedBefore (filter (purgeRow e status olderThan) (rangeValues (oe_ord e) (db_queue s)))))"
  show thesis
  proof (cases "s' = s")
    case False
    then obtain m where "deleteAll db 2 ?ids 0 s = (Inr m, s')"
      using assms(1) by (auto simp: sqPurgeRunJobs_def Let_def split: option.splits if_splits prod.splits sum.splits)
    from deleteAll_spec[OF this assms(2)] purged show ?thesis by blast
  qed (rule same)
qed

lemma extend_cases:
  assumes "sqExtendRunJobLease db e i wid d s = (r, s')"
  obtains (same) "s' = s"
  | (extended) row where "db_queue s i = Some row" "j_Status row = RunJobStatusLeased" "db_transitions s' = db_transitions s"
      "db_queue s' = (db_queue s)(i \<mapsto> row\<lparr>j_LeaseUntil := unixNano (oe_now e 0 + d), j_UpdatedAt := unixNano (oe_now e 1)\<rparr>)"
proof (cases "s' = s")
  case False
  then obtain row where "db 0 = None" "db_queue s i = Some row" "j_Status row = RunJobStatusLeased \<and> j_LeaseOwner row = wid"
    using assms by (auto simp: sqExtendRunJobLease_def updateJob_def split: option.splits if_splits)
  with assms show ?thesis by (intro extended[of row]) (auto simp: sqExtendRunJobLease_def updateJob_def)
qed (rule same)

lemma sqstep_inv:
  assumes "sqstep s s'" and "sq_inv s"
  shows "sq_inv s'"
  using assms(1)
proof (cases rule: sqstep.cases)
  case (enqueue job db e)
  have "sqEnqueueRunJob db e job s = (fst (sqEnqueueRunJob db e job s), s')" using enqueue by simp
  then show ?thesis
  proof (cases rule: enqueue_cases)
    case same
    with assms(2) show ?thesis by (auto simp: sq_inv_def)
  next
    case added
    have "row_ok (j_ID job) (toRow (enqueueDefaults (oe_now e 0) job))"
      using enqueue(2) by (auto simp: row_ok_def toRow_def enqueueDefaults_def Let_def freshJob_def)
    with added assms(2) show ?thesis by (auto simp: sq_inv_def)
  qed
next
  case (lease db e wid d)
  then show ?thesis using lease_inv[OF assms(2), of db e wid d] by (metis prod.collapse)
next
  case (extend db e i wid d)
  have "sqExtendRunJobLease db e i wid d s = (fst (sqExtendRunJobLease db e i wid d s), s')" using extend by simp
  then show ?thesis
  proof (cases rule: extend_cases)
    case (extended row)
    have "row_ok i (row\<lparr>j_LeaseUntil := unixNano (oe_now e 0 + d), j_UpdatedAt := unixNano (oe_now e 1)\<rparr>)"
      using assms(2) extended(1) by (auto simp: sq_inv_def row_ok_def)
    from sq_inv_put[OF assms(2) extended(1) this extended(4)] extended(3) show ?thesis by simp
  qed (use assms(2) in simp)
next
  case (purge db e status olderThan limit)
  have "sqPurgeRunJobs db e status olderThan limit s = (fst (sqPurgeRunJobs db e status olderThan limit s), s')" using purge by simp
  from this assms(2) show ?thesis by (cases rule: purge_cases) (use assms(2) in auto)
qed (auto simp: changeDefs row_ok_def intro!: changeJob_inv[OF assms(2) prod.collapse[symmetric]])

lemma emptyDB_inv: "sq_inv emptyDB"
  by (simp add: sq_inv_def emptyDB_def)

lemma sqreach_inv: "sqreach s \<Longrightarrow> sq_inv s"
  by (induction rule: rtranclp_induct) (auto intro: emptyDB_inv sqstep_inv)

section \<open>Listing by status\<close>

text \<open>The scanning loop computes the page of the matching runs.\<close>

lemma decodeAll_Inr: "decodeAll c ps = Inr xs \<Longrightarrow> p \<in> set ps \<Longrightarrow> \<exists>x. co_Unmarshal c p = Inr x"
  by (induction ps arbitrary: xs) (auto split: sum.splits)

lemma scanStatus_page:
  assumes "decodeAll c ps = Inr runs" and "0 \<le> seen" and "seen \<le> offset" and "int (length items) \<le> limit"
    and "items \<noteq> [] \<longrightarrow> seen = offset"
  shows "scanStatus c status limit offset seen items ps = Inr (items @ take (nat limit - length items)
    (drop (nat (offset - seen)) (filter (\<lambda>run. runStatusString (r_Status run) = status) runs)))"
  using assms
proof (induction c status limit offset seen items ps arbitrary: runs rule: scanStatus.induct)
  case (2 c status limit offset seen items p ps)
  from 2(4) obtain run rest where d: "co_Unmarshal c p = Inr run" "decodeAll c ps = Inr rest" "runs = run # rest"
    by (auto split: sum.splits)
  consider (other) "runStatusString (r_Status run) \<noteq> status" | (skip) "runStatusString (r_Status run) = status" "seen < offset"
    | (full) "runStatusString (r_Status run) = status" "seen = offset" "limit \<le> int (length items)"
    | (taken) "runStatusString (r_Status run) = status" "seen = offset" "int (length items) < limit"
    using "2.prems"(3) by linarith
  then show ?case
  proof cases
    case other
    then show ?thesis using 2(1)[OF d(1) other d(2)] "2.prems" d by simp
  next
    case skip
    have "items = []" using "2.prems"(5) skip(2) by auto
    moreover have "nat (offset - seen) = Suc (nat (offset - (seen + 1)))" using skip(2) by simp
    ultimately show ?thesis using 2(2)[OF d(1) _ skip(2) d(2)] "2.prems" d skip by simp
  next
    case full
    then show ?thesis using "2.prems" d by simp
  next
    case taken
    have "nat limit - length items = Suc (nat limit - length (items @ [run]))" using taken(3) by simp
    then show ?thesis using 2(3)[OF d(1) _ _ _ d(2)] "2.prems" d taken by simp
  qed
qed simp

section \<open>Busy retries\<close>

lemma execAttempts_None:
  "execAttempts busy n result k lastErr = None \<longleftrightarrow>
     (\<exists>j<n. result (k + j) = None \<and> (\<forall>i<j. \<exists>err. result (k + i) = Some err \<and> busy err))"
proof (induction n arbitrary: k lastErr)
  case (Suc n)
  show ?case
  proof (cases "result k")
    case None
    then show ?thesis by (auto intro!: exI[of _ 0])
  next
    case (Some err)
    have "(\<exists>j<Suc n. result (k + j) = None \<and> (\<forall>i<j. \<exists>err. result (k + i) = Some err \<and> busy err)) \<longleftrightarrow>
        busy err \<and> (\<exists>j<n. result (Suc k + j) = None \<and> (\<forall>i<j. \<exists>err. result (Suc k + i) = Some err \<and> busy err))"
      (is "?l \<longleftrightarrow> busy err \<and> ?r")
    proof
      assume ?l
      then obtain j where j: "j < Suc n" "result (k + j) = None" "\<forall>i<j. \<exists>err. result (k + i) = Some err \<and> busy err" by blast
      then obtain j' where j': "j = Suc j'" using Some by (cases j) auto
      have "busy err" using j(3) Some j' by fastforce
      moreover have "\<forall>i<j'. \<exists>err. result (Suc k + i) = Some err \<and> busy err" using j(3) j' by (metis Suc_mono add_Suc_shift)
      ultimately show "busy err \<and> ?r" using j j' by auto
    next
      assume r: "busy err \<and> ?r"
      then obtain j where j: "j < n" "result (Suc k + j) = None" "\<forall>i<j. \<exists>err. result (Suc k + i) = Some err \<and> busy err" by blast
      have "\<exists>err. result (k + i) = Some err \<and> busy err" if "i < Suc j" for i
        using that Some r j(3) by (cases i) auto
      with j show ?l by (intro exI[of _ "Suc j"]) auto
    qed
    with Some Suc.IH[of "Suc k" "Some err"] show ?thesis by simp
  qed
qed (auto split: option.splits)

end
