(* ===== verification/SQLiteProperties.thy ===== *)
theory SQLiteProperties
  imports SQLiteInv WorkerProperties
begin

text \<open>
  The properties of the SQLite store, with instances on a small database.
\<close>

section \<open>A database to instantiate the properties\<close>

definition noErr :: dbEnv where
  "noErr = (\<lambda>_. None)"

definition dbJob :: RunQueueJob where
  "dbJob = exampleJob ''a''"

definition exampleDB :: SQLiteStore where
  "exampleDB = snd (sqEnqueueRunJob noErr (at 10 []) dbJob emptyDB)"

definition leasedDB :: SQLiteStore where
  "leasedDB = snd (sqLeaseNextRunJob noErr (at 30 [''a'']) ''w1'' 100 exampleDB)"

lemma fst_Inr: "(case fst p of Inl _ \<Rightarrow> False | Inr x \<Rightarrow> P x) \<Longrightarrow> \<exists>x s. p = (Inr x, s) \<and> P x"
  by (cases p) (auto split: sum.splits)

lemma exampleDB_reach: "sqreach exampleDB" "sqreach leasedDB"
proof -
  show e: "sqreach exampleDB" unfolding exampleDB_def dbJob_def
    by (rule r_into_rtranclp) (rule sqstep.enqueue[OF example_fresh])
  then show "sqreach leasedDB" unfolding leasedDB_def by (rule rtranclp.rtrancl_into_rtrancl) (rule sqstep.lease)
qed

lemma dbJob_id: "j_ID dbJob = ''a''" "j_ID (enqueueDefaults now dbJob) = ''a''"
  by (simp_all add: dbJob_def exampleJob_def enqueueDefaults_def Let_def)

lemma exampleDB_eq: "db_queue exampleDB = [''a'' \<mapsto> toRow (enqueueDefaults 10 dbJob)]"
  by (simp add: exampleDB_def sqEnqueueRunJob_def Let_def dbJob_id noErr_def emptyDB_def sqAppendTransition_def at_def)

lemma leasedDB_facts:
  "case db_queue leasedDB ''a'' of None \<Rightarrow> False | Some row \<Rightarrow> j_Status row = RunJobStatusLeased \<and> unixNano 50 \<le> j_LeaseUntil row"
  by code_simp

section \<open>The queue\<close>

definition sqBoard :: "SQLiteStore \<Rightarrow> string \<rightharpoonup> RunJobStatus" where
  "sqBoard s i = map_option j_Status (db_queue s i)"

lemma sqBoard_upd: "db_queue s' = (db_queue s)(i \<mapsto> row) \<Longrightarrow> sqBoard s' = (sqBoard s)(i \<mapsto> j_Status row)"
  by (auto simp: sqBoard_def fun_eq_iff)

lemma sqBoard_move:
  assumes "db_queue s i = Some row" and "legal (j_Status row) (j_Status row')" and "db_queue s' = (db_queue s)(i \<mapsto> row')"
  shows "board_step (sqBoard s) (sqBoard s')"
  unfolding sqBoard_upd[OF assms(3)] by (rule board_step.move) (use assms(1,2) in \<open>simp_all add: sqBoard_def\<close>)

lemma sqBoard_same: "db_queue s' = db_queue s \<Longrightarrow> board_step (sqBoard s) (sqBoard s')"
  using board_step.same[of "sqBoard s"] by (simp add: sqBoard_def[abs_def])

lemma changeJob_board:
  assumes "changeJob db i guard f rejected now st reason actor s = (r, s')"
    and "\<And>row. guard row \<Longrightarrow> legal (j_Status row) (j_Status (f row))"
  shows "board_step (sqBoard s) (sqBoard s')"
  using assms(1)
proof (cases rule: changeJob_cases)
  case same
  then show ?thesis by (simp add: sqBoard_same)
next
  case (changed row)
  from sqBoard_move[OF changed(1) assms(2)[OF changed(2)] changed(3)] show ?thesis .
qed

text \<open>C40. The queue in the database implements the same abstract board of job statuses as the memory queue, also when
  statements of the database fail: every operation leaves the board as it is, adds a queued job, moves one job along a
  legal status change, or removes jobs.\<close>

theorem sqlite_refines_board:
  assumes "sqreach s" and "sqstep s s'"
  shows "board_step (sqBoard s) (sqBoard s')"
proof -
  note inv = sqreach_inv[OF assms(1)]
  from assms(2) show ?thesis
  proof (cases rule: sqstep.cases)
    case (enqueue job db e)
    have "sqEnqueueRunJob db e job s = (fst (sqEnqueueRunJob db e job s), s')" using enqueue by simp
    then show ?thesis
    proof (cases rule: enqueue_cases)
      case added
      have "j_Status (toRow (enqueueDefaults (oe_now e 0) job)) = RunJobStatusQueued"
        using enqueue(2) by (auto simp: toRow_def enqueueDefaults_def Let_def freshJob_def)
      with sqBoard_upd[OF added(2)] added(1) show ?thesis by (simp add: sqBoard_def board_step.add)
    qed (rule sqBoard_same)
  next
    case (lease db e wid d)
    have "sqLeaseNextRunJob db e wid d s = (fst (sqLeaseNextRunJob db e wid d s), s')" using lease by simp
    with inv show ?thesis
    proof (cases rule: lease_cases)
      case (leased row)
      have "legal (j_Status row) (j_Status (leasedRow e wid d row))"
        using leased(2) by (auto simp: leaseGuard_def leasedRow_def)
      from sqBoard_move[OF leased(1) this leased(5)] show ?thesis .
    qed (simp add: sqBoard_same)
  next
    case (extend db e i wid d)
    have "sqExtendRunJobLease db e i wid d s = (fst (sqExtendRunJobLease db e i wid d s), s')" using extend by simp
    then show ?thesis
    proof (cases rule: extend_cases)
      case (extended row)
      from sqBoard_move[OF extended(1) _ extended(4)] extended(2) show ?thesis by simp
    qed (simp add: sqBoard_same)
  next
    case (purge db e status olderThan limit)
    have "sqPurgeRunJobs db e status olderThan limit s = (fst (sqPurgeRunJobs db e status olderThan limit s), s')" using purge by simp
    from this inv show ?thesis
    proof (cases rule: purge_cases)
      case (purged ids)
      then have "sqBoard s' = sqBoard s |` (- set ids)" by (auto simp: sqBoard_def restrict_map_def fun_eq_iff)
      then show ?thesis by (simp add: board_step.remove)
    qed (simp add: sqBoard_same)
  qed (auto simp: changeDefs intro!: changeJob_board[OF prod.collapse[symmetric]])
qed

theorem sqlite_refines_board_witness: "board_step (sqBoard exampleDB) (sqBoard leasedDB)"
  unfolding leasedDB_def by (rule sqlite_refines_board[OF exampleDB_reach(1) sqstep.lease])

text \<open>Leases exclude each other in the database too: a job whose lease column has not passed at the reading of the
  clock is not handed out again.\<close>

theorem sqlite_lease_exclusive:
  assumes "sqreach s" and "db_queue s i = Some row" and "j_Status row = RunJobStatusLeased"
    and "unixNano (oe_now e 0) \<le> j_LeaseUntil row" and "sqLeaseNextRunJob db e wid d s = (Inr job, s')"
  shows "j_ID job \<noteq> i"
  using sqreach_inv[OF assms(1)] assms(5)
proof (cases rule: lease_cases)
  case (leased row')
  have "j_ID job = j_ID row'" using leased(7)[OF refl] by (simp add: leasedRow_def)
  moreover have "row' \<noteq> row" using leased(2) assms(3,4) by (auto simp: leaseGuard_def)
  ultimately show ?thesis using leased(1) assms(2) by auto
qed simp

definition twoDB :: SQLiteStore where
  "twoDB = snd (sqEnqueueRunJob noErr (at 20 []) (exampleJob ''b'') leasedDB)"

theorem sqlite_lease_exclusive_witness:
  "\<exists>job s'. sqLeaseNextRunJob noErr (at 50 [''a'', ''b'']) ''w2'' 100 twoDB = (Inr job, s') \<and> j_ID job \<noteq> ''a''"
proof -
  have reach: "sqreach twoDB" unfolding twoDB_def
    by (rule rtranclp.rtrancl_into_rtrancl[OF exampleDB_reach(2)]) (rule sqstep.enqueue[OF example_fresh])
  have "case db_queue twoDB ''a'' of None \<Rightarrow> False | Some row \<Rightarrow> j_Status row = RunJobStatusLeased \<and> unixNano 50 \<le> j_LeaseUntil row"
    by code_simp
  then obtain row where row: "db_queue twoDB ''a'' = Some row" "j_Status row = RunJobStatusLeased"
    "unixNano (oe_now (at 50 [''a'', ''b'']) 0) \<le> j_LeaseUntil row" by (auto simp: at_def split: option.splits)
  have "case fst (sqLeaseNextRunJob noErr (at 50 [''a'', ''b'']) ''w2'' 100 twoDB) of Inl _ \<Rightarrow> False | Inr _ \<Rightarrow> True" by code_simp
  from fst_Inr[OF this] obtain job s' where L: "sqLeaseNextRunJob noErr (at 50 [''a'', ''b'']) ''w2'' 100 twoDB = (Inr job, s')"
    by blast
  from sqlite_lease_exclusive[OF reach row L] L show ?thesis by blast
qed

text \<open>The worker settles its jobs in the database as it does in the memory queue (while the statements of the
  database succeed): according to the run's outcome, without a panic, and without touching another job. The retry time
  is the clock reading plus the backoff, as 64-bit nanoseconds represent it.\<close>

theorem sqlite_worker_settles_job:
  assumes "sqreach (wd_queue w0)" and "iterates (oe_ord (pe_lease env)) (db_queue (wd_queue w0))"
    and "wk_queue svc = sqliteQueue (\<lambda>_ _. None)" and "\<forall>ev \<in> set (pe_during env). ownEvent ev"
    and "sqLeaseNextRunJob (\<lambda>_. None) (pe_lease env) (wk_workerID svc) (wk_leaseDuration svc) (wd_queue w0) = (Inr job, q1)"
    and "ws_GetWorkflow (wk_store svc) (pe_get env) (j_WorkflowID job) (wd_store w0) = Inr workflow"
    and "fold (duringStep svc (j_ID job)) (pe_during env) (q1, False) = (q2, cancelled)"
    and "RunWithID (wk_executor svc) (pe_run env cancelled) workflow (j_RunID job) (j_RequestID job) (wd_store w0)
      (map_option RecordWorkerLease (wd_metrics w0)) = RunReturned run execErr s m"
  shows "\<exists>r w' row. processOne svc env w0 = ProcReturned r w' \<and> wd_store w' = s \<and>
     db_queue (wd_queue w') (j_ID job) = Some row \<and> sameJob job (ofRow row) \<and> j_Status row = settledStatus job run execErr \<and>
     j_LeaseOwner row = '''' \<and> j_Attempts row = j_Attempts job \<and>
     (settledStatus job run execErr = RunJobStatusQueued \<longrightarrow>
       (\<exists>k. timeUnix (j_AvailableAt row) = columnTime (oe_now (pe_settle env) k + workerBackoff (j_Attempts job)))) \<and>
     (\<forall>k. k \<noteq> j_ID job \<longrightarrow> sqJobs (wd_queue w') k = sqJobs (wd_queue w0) k)"
proof -
  have inv: "sq_inv (wd_queue w0)" by (rule sqreach_inv[OF assms(1)])
  have att: "\<forall>i j. sqJobs (wd_queue w0) i = Some j \<longrightarrow> 0 \<le> j_Attempts j"
    using inv by (auto simp: sqJobs_def sq_inv_def row_ok_def)
  have lease: "rq_LeaseNextRunJob sqlite (pe_lease env) (wk_workerID svc) (wk_leaseDuration svc) (wd_queue w0) = (Inr job, q1)"
    using assms(5) by (simp add: sqliteQueue_def)
  from sqlq.processOne_run[OF assms(3) inv assms(2) att assms(4) lease assms(6-8)] obtain r w' j' where
    P: "processOne svc env w0 = ProcReturned r w'" "wd_store w' = s" "sqJobs (wd_queue w') (j_ID job) = Some j'" "sameJob job j'"
      "j_Status j' = settledStatus job run execErr" "j_LeaseOwner j' = ''''" "j_Attempts j' = j_Attempts job"
      "settledStatus job run execErr = RunJobStatusQueued \<longrightarrow>
         (\<exists>k. j_AvailableAt j' = columnTime (oe_now (pe_settle env) k + workerBackoff (j_Attempts job)))"
      "\<forall>k. k \<noteq> j_ID job \<longrightarrow> sqJobs (wd_queue w') k = sqJobs (wd_queue w0) k" by auto
  obtain row where "db_queue (wd_queue w') (j_ID job) = Some row" "j' = ofRow row" using P(3) by (auto simp: sqJobs_def)
  with P show ?thesis by (intro exI[of _ r] exI[of _ w'] exI[of _ row]) simp
qed

definition dbWorker :: "(unit, MemoryStore, SQLiteStore) WorkerService" where
  "dbWorker = NewWorkerService 0 ''w1'' (sqliteQueue (\<lambda>_ _. None)) memoryStore exampleExecutor"

definition dbProc :: "(unit, SQLiteStore) procEnv" where
  "dbProc = \<lparr>pe_lease = at 30 [''a''], pe_get = at 31 [], pe_during = [Heartbeat (at 40 []), WatchTick (at 41 [])],
     pe_run = (\<lambda>_. exampleEnv), pe_settle = at 90 [], pe_late = [at 95 []]\<rparr>"

definition dbWorld :: "(MemoryStore, SQLiteStore) world" where
  "dbWorld = \<lparr>wd_queue = exampleDB, wd_store = exampleStore, wd_metrics = None\<rparr>"

theorem sqlite_worker_settles_job_witness:
  "\<exists>r w' row. processOne dbWorker dbProc dbWorld = ProcReturned r w' \<and> db_queue (wd_queue w') ''a'' = Some row \<and> j_LeaseOwner row = ''''"
proof -
  have W: "wk_queue dbWorker = sqliteQueue (\<lambda>_ _. None)" "wk_store dbWorker = memoryStore" "wk_executor dbWorker = exampleExecutor"
    "wd_queue dbWorld = exampleDB" "wd_store dbWorld = exampleStore" "wd_metrics dbWorld = None"
    "\<forall>ev \<in> set (pe_during dbProc). ownEvent ev" "oe_ord (pe_lease dbProc) = [''a'']" "\<And>c. pe_run dbProc c = exampleEnv"
    by (simp_all add: dbWorker_def NewWorkerService_def dbProc_def dbWorld_def at_def)
  have "case fst (sqLeaseNextRunJob (\<lambda>_. None) (pe_lease dbProc) (wk_workerID dbWorker) (wk_leaseDuration dbWorker) exampleDB) of
      Inl _ \<Rightarrow> False | Inr job \<Rightarrow> j_ID job = ''a'' \<and> j_WorkflowID job = ''deploy''" by code_simp
  from fst_Inr[OF this] obtain job q1 where L: "sqLeaseNextRunJob (\<lambda>_. None) (pe_lease dbProc) (wk_workerID dbWorker) (wk_leaseDuration dbWorker)
      (wd_queue dbWorld) = (Inr job, q1)" "j_ID job = ''a''" "j_WorkflowID job = ''deploy''"
    unfolding W by blast
  have G: "ws_GetWorkflow (wk_store dbWorker) (pe_get dbProc) (j_WorkflowID job) (wd_store dbWorld) = Inr (examplePipeline ''ok'')"
    unfolding W L(3) by (simp add: exampleStore_def memoryStore_def GetWorkflow_def SaveWorkflow_def examplePipeline_def)
  obtain q2 c where D: "fold (duringStep dbWorker (j_ID job)) (pe_during dbProc) (q1, False) = (q2, c)" by fastforce
  have "\<exists>run err s' m'. RunWithID exampleExecutor exampleEnv (examplePipeline ''ok'') fid rid s m = RunReturned run err s' m'" for fid rid s m
    unfolding RunWithID_def by (rule runWithID_returns[OF example_valid(1) example_envOk example_resolves example_events])
  then obtain run err s' m' where R: "RunWithID (wk_executor dbWorker) (pe_run dbProc c) (examplePipeline ''ok'') (j_RunID job)
      (j_RequestID job) (wd_store dbWorld) (map_option RecordWorkerLease (wd_metrics dbWorld)) = RunReturned run err s' m'"
    unfolding W by blast
  have it: "iterates (oe_ord (pe_lease dbProc)) (db_queue (wd_queue dbWorld))" by (simp add: W exampleDB_eq iterates_def)
  have reach: "sqreach (wd_queue dbWorld)" by (simp add: W exampleDB_reach)
  from sqlite_worker_settles_job[OF reach it W(1,7) L(1) G D R] L(2) show ?thesis by auto
qed

text \<open>A job that is enqueued under a new id can be read back; every instant of it comes back as 64-bit Unix nanoseconds
  represent it: unchanged between the years 1678 and 2262, but the zero time, which an unleased and never replayed
  job has for its lease and its replay, comes back as another instant, for which \<^verbatim>\<open>IsZero\<close> is false.\<close>

theorem sqlite_enqueue_then_get:
  assumes "j_ID job \<noteq> ''''" and "db_queue s (j_ID job) = None" and "enqueueDefaults (oe_now e 0) job = job'"
  shows "\<exists>s'. sqEnqueueRunJob (\<lambda>_. None) e job s = (None, s') \<and>
     sqGetRunJob (\<lambda>_. None) e' (j_ID job) s' = Inr (job'\<lparr>j_LeaseUntil := columnTime (j_LeaseUntil job'),
       j_AvailableAt := columnTime (j_AvailableAt job'), j_ReplayedAt := columnTime (j_ReplayedAt job'),
       j_CreatedAt := columnTime (j_CreatedAt job'), j_UpdatedAt := columnTime (j_UpdatedAt job')\<rparr>) \<and>
     (\<forall>t. minInt64 \<le> t - 62135596800 * second \<and> t - 62135596800 * second \<le> maxInt64 \<longrightarrow> columnTime t = t) \<and>
     \<not> isZero (columnTime 0)"
proof -
  have id: "j_ID (enqueueDefaults (oe_now e 0) job) = j_ID job" by (simp add: enqueueDefaults_def Let_def)
  have "\<not> isZero (columnTime 0)" by (simp add: isZero_def columnTime_def timeUnix_def unixNano_def wrap64_def)
  then show ?thesis
    using assms columnTime_exact id
    by (auto simp: sqEnqueueRunJob_def Let_def sqAppendTransition_def sqGetRunJob_def scanRunJob_def ofRow_def toRow_def columnTime_def)
qed

theorem sqlite_enqueue_then_get_witness:
  "\<exists>s'. sqEnqueueRunJob (\<lambda>_. None) (at 10 []) dbJob emptyDB = (None, s') \<and> \<not> isZero (columnTime 0)"
  using sqlite_enqueue_then_get[OF _ _ refl, of dbJob emptyDB "at 10 []"] by (auto simp: dbJob_id emptyDB_def)

definition sqHistory :: "SQLiteStore \<Rightarrow> string \<Rightarrow> RunJobTransition list" where
  "sqHistory s i = filter (\<lambda>t. tn_JobID t = i) (db_transitions s)"

lemma chained_det: "chained a ts b \<Longrightarrow> chained a ts c \<Longrightarrow> b = c"
  by (induction ts arbitrary: a) auto

text \<open>The two queues differ on a second job with the same id: both keep the first one, but the database appends one more
  \<^verbatim>\<open>enqueued\<close> transition to its history, which then is no longer a path of status changes.\<close>

theorem enqueue_conflict_differs:
  assumes "mq_jobs q (j_ID job) = Some j" and "db_queue s (j_ID job) = Some row" and "j_ID job \<noteq> ''''"
    and "chained RunJobStatusUnset (sqHistory s (j_ID job)) (j_Status row)" and "j_Status row \<noteq> RunJobStatusUnset"
  shows "EnqueueRunJob e job q = (None, q) \<and>
    (\<exists>s'. sqEnqueueRunJob (\<lambda>_. None) e job s = (None, s') \<and> db_queue s' = db_queue s \<and>
       (\<forall>st. \<not> chained RunJobStatusUnset (sqHistory s' (j_ID job)) st))"
proof -
  have id: "j_ID (enqueueDefaults (oe_now e 0) job) = j_ID job" by (simp add: enqueueDefaults_def Let_def)
  obtain t s' where enq: "sqEnqueueRunJob (\<lambda>_. None) e job s = (None, s')" and q: "db_queue s' = db_queue s"
    and t: "db_transitions s' = db_transitions s @ [t]" "tn_JobID t = j_ID job" "tn_FromStatus t = RunJobStatusUnset"
    using assms(2,3) by (simp add: sqEnqueueRunJob_def Let_def sqAppendTransition_def id)
  have "sqHistory s' (j_ID job) = sqHistory s (j_ID job) @ [t]" by (simp add: sqHistory_def t)
  moreover have "\<not> chained RunJobStatusUnset (sqHistory s (j_ID job) @ [t]) st" for st
  proof
    assume "chained RunJobStatusUnset (sqHistory s (j_ID job) @ [t]) st"
    then obtain b where "chained RunJobStatusUnset (sqHistory s (j_ID job)) b" "chained b [t] st" by (auto simp: chained_append)
    then have "j_Status row = tn_FromStatus t" using chained_det[OF assms(4)] by auto
    with assms(5) t(3) show False by simp
  qed
  ultimately show ?thesis using assms(1) enq q by (simp add: EnqueueRunJob_def)
qed

theorem enqueue_conflict_differs_witness:
  "\<exists>s'. sqEnqueueRunJob (\<lambda>_. None) (at 40 []) dbJob exampleDB = (None, s') \<and>
     \<not> chained RunJobStatusUnset (sqHistory s' ''a'') RunJobStatusQueued"
proof -
  have "''a'' \<in> dom (mq_jobs enqueuedQueue)" by (simp add: example_dom(1))
  then obtain j where j: "mq_jobs enqueuedQueue (j_ID dbJob) = Some j" unfolding dbJob_id by blast
  have row: "db_queue exampleDB (j_ID dbJob) = Some (toRow (enqueueDefaults 10 dbJob))" by (simp add: exampleDB_eq dbJob_id)
  have ch: "chained RunJobStatusUnset (sqHistory exampleDB (j_ID dbJob)) (j_Status (toRow (enqueueDefaults 10 dbJob)))" by code_simp
  have st: "j_Status (toRow (enqueueDefaults 10 dbJob)) \<noteq> RunJobStatusUnset" by code_simp
  have "j_ID dbJob \<noteq> ''''" by (simp add: dbJob_id)
  from enqueue_conflict_differs[OF j row this ch st, of "at 40 []"] show ?thesis by (auto simp: dbJob_id)
qed

section \<open>Runs\<close>

text \<open>A run that was saved can be read back (when \<^verbatim>\<open>encoding/json\<close> represents it exactly), and saving it does not
  touch other runs, workflows or jobs.\<close>

theorem sqlite_run_roundtrip:
  assumes "codecExact (cd_run c) run" and "sqSaveRun c db e run s = (None, s')"
  shows "sqGetRun c (\<lambda>_. None) e' (r_ID run) s' = Inr run \<and> db_queue s' = db_queue s \<and> db_workflows s' = db_workflows s \<and>
    (\<forall>i. i \<noteq> r_ID run \<longrightarrow> sqGetRun c (\<lambda>_. None) e' i s' = sqGetRun c (\<lambda>_. None) e' i s)"
  using assms by (auto simp: sqSaveRun_def sqGetRun_def codecExact_def Let_def split: sum.splits option.splits)

definition runCodec :: "Run codec" where
  "runCodec = \<lparr>co_Marshal = (\<lambda>r. Inr (r_ID r)), co_Unmarshal = (\<lambda>b. Inr (zeroRun\<lparr>r_ID := b, r_Status := RunStatusFailed\<rparr>))\<rparr>"

definition dbCodecs :: sqlCodecs where
  "dbCodecs = \<lparr>cd_workflow = \<lparr>co_Marshal = (\<lambda>_. Inl ''unsupported''), co_Unmarshal = (\<lambda>_. Inl ''unsupported'')\<rparr>, cd_run = runCodec\<rparr>"

definition failedRun :: "string \<Rightarrow> Run" where
  "failedRun i = zeroRun\<lparr>r_ID := i, r_Status := RunStatusFailed\<rparr>"

theorem sqlite_run_roundtrip_witness:
  "\<exists>s'. sqSaveRun dbCodecs noErr (at 5 []) (failedRun ''r1'') emptyDB = (None, s') \<and>
     sqGetRun dbCodecs (\<lambda>_. None) (at 6 []) ''r1'' s' = Inr (failedRun ''r1'')"
proof -
  have ex: "codecExact (cd_run dbCodecs) (failedRun ''r1'')" by (simp add: codecExact_def dbCodecs_def runCodec_def failedRun_def)
  obtain s' where sv: "sqSaveRun dbCodecs noErr (at 5 []) (failedRun ''r1'') emptyDB = (None, s')"
    by (simp add: sqSaveRun_def dbCodecs_def runCodec_def noErr_def Let_def)
  have "r_ID (failedRun ''r1'') = ''r1''" by (simp add: failedRun_def)
  with sqlite_run_roundtrip[OF ex sv, of "at 6 []"] sv show ?thesis by auto
qed

text \<open>The listing of runs with a status, which the store computes by scanning and decoding the rows and counting, is the
  page at the offset of the matching runs, in the order of the start times, as long as every row in question decodes.\<close>

theorem sqlite_status_listing:
  assumes "status \<noteq> ''''"
    and "rows = sortSlice (if desc then rowStartedAfter else rowStartedBefore)
      (filter (runRowMatches workflowID requestID after before) (rangeValues (oe_ord e) (db_runs s)))"
    and "decodeAll (cd_run c) (map rr_payload rows) = Inr runs"
  shows "sqListRunsFiltered c (\<lambda>_. None) e workflowID status requestID after before desc limit offset s =
    Some (Inr (take (nat (if limit \<le> 0 then 50 else limit)) (drop (nat (if offset < 0 then 0 else offset))
      (filter (\<lambda>run. runStatusString (r_Status run) = status) runs))))"
  using assms(1) scanStatus_page[OF assms(3), of 0 "if offset < 0 then 0 else offset" "[]" "if limit \<le> 0 then 50 else limit" status]
  by (simp add: sqListRunsFiltered_def assms(2) Let_def)

definition runsDB :: SQLiteStore where
  "runsDB = snd (sqSaveRun dbCodecs noErr (at 5 []) (failedRun ''r1'') (snd (sqSaveRun dbCodecs noErr (at 9 []) (failedRun ''r2'') emptyDB)))"

theorem sqlite_status_listing_witness:
  "\<exists>runs. sqListRunsFiltered dbCodecs (\<lambda>_. None) (at 0 [''r2'', ''r1'']) '''' ''FAILED'' '''' 0 0 False 1 1 runsDB =
     Some (Inr (take 1 (drop 1 (filter (\<lambda>run. runStatusString (r_Status run) = ''FAILED'') runs))))"
proof -
  have "decodeAll (cd_run dbCodecs) ps = Inr (map failedRun ps)" for ps
    by (induction ps) (simp_all add: dbCodecs_def runCodec_def failedRun_def)
  note L = sqlite_status_listing[OF _ refl this, where status = "''FAILED''" and desc = False and workflowID = "''''"
      and requestID = "''''" and after = 0 and before = 0 and e = "at 0 [''r2'', ''r1'']" and s = runsDB and limit = 1 and offset = 1]
  show ?thesis by (rule exI) (use L in simp)
qed

text \<open>While the database is opened, a statement that finds it busy is tried again: it succeeds exactly when one of the
  first twenty attempts succeeds and all attempts before it found the database busy.\<close>

theorem busy_retry_bounded:
  "execWithBusyRetry result = None \<longleftrightarrow>
     (\<exists>k<20. result k = None \<and> (\<forall>i<k. \<exists>err. result i = Some err \<and> isSQLiteBusyError err))"
  unfolding execWithBusyRetry_def execAttempts_None by simp

theorem busy_retry_bounded_witness:
  "execWithBusyRetry (\<lambda>k. if k < 3 then Some ''database is locked (5) (SQLITE_BUSY)'' else None) = None"
proof -
  have b: "isSQLiteBusyError ''database is locked (5) (SQLITE_BUSY)''" by code_simp
  show ?thesis unfolding busy_retry_bounded by (rule exI[of _ 3]) (simp add: b)
qed

end
