(* ===== verification/GoTime.thy ===== *)
theory GoTime
  imports Actions "HOL-Library.Monad_Syntax"
begin

text \<open>
  The functions of Go's \<^verbatim>\<open>time\<close> and \<^verbatim>\<open>strconv\<close> packages by which the API and the workflow loader read
  durations, time stamps and flags: \<^verbatim>\<open>time.ParseDuration\<close>, \<^verbatim>\<open>time.Parse\<close> with the layouts \<^verbatim>\<open>RFC3339\<close> and
  \<^verbatim>\<open>RFC3339Nano\<close>, and \<^verbatim>\<open>strconv.ParseBool\<close>. The facts at the end: a parsed duration is a 64-bit integer, and the
  printed form of a number of nanoseconds is parsed back to it.
\<close>

section \<open>Numbers\<close>

definition digitVal :: "char \<Rightarrow> nat" where
  "digitVal c = of_char c - 48"

text \<open>\<^verbatim>\<open>leadingInt\<close>; \<^const>\<open>None\<close> is its overflow error.\<close>

fun leadingInt :: "nat \<Rightarrow> string \<Rightarrow> (nat \<times> string) option" where
  "leadingInt x [] = Some (x, [])"
| "leadingInt x (c # s) =
     (if \<not> isDigit c then Some (x, c # s)
      else if x > 9223372036854775808 div 10 then None
      else let x = x * 10 + digitVal c
           in if x > 9223372036854775808 then None else leadingInt x s)"

text \<open>A non-negative \<^verbatim>\<open>float64\<close> is the pair of numerator and denominator of its value. \<open>roundF64\<close> rounds a positive
  rational to 53 binary digits, ties to even. The exponent is not bounded: where a \<^verbatim>\<open>float64\<close> would overflow to
  infinity (a scale past \<^verbatim>\<open>1e308\<close>) or lose precision near zero, the number computed from it in
  \<^verbatim>\<open>ParseDuration\<close> is below one nanosecond and truncated to zero either way.\<close>

type_synonym float64 = "nat \<times> nat"

fun bitLen :: "nat \<Rightarrow> nat" where
  "bitLen n = (if n = 0 then 0 else Suc (bitLen (n div 2)))"

declare bitLen.simps [simp del]

definition roundHalfEven :: "nat \<Rightarrow> nat \<Rightarrow> nat" where
  "roundHalfEven a b =
     (let q = a div b; r = a mod b
      in if 2 * r < b then q else if b < 2 * r then q + 1 else if even q then q else q + 1)"

text \<open>\<open>a / b\<close> scaled by \<open>2 ^ - e\<close>, as a pair.\<close>

definition scaled :: "int \<Rightarrow> nat \<Rightarrow> nat \<Rightarrow> nat \<times> nat" where
  "scaled e a b = (if e \<ge> 0 then (a, b * 2 ^ nat e) else (a * 2 ^ nat (- e), b))"

definition roundF64 :: "nat \<times> nat \<Rightarrow> float64" where
  "roundF64 ab =
     (case ab of (a, b) \<Rightarrow>
       (if a = 0 then (0, 1)
        else let e0 = int (bitLen a) - int (bitLen b) - 53;
                 e = (case scaled e0 a b of (n, d) \<Rightarrow> if n \<ge> 2 ^ 53 * d then e0 + 1 else e0);
                 m = (case scaled e a b of (n, d) \<Rightarrow> roundHalfEven n d)
             in if e \<ge> 0 then (m * 2 ^ nat e, 1) else (m, 2 ^ nat (- e))))"

definition mulF64 :: "float64 \<Rightarrow> float64 \<Rightarrow> float64" where
  "mulF64 x y = roundF64 (fst x * fst y, snd x * snd y)"

definition divF64 :: "float64 \<Rightarrow> float64 \<Rightarrow> float64" where
  "divF64 x y = roundF64 (fst x * snd y, snd x * fst y)"

text \<open>\<^verbatim>\<open>leadingFraction\<close>: digits that no longer fit are skipped.\<close>

fun leadingFraction :: "nat \<Rightarrow> float64 \<Rightarrow> bool \<Rightarrow> string \<Rightarrow> nat \<times> float64 \<times> string" where
  "leadingFraction x scale overflow [] = (x, scale, [])"
| "leadingFraction x scale overflow (c # s) =
     (if \<not> isDigit c then (x, scale, c # s)
      else if overflow then leadingFraction x scale True s
      else if x > 9223372036854775807 div 10 then leadingFraction x scale True s
      else let y = x * 10 + digitVal c
           in if y > 9223372036854775808 then leadingFraction x scale True s
              else leadingFraction y (mulF64 scale (10, 1)) False s)"

section \<open>time.ParseDuration\<close>

text \<open>The package's own \<^verbatim>\<open>quote\<close>, byte by byte.\<close>

definition timeQuote :: "string \<Rightarrow> string" where
  "timeQuote s =
     [CHR 0x22] @
     concat (map (\<lambda>c. let n = (of_char c :: nat)
                      in if n \<ge> 128 \<or> n < 32 then [CHR 0x5C, CHR ''x'', hexDigit (n div 16), hexDigit (n mod 16)]
                         else if c = CHR 0x22 \<or> c = CHR 0x5C then [CHR 0x5C, c]
                         else [c]) s) @
     [CHR 0x22]"

definition unitMap :: "string \<rightharpoonup> nat" where
  "unitMap = map_of
     [(''ns'', 1), (''us'', 1000), ([CHR 0xC2, CHR 0xB5, CHR ''s''], 1000), ([CHR 0xCE, CHR 0xBC, CHR ''s''], 1000),
      (''ms'', 1000000), (''s'', 1000000000), (''m'', 60000000000), (''h'', 3600000000000)]"

definition invalidDuration :: "string \<Rightarrow> error" where
  "invalidDuration orig = ''time: invalid duration '' @ timeQuote orig"

definition unitChar :: "char \<Rightarrow> bool" where
  "unitChar c \<longleftrightarrow> c \<noteq> CHR ''.'' \<and> \<not> isDigit c"

text \<open>The digits before and after the decimal point: \<open>v\<close>, \<open>f\<close>, \<open>scale\<close> and the rest; \<^const>\<open>None\<close> for the invalid
  ones.\<close>

definition durationNumber :: "string \<Rightarrow> (nat \<times> nat \<times> float64 \<times> string) option" where
  "durationNumber s =
     (case s of
        [] \<Rightarrow> None
      | c # _ \<Rightarrow>
          if \<not> (c = CHR ''.'' \<or> isDigit c) then None
          else case leadingInt 0 s of
                 None \<Rightarrow> None
               | Some (v, s1) \<Rightarrow>
                   (let pre = length s1 \<noteq> length s
                    in case s1 of
                         CHR ''.'' # s2 \<Rightarrow>
                           (case leadingFraction 0 (1, 1) False s2 of
                              (f, scale, s3) \<Rightarrow>
                                if \<not> pre \<and> length s3 = length s2 then None else Some (v, f, scale, s3))
                       | _ \<Rightarrow> if \<not> pre then None else Some (v, 0, (1, 1), s1)))"

text \<open>The value in nanoseconds of \<open>v + f / scale\<close> units; \<^const>\<open>None\<close> on overflow.\<close>

definition unitValue :: "nat \<Rightarrow> nat \<Rightarrow> float64 \<Rightarrow> nat \<Rightarrow> nat option" where
  "unitValue v f scale unit =
     (if v > 9223372036854775808 div unit then None
      else let v = v * unit
           in if f > 0
              then (let x = mulF64 (roundF64 (f, 1)) (divF64 (roundF64 (unit, 1)) scale);
                        v = (v + fst x div snd x) mod 18446744073709551616
                    in if v > 9223372036854775808 then None else Some v)
              else Some v)"

text \<open>One pass of the loop: a number with its unit, in nanoseconds, and the rest of the text.\<close>

definition durationComponent :: "string \<Rightarrow> string \<Rightarrow> error + nat \<times> string" where
  "durationComponent orig s =
     (case durationNumber s of
        None \<Rightarrow> Inl (invalidDuration orig)
      | Some (v, f, scale, s1) \<Rightarrow>
          (let u = takeWhile unitChar s1; rest = dropWhile unitChar s1
           in if u = [] then Inl (''time: missing unit in duration '' @ timeQuote orig)
              else case unitMap u of
                     None \<Rightarrow> Inl (''time: unknown unit '' @ timeQuote u @ '' in duration '' @ timeQuote orig)
                   | Some unit \<Rightarrow>
                       (case unitValue v f scale unit of
                          None \<Rightarrow> Inl (invalidDuration orig)
                        | Some v \<Rightarrow> Inr (v, rest))))"

lemma leadingInt_rest: "leadingInt x s = Some (v, s') \<Longrightarrow> length s' \<le> length s"
  by (induction x s rule: leadingInt.induct) (auto simp: Let_def split: if_splits)

lemma leadingFraction_rest: "leadingFraction x sc ov s = (v, sc', s') \<Longrightarrow> length s' \<le> length s"
  by (induction x sc ov s rule: leadingFraction.induct) (auto simp: Let_def split: if_splits)

lemma durationNumber_rest: "durationNumber s = Some (v, f, sc, s') \<Longrightarrow> length s' \<le> length s"
  by (auto simp: durationNumber_def Let_def split: list.splits option.splits prod.splits char.splits bool.splits if_splits
      dest!: leadingInt_rest leadingFraction_rest)

lemma durationComponent_rest:
  assumes "durationComponent orig s = Inr (v, rest)"
  shows "length rest < length s"
proof -
  obtain w f sc s1 where n: "durationNumber s = Some (w, f, sc, s1)" and u: "takeWhile unitChar s1 \<noteq> []"
    and r: "rest = dropWhile unitChar s1"
    using assms by (auto simp: durationComponent_def Let_def split: option.splits prod.splits if_splits)
  have "length (takeWhile unitChar s1) + length (dropWhile unitChar s1) = length s1"
    by (metis length_append takeWhile_dropWhile_id)
  with u r have "length rest < length s1" by (metis add_less_same_cancel2 length_greater_0_conv less_add_same_cancel2)
  with durationNumber_rest[OF n] show ?thesis by simp
qed

function durationLoop :: "string \<Rightarrow> nat \<Rightarrow> string \<Rightarrow> error + nat" where
  "durationLoop orig d s =
     (if s = [] then Inr d
      else case durationComponent orig s of
             Inl err \<Rightarrow> Inl err
           | Inr (v, rest) \<Rightarrow>
               (let d = (d + v) mod 18446744073709551616
                in if d > 9223372036854775808 then Inl (invalidDuration orig) else durationLoop orig d rest))"
  by pat_completeness auto
termination
  by (relation "measure (\<lambda>(orig, d, s). length s)") (auto dest: durationComponent_rest)

declare durationLoop.simps [simp del]

definition parseDuration :: "string \<Rightarrow> error + duration" where
  "parseDuration orig =
     (case splitSign orig of (neg, s) \<Rightarrow>
       (if s = ''0'' then Inr 0
        else if s = [] then Inl (invalidDuration orig)
        else case durationLoop orig 0 s of
               Inl err \<Rightarrow> Inl err
             | Inr d \<Rightarrow> if neg then Inr (wrap64 (- wrap64 (int d)))
                        else if d > 9223372036854775807 then Inl (invalidDuration orig)
                        else Inr (int d)))"

section \<open>time.Parse\<close>

text \<open>The calendar of \<^verbatim>\<open>time.Date\<close>, in nanoseconds since January 1 of year 1.\<close>

definition isLeap :: "int \<Rightarrow> bool" where
  "isLeap y \<longleftrightarrow> y mod 4 = 0 \<and> (y mod 100 \<noteq> 0 \<or> y mod 400 = 0)"

definition daysIn :: "int \<Rightarrow> nat \<Rightarrow> int" where
  "daysIn y m = (if m = 2 then (if isLeap y then 29 else 28) else if m \<in> {4, 6, 9, 11} then 30 else 31)"

definition daysBeforeYear :: "int \<Rightarrow> int" where
  "daysBeforeYear y = 365 * (y - 1) + (y - 1) div 4 - (y - 1) div 100 + (y - 1) div 400"

definition timeDate :: "int \<Rightarrow> nat \<Rightarrow> int \<Rightarrow> int \<Rightarrow> int \<Rightarrow> int \<Rightarrow> int \<Rightarrow> gotime" where
  "timeDate year month day hour minute sec nsec =
     ((((daysBeforeYear year + sum_list (map (daysIn year) [1..<month]) + (day - 1)) * 24 + hour) * 60 + minute) * 60
       + sec) * second + nsec"

text \<open>\<^verbatim>\<open>getnum\<close>: one or two digits, exactly two when \<open>fixed\<close>.\<close>

fun getnum :: "bool \<Rightarrow> string \<Rightarrow> (int \<times> string) option" where
  "getnum fixed (c # d # s) =
     (if \<not> isDigit c then None
      else if \<not> isDigit d then (if fixed then None else Some (int (digitVal c), d # s))
      else Some (int (digitVal c * 10 + digitVal d), s))"
| "getnum fixed [c] = (if isDigit c \<and> \<not> fixed then Some (int (digitVal c), []) else None)"
| "getnum fixed [] = None"

definition digitsVal :: "string \<Rightarrow> nat" where
  "digitsVal s = foldl (\<lambda>n c. n * 10 + digitVal c) 0 s"

definition getYear :: "string \<Rightarrow> (int \<times> string) option" where
  "getYear s =
     (if length s \<ge> 4 \<and> list_all isDigit (take 4 s) then Some (int (digitsVal (take 4 s)), drop 4 s) else None)"

fun skipChar :: "char \<Rightarrow> string \<Rightarrow> string option" where
  "skipChar p (c # s) = (if c = p then Some s else None)"
| "skipChar p [] = None"

text \<open>An optional fraction of a second, \<^verbatim>\<open>parseNanoseconds\<close>: at most nine digits count.\<close>

definition getFraction :: "string \<Rightarrow> int \<times> string" where
  "getFraction s =
     (case s of
        p # d # s' \<Rightarrow>
          if (p = CHR ''.'' \<or> p = CHR '','') \<and> isDigit d
          then (let digits = takeWhile isDigit (d # s'); used = take 9 digits
                in (int (digitsVal used * 10 ^ (9 - length used)), dropWhile isDigit (d # s')))
          else (0, s)
      | _ \<Rightarrow> (0, s))"

text \<open>\<^verbatim>\<open>Z\<close> or a signed offset, in seconds.\<close>

definition getZone :: "string \<Rightarrow> (int \<times> string) option" where
  "getZone s =
     (case s of
        [] \<Rightarrow> None
      | c # s1 \<Rightarrow>
          if c = CHR ''Z'' then Some (0, s1)
          else if length s < 6 \<or> s ! 3 \<noteq> CHR '':'' then None
          else case (getnum True (take 2 (drop 1 s)), getnum True (take 2 (drop 4 s))) of
                 (Some (hr, _), Some (mm, _)) \<Rightarrow>
                   if hr > 24 \<or> mm > 60 then None
                   else if c = CHR ''+'' then Some ((hr * 60 + mm) * 60, drop 6 s)
                   else if c = CHR ''-'' then Some (- ((hr * 60 + mm) * 60), drop 6 s)
                   else None
               | _ \<Rightarrow> None)"

text \<open>\<^verbatim>\<open>time.Parse(time.RFC3339, value)\<close>, as an instant; \<^const>\<open>None\<close> for an error. The layout \<^verbatim>\<open>RFC3339Nano\<close> accepts the same
  texts, since a fraction of a second is accepted after the seconds whether the layout has one or not.\<close>

definition parseRFC3339 :: "string \<Rightarrow> gotime option" where
  "parseRFC3339 value = do {
     (year, s) \<leftarrow> getYear value;
     s \<leftarrow> skipChar (CHR ''-'') s;
     (month, s) \<leftarrow> getnum True s;
     s \<leftarrow> skipChar (CHR ''-'') s;
     (day, s) \<leftarrow> getnum True s;
     s \<leftarrow> skipChar (CHR ''T'') s;
     (hour, s) \<leftarrow> getnum False s;
     s \<leftarrow> skipChar (CHR '':'') s;
     (minute, s) \<leftarrow> getnum True s;
     s \<leftarrow> skipChar (CHR '':'') s;
     (sec, s) \<leftarrow> getnum True s;
     let (nsec, s) = getFraction s;
     (zone, s) \<leftarrow> getZone s;
     if s = [] \<and> 1 \<le> month \<and> month \<le> 12 \<and> hour < 24 \<and> minute < 60 \<and> sec < 60 \<and>
        1 \<le> day \<and> day \<le> daysIn year (nat month)
     then Some (timeDate year (nat month) day hour minute sec nsec - zone * second)
     else None
   }"

section \<open>strconv.ParseBool\<close>

definition parseBool :: "string \<Rightarrow> bool option" where
  "parseBool s =
     (if s \<in> {''1'', ''t'', ''T'', ''true'', ''TRUE'', ''True''} then Some True
      else if s \<in> {''0'', ''f'', ''F'', ''false'', ''FALSE'', ''False''} then Some False
      else None)"


section \<open>Facts\<close>

lemma digit_char: "k < 10 \<Longrightarrow> isDigit (char_of (48 + k)) \<and> digitVal (char_of (48 + k :: nat)) = k"
  by (simp add: isDigit_def digitVal_def)

lemma leadingInt_natDigits:
  "n \<le> 9223372036854775808 \<Longrightarrow> leadingInt 0 (natDigits n @ s) = leadingInt n s"
proof (induction n arbitrary: s rule: natDigits.induct)
  case (1 n)
  show ?case
  proof (cases "n < 10")
    case True
    then show ?thesis by (subst natDigits.simps) (simp add: digit_char)
  next
    case False
    have "leadingInt 0 (natDigits n @ s) = leadingInt (n div 10) (char_of (48 + n mod 10) # s)"
      using False "1.IH"[OF False] "1.prems" by (subst natDigits.simps) simp
    also have "\<dots> = leadingInt n s"
      using "1.prems" digit_char[of "n mod 10"] div_le_mono[OF "1.prems", of 10] by (simp add: Let_def)
    finally show ?thesis .
  qed
qed

lemma natDigits_hd: "\<exists>c ds. natDigits n = c # ds \<and> isDigit c"
proof (induction n rule: natDigits.induct)
  case (1 n)
  show ?case
  proof (cases "n < 10")
    case True
    then show ?thesis by (subst natDigits.simps) (simp add: digit_char)
  next
    case False
    from "1.IH"[OF False] obtain c ds where "natDigits (n div 10) = c # ds" "isDigit c" by blast
    with False show ?thesis by (subst natDigits.simps) simp
  qed
qed

lemma splitSign_digit: "isDigit c \<Longrightarrow> splitSign (c # s) = (False, c # s)"
  by (auto simp: isDigit_def)

lemma durationLoop_ns:
  assumes "n \<le> 9223372036854775808"
  shows "durationLoop orig 0 (natDigits n @ ''ns'') = Inr n"
proof -
  obtain c ds where c: "natDigits n = c # ds" "isDigit c" using natDigits_hd by blast
  have "leadingInt 0 (natDigits n @ ''ns'') = Some (n, ''ns'')"
    using assms by (simp add: leadingInt_natDigits isDigit_def)
  with c have "durationNumber (natDigits n @ ''ns'') = Some (n, 0, (1, 1), ''ns'')"
    by (simp add: durationNumber_def Let_def)
  then have "durationComponent orig (natDigits n @ ''ns'') = Inr (n, [])"
    using assms by (simp add: durationComponent_def Let_def unitChar_def isDigit_def unitMap_def unitValue_def)
  with assms c show ?thesis by (subst durationLoop.simps) (simp add: durationLoop.simps[of _ _ "[]"])
qed

text \<open>A number of nanoseconds, printed with its unit, is parsed back.\<close>

lemma parseDuration_itoa:
  assumes "minInt64 \<le> n" and "n \<le> maxInt64"
  shows "parseDuration (itoa n @ ''ns'') = Inr n"
proof (cases "n < 0")
  case True
  have w: "wrap64 (- wrap64 (- n)) = n"
  proof (cases "n = minInt64")
    case False
    with assms True have "wrap64 (- n) = - n" by (intro wrap64_id) auto
    with assms show ?thesis by (simp add: wrap64_id)
  qed (simp add: wrap64_def)
  have "durationLoop (itoa n @ ''ns'') 0 (natDigits (nat (- n)) @ ''ns'') = Inr (nat (- n))"
    using assms True by (intro durationLoop_ns) simp
  moreover have "natDigits (nat (- n)) @ ''ns'' \<noteq> ''0''"
    using natDigits_hd[of "nat (- n)"] by auto
  ultimately show ?thesis using True w by (simp add: parseDuration_def itoa_def)
next
  case False
  obtain c ds where c: "natDigits (nat n) = c # ds" "isDigit c" using natDigits_hd by blast
  have "splitSign (itoa n @ ''ns'') = (False, natDigits (nat n) @ ''ns'')"
    using False splitSign_digit[OF c(2)] c(1) by (simp add: itoa_def)
  moreover have "durationLoop (itoa n @ ''ns'') 0 (natDigits (nat n) @ ''ns'') = Inr (nat n)"
    using assms False by (intro durationLoop_ns) simp
  moreover have "natDigits (nat n) @ ''ns'' \<noteq> ''0''" using c by auto
  ultimately show ?thesis using False assms by (simp add: parseDuration_def)
qed

lemma parseDuration_range:
  assumes "parseDuration s = Inr d"
  shows "minInt64 \<le> d" and "d \<le> maxInt64"
  using assms wrap64_range[of "- wrap64 (int _)"]
  by (auto simp: parseDuration_def split: prod.splits if_splits sum.splits)

text \<open>An empty or white text is not a duration.\<close>

lemma parseDuration_empty: "parseDuration [] = Inl (invalidDuration [])"
  by (simp add: parseDuration_def)

end
