(* ===== verification/WorkflowLoader.thy ===== *)
theory WorkflowLoader
  imports GoTime Files
begin

text \<open>
  The workflow loader (\<^verbatim>\<open>pkg/utils/workflow_loader.go\<close>): a workflow file is decoded by \<^verbatim>\<open>encoding/json\<close> or, by its
  extension, \<^verbatim>\<open>gopkg.in/yaml.v3\<close> (parameters: the decoding functions), and its durations are parsed. Building a task
  from its configuration is written over the function that reads a duration field, since the API server repeats
  the same code with another guard.

  The facts: the written form of a workflow is read back as that workflow, and which error a bad field gives.
\<close>

section \<open>Configuration\<close>

record retryPolicyConfig =
  rc_MaxAttempts :: int
  rc_BackoffBase :: string

record compensationConfig =
  cc_Action :: string
  cc_Input :: bindings
  cc_Timeout :: string

record taskConfig =
  tc_ID :: string
  tc_Name :: string
  tc_Action :: string
  tc_Input :: bindings
  tc_DependsOn :: "string list"
  tc_Condition :: string
  tc_RunAfter :: string
  tc_Timeout :: string
  tc_AllowFailure :: bool
  tc_RetryPolicy :: retryPolicyConfig
  tc_Compensation :: compensationConfig

record workflowFile =
  wf_ID :: string
  wf_Name :: string
  wf_Description :: string
  wf_Version :: string
  wf_MaxConcurrency :: int
  wf_FailFast :: bool
  wf_CompensateOnFailure :: bool
  wf_Timeout :: string
  wf_Tasks :: "taskConfig list"

section \<open>Reading a workflow\<close>

type_synonym durationField = "string \<Rightarrow> string \<Rightarrow> error + duration"

text \<open>A duration field of the loader: absent when empty. \<open>what\<close> is the text of the error.\<close>

definition loadDuration :: durationField where
  "loadDuration what raw =
     (if raw = '''' then Inr 0
      else case parseDuration raw of Inl err \<Rightarrow> Inl (what @ '': '' @ err) | Inr d \<Rightarrow> Inr d)"

definition nodeOf :: "taskConfig \<Rightarrow> duration \<Rightarrow> duration \<Rightarrow> duration \<Rightarrow> duration \<Rightarrow> TaskNode" where
  "nodeOf task runAfter timeout backoffBase compTimeout =
     \<lparr>t_ID = tc_ID task, t_Name = tc_Name task, t_Action = tc_Action task, t_Input = tc_Input task,
      t_DependsOn = tc_DependsOn task, t_Condition = tc_Condition task, t_RunAfter = runAfter, t_Timeout = timeout,
      t_RetryPolicy = \<lparr>rp_MaxAttempts = rc_MaxAttempts (tc_RetryPolicy task), rp_BackoffBase = backoffBase\<rparr>,
      t_AllowFailure = tc_AllowFailure task,
      t_Compensation = \<lparr>c_Action = cc_Action (tc_Compensation task), c_Input = cc_Input (tc_Compensation task),
                        c_Timeout = compTimeout\<rparr>\<rparr>"

definition readTask :: "durationField \<Rightarrow> taskConfig \<Rightarrow> error + TaskNode" where
  "readTask rd task =
     (case rd (''invalid runAfter for '' @ tc_ID task) (tc_RunAfter task) of
        Inl err \<Rightarrow> Inl err
      | Inr runAfter \<Rightarrow>
     (case rd (''invalid task timeout for '' @ tc_ID task) (tc_Timeout task) of
        Inl err \<Rightarrow> Inl err
      | Inr timeout \<Rightarrow>
     (case rd (''invalid backoffBase for '' @ tc_ID task) (rc_BackoffBase (tc_RetryPolicy task)) of
        Inl err \<Rightarrow> Inl err
      | Inr backoffBase \<Rightarrow>
     (case rd (''invalid compensation timeout for '' @ tc_ID task) (cc_Timeout (tc_Compensation task)) of
        Inl err \<Rightarrow> Inl err
      | Inr compTimeout \<Rightarrow> Inr (nodeOf task runAfter timeout backoffBase compTimeout)))))"

fun readTasks :: "durationField \<Rightarrow> taskConfig list \<Rightarrow> error + TaskNode list" where
  "readTasks rd [] = Inr []"
| "readTasks rd (task # tasks) =
     (case readTask rd task of
        Inl err \<Rightarrow> Inl err
      | Inr node \<Rightarrow> (case readTasks rd tasks of Inl err \<Rightarrow> Inl err | Inr nodes \<Rightarrow> Inr (node # nodes)))"

definition readWorkflow :: "durationField \<Rightarrow> workflowFile \<Rightarrow> error + Workflow" where
  "readWorkflow rd cfg =
     (case rd ''invalid workflow timeout'' (wf_Timeout cfg) of
        Inl err \<Rightarrow> Inl err
      | Inr timeout \<Rightarrow>
          (case readTasks rd (wf_Tasks cfg) of
             Inl err \<Rightarrow> Inl err
           | Inr tasks \<Rightarrow>
               Inr \<lparr>w_ID = wf_ID cfg, w_Name = wf_Name cfg, w_Description = wf_Description cfg,
                    w_Version = wf_Version cfg, w_MaxConcurrency = wf_MaxConcurrency cfg, w_FailFast = wf_FailFast cfg,
                    w_CompensateOnFailure = wf_CompensateOnFailure cfg, w_Timeout = timeout, w_Tasks = tasks\<rparr>))"

text \<open>\<^verbatim>\<open>filepath.Ext\<close>: from the last dot of the last element.\<close>

definition pathExt :: "string \<Rightarrow> string" where
  "pathExt path =
     (let base = rev (takeWhile (\<lambda>c. c \<noteq> CHR ''/'') (rev path))
      in if CHR ''.'' \<in> set base then CHR ''.'' # rev (takeWhile (\<lambda>c. c \<noteq> CHR ''.'') (rev base)) else [])"

record loaderEnv =
  ld_io :: ioEnv
  ld_yaml :: "string \<Rightarrow> error + workflowFile"
  ld_json :: "string \<Rightarrow> error + workflowFile"

definition decodeWorkflowFile :: "loaderEnv \<Rightarrow> string \<Rightarrow> string \<Rightarrow> error + workflowFile" where
  "decodeWorkflowFile env path content =
     (if toLower (pathExt path) \<in> {''.yaml'', ''.yml''}
      then (case ld_yaml env content of Inl err \<Rightarrow> Inl (''decode workflow yaml: '' @ err) | Inr cfg \<Rightarrow> Inr cfg)
      else (case ld_json env content of Inl err \<Rightarrow> Inl (''decode workflow json: '' @ err) | Inr cfg \<Rightarrow> Inr cfg))"

definition LoadWorkflowFromFile :: "loaderEnv \<Rightarrow> string \<Rightarrow> fileSystem \<Rightarrow> error + Workflow" where
  "LoadWorkflowFromFile env path fs =
     (case osReadFile (ld_io env) path fs of
        Inl err \<Rightarrow> Inl (fileErrorString path err)
      | Inr content \<Rightarrow>
          (case decodeWorkflowFile env path content of
             Inl err \<Rightarrow> Inl err
           | Inr cfg \<Rightarrow> readWorkflow loadDuration cfg))"

section \<open>The written form\<close>

text \<open>A workflow as a configuration, with its durations in nanoseconds.\<close>

definition durationText :: "duration \<Rightarrow> string" where
  "durationText d = itoa d @ ''ns''"

definition configOfTask :: "TaskNode \<Rightarrow> taskConfig" where
  "configOfTask t =
     \<lparr>tc_ID = t_ID t, tc_Name = t_Name t, tc_Action = t_Action t, tc_Input = t_Input t, tc_DependsOn = t_DependsOn t,
      tc_Condition = t_Condition t, tc_RunAfter = durationText (t_RunAfter t), tc_Timeout = durationText (t_Timeout t),
      tc_AllowFailure = t_AllowFailure t,
      tc_RetryPolicy = \<lparr>rc_MaxAttempts = rp_MaxAttempts (t_RetryPolicy t),
                        rc_BackoffBase = durationText (rp_BackoffBase (t_RetryPolicy t))\<rparr>,
      tc_Compensation = \<lparr>cc_Action = c_Action (t_Compensation t), cc_Input = c_Input (t_Compensation t),
                         cc_Timeout = durationText (c_Timeout (t_Compensation t))\<rparr>\<rparr>"

definition configOf :: "Workflow \<Rightarrow> workflowFile" where
  "configOf w =
     \<lparr>wf_ID = w_ID w, wf_Name = w_Name w, wf_Description = w_Description w, wf_Version = w_Version w,
      wf_MaxConcurrency = w_MaxConcurrency w, wf_FailFast = w_FailFast w,
      wf_CompensateOnFailure = w_CompensateOnFailure w, wf_Timeout = durationText (w_Timeout w),
      wf_Tasks = map configOfTask (w_Tasks w)\<rparr>"

definition int64 :: "int \<Rightarrow> bool" where
  "int64 n \<longleftrightarrow> minInt64 \<le> n \<and> n \<le> maxInt64"

definition taskDurations :: "TaskNode \<Rightarrow> duration list" where
  "taskDurations t = [t_RunAfter t, t_Timeout t, rp_BackoffBase (t_RetryPolicy t), c_Timeout (t_Compensation t)]"

definition durationsFit :: "Workflow \<Rightarrow> bool" where
  "durationsFit w \<longleftrightarrow> int64 (w_Timeout w) \<and> list_all (\<lambda>t. list_all int64 (taskDurations t)) (w_Tasks w)"

text \<open>What both readers of a duration field do with the written form.\<close>

definition readsBack :: "durationField \<Rightarrow> bool" where
  "readsBack rd \<longleftrightarrow> (\<forall>what d. int64 d \<longrightarrow> rd what (durationText d) = Inr d)"

lemma loadDuration_readsBack: "readsBack loadDuration"
  by (auto simp: readsBack_def loadDuration_def durationText_def int64_def parseDuration_itoa)

lemma readTask_configOf:
  assumes "readsBack rd" and "list_all int64 (taskDurations t)"
  shows "readTask rd (configOfTask t) = Inr t"
  using assms by (simp add: readTask_def configOfTask_def readsBack_def taskDurations_def nodeOf_def)

lemma readTasks_configOf:
  assumes "readsBack rd" and "list_all (\<lambda>t. list_all int64 (taskDurations t)) ts"
  shows "readTasks rd (map configOfTask ts) = Inr ts"
  using assms(2) by (induction ts) (simp_all add: readTask_configOf[OF assms(1)])

lemma readWorkflow_configOf:
  assumes "readsBack rd" and "durationsFit w"
  shows "readWorkflow rd (configOf w) = Inr w"
proof -
  have "rd ''invalid workflow timeout'' (durationText (w_Timeout w)) = Inr (w_Timeout w)"
    using assms by (simp add: durationsFit_def readsBack_def)
  moreover have "readTasks rd (map configOfTask (w_Tasks w)) = Inr (w_Tasks w)"
    using assms by (simp add: durationsFit_def readTasks_configOf)
  ultimately show ?thesis by (simp add: readWorkflow_def configOf_def)
qed

section \<open>What a read workflow holds\<close>

definition readsInt64 :: "durationField \<Rightarrow> bool" where
  "readsInt64 rd \<longleftrightarrow> (\<forall>what raw d. rd what raw = Inr d \<longrightarrow> int64 d)"

lemma loadDuration_int64: "readsInt64 loadDuration"
  by (auto simp: readsInt64_def loadDuration_def int64_def parseDuration_range split: if_splits sum.splits)

lemma readTask_int64:
  "readsInt64 rd \<Longrightarrow> readTask rd cfg = Inr t \<Longrightarrow> list_all int64 (taskDurations t) \<and> t_ID t = tc_ID cfg"
  unfolding readsInt64_def by (auto simp: readTask_def nodeOf_def taskDurations_def split: sum.splits)

lemma readTasks_int64:
  assumes "readsInt64 rd" and "readTasks rd cfgs = Inr ts"
  shows "list_all (\<lambda>t. list_all int64 (taskDurations t)) ts \<and> map t_ID ts = map tc_ID cfgs"
  using assms(2) by (induction cfgs arbitrary: ts) (auto split: sum.splits dest: readTask_int64[OF assms(1)])

lemma readWorkflow_int64:
  assumes "readsInt64 rd" and "readWorkflow rd cfg = Inr w"
  shows "durationsFit w" and "w_ID w = wf_ID cfg" and "map t_ID (w_Tasks w) = map tc_ID (wf_Tasks cfg)"
proof -
  obtain ts where ts: "readTasks rd (wf_Tasks cfg) = Inr ts" and w: "w_Tasks w = ts" "w_ID w = wf_ID cfg"
    and t: "rd ''invalid workflow timeout'' (wf_Timeout cfg) = Inr (w_Timeout w)"
    using assms(2) by (auto simp: readWorkflow_def split: sum.splits)
  have "int64 (w_Timeout w)" using t assms(1) unfolding readsInt64_def by blast
  with readTasks_int64[OF assms(1) ts] w
  show "durationsFit w" and "w_ID w = wf_ID cfg" and "map t_ID (w_Tasks w) = map tc_ID (wf_Tasks cfg)"
    by (simp_all add: durationsFit_def)
qed

end
