(* ===== verification/Sha1.thy ===== *)
theory Sha1
  imports GoStrings "HOL-Library.Word"
begin

text \<open>
  \<^verbatim>\<open>crypto/sha1\<close> and \<^verbatim>\<open>encoding/hex\<close>, by which the API derives the id of a run from an idempotency key
  (FIPS 180-4, on 32-bit words). The facts: a digest is forty hexadecimal digits.
\<close>

unbundle bit_operations_syntax

type_synonym word32 = "32 word"

section \<open>The compression function\<close>

definition roundFun :: "nat \<Rightarrow> word32 \<Rightarrow> word32 \<Rightarrow> word32 \<Rightarrow> word32" where
  "roundFun t x y z =
     (if t < 20 then (x AND y) OR (NOT x AND z)
      else if t < 40 then x XOR y XOR z
      else if t < 60 then (x AND y) OR (x AND z) OR (y AND z)
      else x XOR y XOR z)"

definition roundConst :: "nat \<Rightarrow> word32" where
  "roundConst t =
     (if t < 20 then 0x5A827999 else if t < 40 then 0x6ED9EBA1 else if t < 60 then 0x8F1BBCDC else 0xCA62C1D6)"

text \<open>The message schedule, kept in reverse: the new word comes from those 3, 8, 14 and 16 places back.\<close>

fun expandSchedule :: "nat \<Rightarrow> word32 list \<Rightarrow> word32 list" where
  "expandSchedule 0 ws = ws"
| "expandSchedule (Suc n) ws =
     expandSchedule n (word_rotl 1 (ws ! 2 XOR ws ! 7 XOR ws ! 13 XOR ws ! 15) # ws)"

type_synonym digest = "word32 \<times> word32 \<times> word32 \<times> word32 \<times> word32"

fun roundStep :: "nat \<times> word32 \<Rightarrow> digest \<Rightarrow> digest" where
  "roundStep (t, w) (a, b, c, d, e) =
     (word_rotl 5 a + roundFun t b c d + e + roundConst t + w, a, word_rotl 30 b, c, d)"

fun compress :: "word32 list \<Rightarrow> digest \<Rightarrow> digest" where
  "compress block (h0, h1, h2, h3, h4) =
     (case fold roundStep (zip [0..<80] (rev (expandSchedule 64 (rev block)))) (h0, h1, h2, h3, h4) of
        (a, b, c, d, e) \<Rightarrow> (h0 + a, h1 + b, h2 + c, h3 + d, h4 + e))"

section \<open>Padding\<close>

definition byteOf :: "char \<Rightarrow> nat" where
  "byteOf c = of_char c"

text \<open>The number \<open>x\<close> as \<open>n\<close> bytes, most significant first.\<close>

fun bigEndian :: "nat \<Rightarrow> nat \<Rightarrow> nat list" where
  "bigEndian 0 x = []"
| "bigEndian (Suc n) x = bigEndian n (x div 256) @ [x mod 256]"

definition padMessage :: "nat list \<Rightarrow> nat list" where
  "padMessage m = m @ [128] @ replicate ((119 - length m mod 64) mod 64) 0 @ bigEndian 8 (8 * length m)"

fun wordsOf :: "nat list \<Rightarrow> word32 list" where
  "wordsOf (a # b # c # d # bs) = word_of_nat (((a * 256 + b) * 256 + c) * 256 + d) # wordsOf bs"
| "wordsOf _ = []"

function compressAll :: "word32 list \<Rightarrow> digest \<Rightarrow> digest" where
  "compressAll ws h = (if ws = [] then h else compressAll (drop 16 ws) (compress (take 16 ws) h))"
  by pat_completeness auto
termination
  by (relation "measure (\<lambda>(ws, h). length ws)") auto

declare compressAll.simps [simp del]

definition initDigest :: digest where
  "initDigest = (0x67452301, 0xEFCDAB89, 0x98BADCFE, 0x10325476, 0xC3D2E1F0)"

section \<open>sha1.Sum and hex.EncodeToString\<close>

definition hexWord :: "word32 \<Rightarrow> string" where
  "hexWord w = concat (map (\<lambda>b. [hexDigit (b div 16), hexDigit (b mod 16)]) (bigEndian 4 (unat w)))"

definition sha1Hex :: "string \<Rightarrow> string" where
  "sha1Hex s =
     (case compressAll (wordsOf (padMessage (map byteOf s))) initDigest of
        (a, b, c, d, e) \<Rightarrow> hexWord a @ hexWord b @ hexWord c @ hexWord d @ hexWord e)"

section \<open>Facts\<close>

definition isHexDigit :: "char \<Rightarrow> bool" where
  "isHexDigit c \<longleftrightarrow> (let n = (of_char c :: nat) in 48 \<le> n \<and> n \<le> 57 \<or> 97 \<le> n \<and> n \<le> 102)"

lemma length_bigEndian [simp]: "length (bigEndian n x) = n"
  by (induction n arbitrary: x) auto

lemma length_padMessage: "length (padMessage m) mod 64 = 0"
proof -
  have padding: "(r + (9 + (119 - r) mod 64)) mod 64 = 0" if "r < 64" for r :: nat
  proof -
    have "(r + (9 + (119 - r) mod 64)) mod 64 = (r + 9 + (119 - r)) mod 64"
      by (metis add.assoc mod_add_right_eq)
    also have "r + 9 + (119 - r) = 64 * 2" using that by simp
    finally show ?thesis by simp
  qed
  have "(n + k) mod 64 = (n mod 64 + k) mod 64" for n k :: nat by (simp add: mod_add_left_eq)
  then show ?thesis using padding[of "length m mod 64"] by (simp add: padMessage_def)
qed

lemma hexDigit_isHex: "n < 16 \<Longrightarrow> isHexDigit (hexDigit n)"
  by (simp add: isHexDigit_def hexDigit_def)

lemma bigEndian_bytes: "b \<in> set (bigEndian n x) \<Longrightarrow> b < 256"
  by (induction n arbitrary: x) auto

lemma length_concat_pairs: "length (concat (map (\<lambda>b. [f b, g b]) xs)) = 2 * length xs"
  by (induction xs) auto

lemma hexWord_format: "length (hexWord w) = 8 \<and> list_all isHexDigit (hexWord w)"
  by (auto simp: hexWord_def length_concat_pairs list_all_iff hexDigit_isHex dest: bigEndian_bytes)

lemma sha1Hex_format: "length (sha1Hex s) = 40 \<and> list_all isHexDigit (sha1Hex s)"
  using hexWord_format by (simp add: sha1Hex_def split: prod.splits)

end
