(* ===== verification/Api.thy ===== *)
theory Api
  imports WorkflowLoader Sha1 Scheduler "HOL-Library.AList"
begin

text \<open>
  The API server (\<^verbatim>\<open>internal/api/server.go\<close>): requests and responses, authorization, and the functions by which the
  handlers read parameters and bodies. The handlers are in \<open>ApiWorkflows\<close>, \<open>ApiJobs\<close> and \<open>ApiServer\<close>.

  A request is what \<^verbatim>\<open>net/http\<close> hands to a handler: method, path, the first value of each query parameter and of each
  header under its canonical name, and the body. A response is its status and the value handed to
  \<^verbatim>\<open>json.Encoder\<close>. Decoding a body with \<^verbatim>\<open>encoding/json\<close> is a parameter, one function per request struct; a handler's
  readings of the clock, the environments of the calls it makes and the run it executes are the rest of \<open>apiEnv\<close>.
\<close>

section \<open>Requests\<close>

record httpRequest =
  hr_Method :: string
  hr_Path :: string
  hr_Query :: bindings
  hr_Header :: bindings
  hr_Body :: string

definition queryGet :: "httpRequest \<Rightarrow> string \<Rightarrow> string" where
  "queryGet r k = lookupOrEmpty (hr_Query r) k"

definition headerGet :: "httpRequest \<Rightarrow> string \<Rightarrow> string" where
  "headerGet r k = lookupOrEmpty (hr_Header r) k"

definition equalFold :: "string \<Rightarrow> string \<Rightarrow> bool" where
  "equalFold s t \<longleftrightarrow> toLower s = toLower t"

text \<open>The structs of the bodies. Those of a workflow have the fields of the loader's.\<close>

type_synonym workflowRequest = workflowFile
type_synonym taskNodeRequest = taskConfig

record workflowPatchRequest =
  wp_ID :: "string option"
  wp_Name :: "string option"
  wp_Description :: "string option"
  wp_Version :: "string option"
  wp_MaxConcurrency :: "int option"
  wp_FailFast :: "bool option"
  wp_CompensateOnFailure :: "bool option"
  wp_Timeout :: "string option"
  wp_Tasks :: "taskNodeRequest list option"

record runRequest =
  qr_WorkflowID :: string
  qr_Async :: bool
  qr_MaxAttempts :: int

record requeueRequest =
  qq_AvailableAfter :: string
  qq_ReplayedBy :: string
  qq_ReplayReason :: string

record bulkCancelRequest =
  qc_JobIDs :: "string list"
  qc_Status :: string
  qc_WorkflowID :: string
  qc_RequestID :: string
  qc_Limit :: int
  qc_Reason :: string

record purgeRequest =
  qp_Status :: string
  qp_OlderThan :: string
  qp_Limit :: int
  qp_DryRun :: bool

record bulkRequeueRequest =
  qb_JobIDs :: "string list"
  qb_Status :: string
  qb_Limit :: int
  qb_AvailableAfter :: string
  qb_ReplayedBy :: string
  qb_ReplayReason :: string

record scheduleRequest =
  qs_WorkflowID :: string
  qs_Interval :: string
  qs_Cron :: string
  qs_RunOnStartup :: bool
  qs_AllowOverlap :: bool

section \<open>Responses\<close>

record 'a listResponse =
  lr_Items :: "'a list"
  lr_Total :: int
  lr_Limit :: int
  lr_Offset :: int
  lr_Returned :: int

datatype 'a listBody = PlainList "'a list" | EnvelopeList "'a listResponse"

record bulkFailureDetail =
  bf_Code :: string
  bf_Message :: string

record bulkResult =
  br_ResultCode :: string
  br_Failed :: bindings
  br_FailedDetails :: "(string \<times> bulkFailureDetail) list"

record purgeResponse =
  pr_Deleted :: int
  pr_ResultCode :: string
  pr_DryRun :: "bool option"
  pr_Matched :: "int option"

record healthResponse =
  he_uptimeSeconds :: int
  he_authEnabled :: bool
  he_queueConfigured :: bool
  he_schedulerEnabled :: bool
  he_retentionConfigured :: bool

datatype responseBody =
    ErrorBody error
  | ValidationBody string string
  | WorkflowBody Workflow
  | WorkflowsBody "Workflow listBody"
  | RunBody Run
  | RunsBody "Run listBody"
  | JobBody RunQueueJob
  | JobsBody "RunQueueJob listBody"
  | TransitionsBody "RunJobTransition listBody"
  | JobStatsBody int "RunJobStatus \<rightharpoonup> int"
  | BulkCancelBody "RunQueueJob list" bulkResult
  | BulkRequeueBody "RunQueueJob list" bulkResult
  | PurgeBody purgeResponse
  | RunCancelledBody string "RunQueueJob list"
  | ScheduleBody ScheduleConfig
  | SchedulesBody "ScheduleConfig listBody"
  | ScheduleStatusBody string string
  | HealthBody healthResponse
  | ReadyBody
  | NotReadyBody error
  | TextBody string
  | RedirectBody string

record httpResponse =
  hp_Status :: int
  hp_Body :: responseBody

text \<open>What becomes of a request: an answer, a panic (which \<^verbatim>\<open>net/http\<close> recovers from, dropping the connection), or
  no answer because the run it started does not end.\<close>

datatype 'st served = Answered httpResponse 'st | Panicked 'st | NoAnswer

definition writeJSON :: "int \<Rightarrow> responseBody \<Rightarrow> httpResponse" where
  "writeJSON status value = \<lparr>hp_Status = status, hp_Body = value\<rparr>"

definition writeError :: "int \<Rightarrow> error \<Rightarrow> httpResponse" where
  "writeError status message = writeJSON status (ErrorBody message)"

definition writeValidationError :: "int \<Rightarrow> string \<Rightarrow> error \<Rightarrow> httpResponse" where
  "writeValidationError status field message = writeJSON status (ValidationBody field message)"

abbreviation methodNotAllowed :: httpResponse where
  "methodNotAllowed \<equiv> writeError 405 ''method not allowed''"

abbreviation noQueue :: httpResponse where
  "noQueue \<equiv> writeError 501 ''async queue is not configured''"

abbreviation noScheduler :: httpResponse where
  "noScheduler \<equiv> writeError 501 ''scheduler is not configured''"

section \<open>The server\<close>

record ('e, 's, 'q) Server =
  sv_addr :: string
  sv_store :: "'s WorkflowStore"
  sv_queue :: "'q RunQueue option"
  sv_executor :: "('e, 's) Executor"
  sv_authRead :: "string set"
  sv_authWrite :: "string set"
  sv_authOn :: bool
  sv_startedAt :: gotime
  sv_queueRetentionStatus :: string
  sv_queueRetentionOlderThan :: duration
  sv_queueRetentionInterval :: duration
  sv_queueRetentionBatch :: int

text \<open>What the handlers share with the other parts: the store, the queue and the collector, and the scheduler with
  its files, if there is one.\<close>

record ('e, 's, 'q, 'c) apiState =
  as_world :: "('s, 'q) world"
  as_sched :: "('e, 's, 'q, 'c) scState option"

record bodyDecoders =
  bd_workflow :: "string \<Rightarrow> error + workflowRequest"
  bd_patch :: "string \<Rightarrow> error + workflowPatchRequest"
  bd_run :: "string \<Rightarrow> error + runRequest"
  bd_requeue :: "string \<Rightarrow> error + requeueRequest"
  bd_bulkCancel :: "string \<Rightarrow> error + bulkCancelRequest"
  bd_purge :: "string \<Rightarrow> error + purgeRequest"
  bd_bulkRequeue :: "string \<Rightarrow> error + bulkRequeueRequest"
  bd_schedule :: "string \<Rightarrow> error + scheduleRequest"

text \<open>\<open>ae_op n\<close> is the environment of the \<open>n\<close>-th call of a store or queue method in the request; the calls in a loop over
  pages and in a loop over jobs have their own, \<open>ae_page\<close> and \<open>ae_item\<close>.\<close>

record ('e, 'c) apiEnv =
  ae_json :: bodyDecoders
  ae_op :: "nat \<Rightarrow> opEnv"
  ae_page :: "nat \<Rightarrow> opEnv"
  ae_item :: "nat \<Rightarrow> opEnv"
  ae_now :: clock
  ae_statusOrd :: "RunJobStatus list"
  ae_httpOrd :: "string list"
  ae_depthOrd :: "string list"
  ae_run :: "'e runEnv"
  ae_cron :: "'c Cron"
  ae_sched :: scEnv

type_synonym ('e, 's, 'q, 'c) handler =
  "('e, 's, 'q) Server \<Rightarrow> ('e, 'c) apiEnv \<Rightarrow> httpRequest \<Rightarrow> ('e, 's, 'q, 'c) apiState \<Rightarrow> ('e, 's, 'q, 'c) apiState served"

abbreviation storeOf :: "('e, 's, 'q, 'c) apiState \<Rightarrow> 's" where
  "storeOf st \<equiv> wd_store (as_world st)"

abbreviation queueOf :: "('e, 's, 'q, 'c) apiState \<Rightarrow> 'q" where
  "queueOf st \<equiv> wd_queue (as_world st)"

definition setStore :: "'s \<Rightarrow> ('e, 's, 'q, 'c) apiState \<Rightarrow> ('e, 's, 'q, 'c) apiState" where
  "setStore x st = st\<lparr>as_world := (as_world st)\<lparr>wd_store := x\<rparr>\<rparr>"

definition setQueue :: "'q \<Rightarrow> ('e, 's, 'q, 'c) apiState \<Rightarrow> ('e, 's, 'q, 'c) apiState" where
  "setQueue x st = st\<lparr>as_world := (as_world st)\<lparr>wd_queue := x\<rparr>\<rparr>"

definition setMetrics :: "Collector option \<Rightarrow> ('e, 's, 'q, 'c) apiState \<Rightarrow> ('e, 's, 'q, 'c) apiState" where
  "setMetrics x st = st\<lparr>as_world := (as_world st)\<lparr>wd_metrics := x\<rparr>\<rparr>"

definition setSched :: "('e, 's, 'q, 'c) scState \<Rightarrow> ('e, 's, 'q, 'c) apiState \<Rightarrow> ('e, 's, 'q, 'c) apiState" where
  "setSched x st = st\<lparr>as_sched := Some x\<rparr>"

section \<open>Authorization\<close>

definition isWriteMethod :: "string \<Rightarrow> bool" where
  "isWriteMethod method \<longleftrightarrow> method \<notin> {''GET'', ''HEAD'', ''OPTIONS''}"

definition extractToken :: "httpRequest \<Rightarrow> string" where
  "extractToken r =
     (let authHeader = trimSpace (headerGet r ''Authorization'')
      in if hasPrefix (toLower authHeader) ''bearer '' then trimSpace (drop (length ''Bearer '') authHeader)
         else trimSpace (headerGet r ''X-Api-Token''))"

definition isAuthorized :: "('e, 's, 'q) Server \<Rightarrow> httpRequest \<Rightarrow> bool" where
  "isAuthorized s r =
     (if \<not> sv_authOn s then True
      else let token = extractToken r
           in if token = '''' then False
              else let canRead = token \<in> sv_authRead s; canWrite = token \<in> sv_authWrite s
                   in if isWriteMethod (hr_Method r) then canWrite else canRead \<or> canWrite)"

text \<open>One segment of the configuration; the sets are those of the read and of the write tokens.\<close>

definition authSegment :: "string \<Rightarrow> string set \<times> string set \<Rightarrow> string set \<times> string set" where
  "authSegment part rw =
     (let segment = trimSpace part
      in if segment = '''' then rw
         else case strSplit2 segment (CHR '':'') of
                [k, v] \<Rightarrow>
                  (let scope = toLower (trimSpace k); token = trimSpace v
                   in if token = '''' then rw
                      else if scope = ''read'' then (insert token (fst rw), snd rw)
                      else if scope = ''write'' then (fst rw, insert token (snd rw))
                      else if scope = ''admin'' then (insert token (fst rw), insert token (snd rw))
                      else rw)
              | _ \<Rightarrow> rw)"

definition parseAuthConfig :: "string \<Rightarrow> string set \<times> string set" where
  "parseAuthConfig raw =
     (let trimmed = trimSpace raw
      in if trimmed = '''' then ({}, {})
         else if \<not> strContains trimmed '':'' then ({trimmed}, {trimmed})
         else fold authSegment (strSplit trimmed (CHR '','')) ({}, {}))"

section \<open>Parameters\<close>

definition parseLimit :: "httpRequest \<Rightarrow> int" where
  "parseLimit r =
     (let raw = trimSpace (queryGet r ''limit'')
      in if raw = '''' then 50
         else case atoi raw of Inr val \<Rightarrow> if val > 0 \<and> val \<le> 1000 then val else 50 | Inl _ \<Rightarrow> 50)"

definition parseOffset :: "httpRequest \<Rightarrow> int" where
  "parseOffset r =
     (let raw = trimSpace (queryGet r ''offset'')
      in if raw = '''' then 0
         else case atoi raw of Inr val \<Rightarrow> if val \<ge> 0 then val else 0 | Inl _ \<Rightarrow> 0)"

definition parseLimitOffset :: "httpRequest \<Rightarrow> int \<times> int" where
  "parseLimitOffset r = (parseLimit r, parseOffset r)"

text \<open>The value and whether there is one.\<close>

definition parseOptionalBool :: "string \<Rightarrow> bool \<times> bool" where
  "parseOptionalBool raw =
     (let trimmed = trimSpace raw
      in if trimmed = '''' then (False, False)
         else case parseBool trimmed of None \<Rightarrow> (False, False) | Some val \<Rightarrow> (val, True))"

definition useListEnvelope :: "httpRequest \<Rightarrow> bool" where
  "useListEnvelope r =
     (let raw = trimSpace (queryGet r ''envelope''); (val, ok) = parseOptionalBool raw
      in if raw \<noteq> '''' \<and> ok then val
         else let raw = trimSpace (headerGet r ''X-List-Envelope''); (val, ok) = parseOptionalBool raw
              in if raw \<noteq> '''' \<and> ok then val else False)"

text \<open>The instant (zero if absent) and whether there is one; \<^const>\<open>None\<close> for a time stamp that is not RFC 3339. The code
  tries \<^verbatim>\<open>RFC3339\<close> and then \<^verbatim>\<open>RFC3339Nano\<close>, which accept the same texts.\<close>

definition parseOptionalTime :: "string \<Rightarrow> (gotime \<times> bool) option" where
  "parseOptionalTime raw =
     (let trimmed = trimSpace raw
      in if trimmed = '''' then Some (0, False)
         else map_option (\<lambda>t. (t, True)) (parseRFC3339 trimmed))"

definition isValidRunStatus :: "string \<Rightarrow> bool" where
  "isValidRunStatus raw \<longleftrightarrow>
     toUpper (trimSpace raw) \<in>
       set (map runStatusString [RunStatusPending, RunStatusRunning, RunStatusSuccess, RunStatusFailed, RunStatusCancelled])"

definition isValidRunJobStatus :: "string \<Rightarrow> bool" where
  "isValidRunJobStatus raw \<longleftrightarrow>
     toUpper (trimSpace raw) \<in>
       set (map runJobStatusString [RunJobStatusQueued, RunJobStatusLeased, RunJobStatusSucceeded, RunJobStatusFailed,
         RunJobStatusDead, RunJobStatusCancelled])"

text \<open>The two ends of a time window, as the listings read them, and the check that they are in order.\<close>

definition readWindow ::
  "string \<Rightarrow> string \<Rightarrow> httpRequest \<Rightarrow> httpResponse + (gotime \<times> bool) \<times> (gotime \<times> bool)" where
  "readWindow after before r =
     (case parseOptionalTime (queryGet r after) of
        None \<Rightarrow> Inl (writeValidationError 400 after ''invalid RFC3339 timestamp'')
      | Some a \<Rightarrow>
          (case parseOptionalTime (queryGet r before) of
             None \<Rightarrow> Inl (writeValidationError 400 before ''invalid RFC3339 timestamp'')
           | Some b \<Rightarrow> Inr (a, b)))"

definition windowReversed :: "(gotime \<times> bool) \<times> (gotime \<times> bool) \<Rightarrow> bool" where
  "windowReversed ab \<longleftrightarrow> snd (fst ab) \<and> snd (snd ab) \<and> fst (snd ab) < fst (fst ab)"

definition reversedWindow :: "string \<Rightarrow> string \<Rightarrow> httpResponse" where
  "reversedWindow after before = writeValidationError 400 after (after @ '' must be before '' @ before)"

section \<open>Lists\<close>

text \<open>A slice expression \<^verbatim>\<open>items[lo:hi]\<close>; \<^const>\<open>None\<close> when it panics.\<close>

definition goSlice :: "'a list \<Rightarrow> int \<Rightarrow> int \<Rightarrow> 'a list option" where
  "goSlice items lo hi =
     (if 0 \<le> lo \<and> lo \<le> hi \<and> hi \<le> int (length items)
      then Some (take (nat (hi - lo)) (drop (nat lo) items)) else None)"

text \<open>\<^verbatim>\<open>paginateWorkflows\<close> and \<^verbatim>\<open>paginateRuns\<close>, which have the same body.\<close>

definition paginate :: "'a list \<Rightarrow> httpRequest \<Rightarrow> 'a list option" where
  "paginate items r =
     (case parseLimitOffset r of (limit, offset) \<Rightarrow>
       (if offset \<ge> int (length items) then Some []
        else let end0 = wrap64 (offset + limit);
                 end1 = (if end0 > int (length items) then int (length items) else end0)
             in goSlice items offset end1))"

definition writeListResponse :: "httpRequest \<Rightarrow> 'a list \<Rightarrow> int \<Rightarrow> int \<Rightarrow> int \<Rightarrow> 'a listBody" where
  "writeListResponse r items n limit offset =
     (if useListEnvelope r
      then EnvelopeList \<lparr>lr_Items = items, lr_Total = n, lr_Limit = limit, lr_Offset = offset,
                         lr_Returned = int (length items)\<rparr>
      else PlainList items)"

section \<open>Bulk operations\<close>

definition bulkResultCode :: "nat \<Rightarrow> nat \<Rightarrow> string" where
  "bulkResultCode success failed =
     (if failed = 0 then ''BULK_OK'' else if success = 0 then ''BULK_ALL_FAILED'' else ''BULK_PARTIAL_FAILURE'')"

definition classifyBulkJobError :: "error \<Rightarrow> string" where
  "classifyBulkJobError message =
     (let msg = toLower (trimSpace message)
      in if strContains msg ''not found'' then ''JOB_NOT_FOUND''
         else if strContains msg ''only failed or dead-letter'' then ''INVALID_JOB_STATE''
         else if strContains msg ''cannot be cancelled'' then ''INVALID_JOB_STATE''
         else if strContains msg ''transition rejected'' then ''INVALID_JOB_STATE''
         else ''JOB_OPERATION_FAILED'')"

text \<open>What a bulk loop has collected so far: the jobs done, and the failures by job id, whose two maps have the same
  keys.\<close>

record bulkState =
  bk_done :: "RunQueueJob list"
  bk_failed :: bindings
  bk_failedDetails :: "(string \<times> bulkFailureDetail) list"

definition bulkStart :: bulkState where
  "bulkStart = \<lparr>bk_done = [], bk_failed = [], bk_failedDetails = []\<rparr>"

definition bulkFail :: "string \<Rightarrow> error \<Rightarrow> bulkState \<Rightarrow> bulkState" where
  "bulkFail jobID message b =
     b\<lparr>bk_failed := AList.update jobID message (bk_failed b),
       bk_failedDetails := AList.update jobID \<lparr>bf_Code = classifyBulkJobError message, bf_Message = message\<rparr>
         (bk_failedDetails b)\<rparr>"

definition bulkDone :: "RunQueueJob \<Rightarrow> bulkState \<Rightarrow> bulkState" where
  "bulkDone job b = b\<lparr>bk_done := bk_done b @ [job]\<rparr>"

definition bulkResultOf :: "bulkState \<Rightarrow> bulkResult" where
  "bulkResultOf b =
     \<lparr>br_ResultCode = bulkResultCode (length (bk_done b)) (length (bk_failed b)),
      br_Failed = bk_failed b, br_FailedDetails = bk_failedDetails b\<rparr>"

text \<open>\<^verbatim>\<open>listAllRunJobsPaged\<close> and the loop of \<^verbatim>\<open>handleRunByID\<close>: pages are fetched until one is not full. \<open>fetch k offset\<close>
  is the \<open>k\<close>-th call. \<^const>\<open>None\<close>: the loop does not end.\<close>

datatype 'a paged = PagedItems "'a list" | PagedError error | PagedPanic

partial_function (option) pagedLoop ::
  "(nat \<Rightarrow> int \<Rightarrow> (error + 'a list) option) \<Rightarrow> int \<Rightarrow> nat \<Rightarrow> int \<Rightarrow> 'a list \<Rightarrow> 'a paged option" where
  "pagedLoop fetch pageSize k offset all =
     (case fetch k offset of
        None \<Rightarrow> Some PagedPanic
      | Some (Inl err) \<Rightarrow> Some (PagedError err)
      | Some (Inr items) \<Rightarrow>
          if items = [] then Some (PagedItems all)
          else if int (length items) < pageSize then Some (PagedItems (all @ items))
          else pagedLoop fetch pageSize (Suc k) (wrap64 (offset + int (length items))) (all @ items))"

definition listAllRunJobsPaged ::
  "'q RunQueue \<Rightarrow> (nat \<Rightarrow> opEnv) \<Rightarrow> string \<Rightarrow> int \<Rightarrow> 'q \<Rightarrow> RunQueueJob paged option" where
  "listAllRunJobsPaged queue op status pageSize q =
     (let pageSize = (if pageSize \<le> 0 then 500 else pageSize)
      in pagedLoop (\<lambda>k offset. rq_ListRunJobs queue (op k) status pageSize offset q) pageSize 0 0 [])"

section \<open>Bodies\<close>

definition deterministicRunID :: "string \<Rightarrow> string \<Rightarrow> string" where
  "deterministicRunID workflowID key = ''idem-'' @ sha1Hex (workflowID @ ''|'' @ key)"

text \<open>A duration field of a body: absent when blank. The text is parsed as it is.\<close>

definition requestDuration :: durationField where
  "requestDuration what raw =
     (if trimSpace raw = '''' then Inr 0
      else case parseDuration raw of Inl err \<Rightarrow> Inl (what @ '': '' @ err) | Inr d \<Rightarrow> Inr d)"

definition decodeWorkflowRequest :: "bodyDecoders \<Rightarrow> string \<Rightarrow> error + Workflow" where
  "decodeWorkflowRequest dec body =
     (case bd_workflow dec body of Inl err \<Rightarrow> Inl err | Inr req \<Rightarrow> readWorkflow requestDuration req)"

definition patched :: "'a option \<Rightarrow> 'a \<Rightarrow> 'a" where
  "patched field old = (case field of None \<Rightarrow> old | Some v \<Rightarrow> v)"

text \<open>The timeout of a patch: a blank text resets it; the trimmed text is parsed.\<close>

definition patchTimeout :: "string option \<Rightarrow> duration \<Rightarrow> error + duration" where
  "patchTimeout field old =
     (case field of
        None \<Rightarrow> Inr old
      | Some raw \<Rightarrow>
          (let timeoutRaw = trimSpace raw
           in if timeoutRaw = '''' then Inr 0
              else case parseDuration timeoutRaw of
                     Inl err \<Rightarrow> Inl (''invalid workflow timeout: '' @ err)
                   | Inr d \<Rightarrow> Inr d))"

definition applyPatch :: "workflowPatchRequest \<Rightarrow> Workflow \<Rightarrow> error + Workflow" where
  "applyPatch patch base =
     (case patchTimeout (wp_Timeout patch) (w_Timeout base) of
        Inl err \<Rightarrow> Inl err
      | Inr timeout \<Rightarrow>
          (case (case wp_Tasks patch of None \<Rightarrow> Inr (w_Tasks base) | Some reqs \<Rightarrow> readTasks requestDuration reqs) of
             Inl err \<Rightarrow> Inl err
           | Inr tasks \<Rightarrow>
               Inr (base\<lparr>w_ID := (case wp_ID patch of None \<Rightarrow> w_ID base | Some i \<Rightarrow> trimSpace i),
                         w_Name := patched (wp_Name patch) (w_Name base),
                         w_Description := patched (wp_Description patch) (w_Description base),
                         w_Version := patched (wp_Version patch) (w_Version base),
                         w_MaxConcurrency := patched (wp_MaxConcurrency patch) (w_MaxConcurrency base),
                         w_FailFast := patched (wp_FailFast patch) (w_FailFast base),
                         w_CompensateOnFailure := patched (wp_CompensateOnFailure patch) (w_CompensateOnFailure base),
                         w_Timeout := timeout, w_Tasks := tasks\<rparr>)))"

definition decodeWorkflowPatchRequest :: "bodyDecoders \<Rightarrow> string \<Rightarrow> Workflow \<Rightarrow> error + Workflow" where
  "decodeWorkflowPatchRequest dec body base =
     (case bd_patch dec body of Inl err \<Rightarrow> Inl err | Inr patch \<Rightarrow> applyPatch patch base)"

end
