(* ===== verification/ApiWorkflows.thy ===== *)
theory ApiWorkflows
  imports Api
begin

text \<open>
  The handlers of workflows and runs: \<^verbatim>\<open>handleWorkflows\<close>, \<^verbatim>\<open>handleWorkflowByID\<close>, \<^verbatim>\<open>handleRuns\<close> and \<^verbatim>\<open>handleRunByID\<close>.
  A long handler is split at its method cases, and \<^verbatim>\<open>POST /runs\<close> at the kinds of run it starts.
\<close>

section \<open>Workflows\<close>

text \<open>The end of \<^verbatim>\<open>POST\<close>, \<^verbatim>\<open>PUT\<close> and \<^verbatim>\<open>PATCH\<close>: validate, save, answer.\<close>

definition storeWorkflow ::
  "int \<Rightarrow> ('e, 's, 'q) Server \<Rightarrow> opEnv \<Rightarrow> Workflow \<Rightarrow> ('e, 's, 'q, 'c) apiState \<Rightarrow> ('e, 's, 'q, 'c) apiState served" where
  "storeWorkflow status s op w st =
     (case ValidateWorkflow w of
        Some err \<Rightarrow> Answered (writeError 400 err) st
      | None \<Rightarrow>
          (case ws_SaveWorkflow (sv_store s) op w (storeOf st) of
             (Some err, x) \<Rightarrow> Answered (writeError 500 err) (setStore x st)
           | (None, x) \<Rightarrow> Answered (writeJSON status (WorkflowBody w)) (setStore x st)))"

definition workflowAfter :: "Workflow \<Rightarrow> Workflow \<Rightarrow> bool" where
  "workflowAfter a b \<longleftrightarrow> w_ID b < w_ID a"

definition listWorkflows :: "('e, 's, 'q, 'c) handler" where
  "listWorkflows s env r st =
     (case ws_ListWorkflows (sv_store s) (ae_op env 0) (storeOf st) of
        Inl err \<Rightarrow> Answered (writeError 500 err) st
      | Inr found \<Rightarrow>
          (let workflows = (if equalFold (queryGet r ''order'') ''desc'' then sortSlice workflowAfter found else found);
               (limit, offset) = parseLimitOffset r
           in case paginate workflows r of
                None \<Rightarrow> Panicked st
              | Some page \<Rightarrow>
                  Answered (writeJSON 200 (WorkflowsBody
                    (writeListResponse r page (int (length workflows)) limit offset))) st))"

definition handleWorkflows :: "('e, 's, 'q, 'c) handler" where
  "handleWorkflows s env r st =
     (if hr_Method r = ''GET'' then listWorkflows s env r st
      else if hr_Method r = ''POST'' then
        (case decodeWorkflowRequest (ae_json env) (hr_Body r) of
           Inl err \<Rightarrow> Answered (writeValidationError 400 ''workflow'' err) st
         | Inr w \<Rightarrow> storeWorkflow 201 s (ae_op env 0) w st)
      else Answered methodNotAllowed st)"

definition idMismatch :: httpResponse where
  "idMismatch = writeValidationError 400 ''id'' ''workflow id in body must match path''"

definition putWorkflow :: "string \<Rightarrow> ('e, 's, 'q, 'c) handler" where
  "putWorkflow workflowID s env r st =
     (case decodeWorkflowRequest (ae_json env) (hr_Body r) of
        Inl err \<Rightarrow> Answered (writeValidationError 400 ''workflow'' err) st
      | Inr w0 \<Rightarrow>
          (let w = (if trimSpace (w_ID w0) = '''' then w0\<lparr>w_ID := workflowID\<rparr> else w0)
           in if w_ID w \<noteq> workflowID then Answered idMismatch st
              else storeWorkflow 200 s (ae_op env 0) w st))"

definition patchWorkflow :: "string \<Rightarrow> ('e, 's, 'q, 'c) handler" where
  "patchWorkflow workflowID s env r st =
     (case ws_GetWorkflow (sv_store s) (ae_op env 0) workflowID (storeOf st) of
        Inl err \<Rightarrow> Answered (writeError 404 err) st
      | Inr existing \<Rightarrow>
          (case decodeWorkflowPatchRequest (ae_json env) (hr_Body r) existing of
             Inl err \<Rightarrow> Answered (writeValidationError 400 ''workflow'' err) st
           | Inr w \<Rightarrow>
               if w_ID w \<noteq> workflowID then Answered idMismatch st
               else storeWorkflow 200 s (ae_op env 1) w st))"

definition handleWorkflowByID :: "('e, 's, 'q, 'c) handler" where
  "handleWorkflowByID s env r st =
     (let workflowID = trimPrefix (hr_Path r) ''/workflows/''
      in if workflowID = '''' then Answered (writeValidationError 400 ''workflowId'' ''workflow id is required'') st
         else if hr_Method r = ''GET'' then
           (case ws_GetWorkflow (sv_store s) (ae_op env 0) workflowID (storeOf st) of
              Inl err \<Rightarrow> Answered (writeError 404 err) st
            | Inr w \<Rightarrow> Answered (writeJSON 200 (WorkflowBody w)) st)
         else if hr_Method r = ''PUT'' then putWorkflow workflowID s env r st
         else if hr_Method r = ''PATCH'' then patchWorkflow workflowID s env r st
         else Answered methodNotAllowed st)"

section \<open>Runs\<close>

definition listRuns :: "('e, 's, 'q, 'c) handler" where
  "listRuns s env r st =
     (let workflowID = queryGet r ''workflowId'';
          statusFilter = trimSpace (queryGet r ''status'');
          requestID = trimSpace (queryGet r ''requestId'')
      in case readWindow ''startedAfter'' ''startedBefore'' r of
           Inl resp \<Rightarrow> Answered resp st
         | Inr window \<Rightarrow>
             if statusFilter \<noteq> '''' \<and> \<not> isValidRunStatus statusFilter
             then Answered (writeValidationError 400 ''status'' ''invalid run status'') st
             else if windowReversed window then Answered (reversedWindow ''startedAfter'' ''startedBefore'') st
             else let runStatus = (if statusFilter \<noteq> '''' then toUpper statusFilter else '''');
                      startedAfter = fst (fst window); startedBefore = fst (snd window);
                      (limit, offset) = parseLimitOffset r;
                      orderDesc = equalFold (queryGet r ''order'') ''desc''
                  in case ws_ListRunsFiltered (sv_store s) (ae_op env 0) workflowID runStatus requestID
                            startedAfter startedBefore orderDesc limit offset (storeOf st) of
                       None \<Rightarrow> Panicked st
                     | Some (Inl err) \<Rightarrow> Answered (writeError 500 err) st
                     | Some (Inr runs) \<Rightarrow>
                         if useListEnvelope r
                         then (case ws_CountRunsFiltered (sv_store s) (ae_op env 1) workflowID runStatus requestID
                                      startedAfter startedBefore (storeOf st) of
                                 Inl err \<Rightarrow> Answered (writeError 500 err) st
                               | Inr n \<Rightarrow> Answered (writeJSON 200 (RunsBody
                                   (writeListResponse r runs (int n) limit offset))) st)
                         else Answered (writeJSON 200 (RunsBody (PlainList runs))) st)"

text \<open>What the handler makes of a run the executor was asked for.\<close>

definition runAnswer ::
  "'s runReturn \<Rightarrow> ('e, 's, 'q, 'c) apiState \<Rightarrow> ('e, 's, 'q, 'c) apiState served" where
  "runAnswer ret st =
     (case ret of
        RunReturned run (Some err) x m \<Rightarrow> Answered (writeError 500 err) (setMetrics m (setStore x st))
      | RunReturned run None x m \<Rightarrow> Answered (writeJSON 201 (RunBody run)) (setMetrics m (setStore x st))
      | _ \<Rightarrow> NoAnswer)"

definition idempotencyKeyOf :: "httpRequest \<Rightarrow> string" where
  "idempotencyKeyOf r =
     (let key = trimSpace (headerGet r ''Idempotency-Key'')
      in if key = '''' then trimSpace (headerGet r ''X-Idempotency-Key'') else key)"

text \<open>A run with an idempotency key that the request waits for.\<close>

definition postIdempotentRun :: "string \<Rightarrow> runRequest \<Rightarrow> Workflow \<Rightarrow> ('e, 's, 'q, 'c) handler" where
  "postIdempotentRun key req w s env r st =
     (let runID = deterministicRunID (qr_WorkflowID req) key
      in case ws_GetRun (sv_store s) (ae_op env 1) runID (storeOf st) of
           Inr existingRun \<Rightarrow> Answered (writeJSON 200 (RunBody existingRun)) st
         | Inl _ \<Rightarrow> runAnswer (RunWithID (sv_executor s) (ae_run env) w runID key (storeOf st) (wd_metrics (as_world st))) st)"

definition asyncJob :: "runRequest \<Rightarrow> string \<Rightarrow> string \<Rightarrow> gotime \<Rightarrow> RunQueueJob" where
  "asyncJob req runID key now =
     zeroRunQueueJob\<lparr>j_ID := ''job-'' @ runID, j_WorkflowID := qr_WorkflowID req, j_RunID := runID, j_RequestID := key,
       j_Status := RunJobStatusQueued, j_Attempts := 0,
       j_MaxAttempts := (if qr_MaxAttempts req \<le> 0 then 5 else qr_MaxAttempts req),
       j_AvailableAt := now, j_CreatedAt := now, j_UpdatedAt := now\<rparr>"

definition enqueueAsync ::
  "runRequest \<Rightarrow> string \<Rightarrow> string \<Rightarrow> 'q RunQueue \<Rightarrow> ('e, 'c) apiEnv \<Rightarrow> ('e, 's, 'q, 'c) apiState \<Rightarrow> ('e, 's, 'q, 'c) apiState served" where
  "enqueueAsync req runID key queue env st =
     (let job = asyncJob req runID key (ae_now env 1)
      in case rq_EnqueueRunJob queue (ae_op env 3) job (queueOf st) of
           (Some err, q) \<Rightarrow> Answered (writeError 500 err) (setQueue q st)
         | (None, q) \<Rightarrow> Answered (writeJSON 202 (JobBody job)) (setQueue q st))"

definition postAsyncRun :: "string \<Rightarrow> runRequest \<Rightarrow> ('e, 's, 'q, 'c) handler" where
  "postAsyncRun key req s env r st =
     (case sv_queue s of
        None \<Rightarrow> Answered noQueue st
      | Some queue \<Rightarrow>
          if key \<noteq> ''''
          then (let runID = deterministicRunID (qr_WorkflowID req) key
                in case ws_GetRun (sv_store s) (ae_op env 1) runID (storeOf st) of
                     Inr existingRun \<Rightarrow> Answered (writeJSON 200 (RunBody existingRun)) st
                   | Inl _ \<Rightarrow>
                       (case rq_GetRunJobByRequest queue (ae_op env 2) (qr_WorkflowID req) key (queueOf st) of
                          Inr existingJob \<Rightarrow> Answered (writeJSON 200 (JobBody existingJob)) st
                        | Inl _ \<Rightarrow> enqueueAsync req runID key queue env st))
          else enqueueAsync req
                 (deterministicRunID (qr_WorkflowID req) (''async-'' @ itoa (unixNano (ae_now env 0)))) key queue env st)"

definition postRun :: "('e, 's, 'q, 'c) handler" where
  "postRun s env r st =
     (case bd_run (ae_json env) (hr_Body r) of
        Inl err \<Rightarrow> Answered (writeValidationError 400 ''body'' err) st
      | Inr req \<Rightarrow>
          if qr_WorkflowID req = '''' then Answered (writeValidationError 400 ''workflowId'' ''workflowId is required'') st
          else case ws_GetWorkflow (sv_store s) (ae_op env 0) (qr_WorkflowID req) (storeOf st) of
                 Inl err \<Rightarrow> Answered (writeError 404 err) st
               | Inr w \<Rightarrow>
                   (let key = idempotencyKeyOf r
                    in if key \<noteq> '''' \<and> \<not> qr_Async req then postIdempotentRun key req w s env r st
                       else if qr_Async req then postAsyncRun key req s env r st
                       else runAnswer (ExecutorRun (sv_executor s) (ae_run env) w (storeOf st) (wd_metrics (as_world st))) st))"

definition handleRuns :: "('e, 's, 'q, 'c) handler" where
  "handleRuns s env r st =
     (if hr_Method r = ''GET'' then listRuns s env r st
      else if hr_Method r = ''POST'' then postRun s env r st
      else Answered methodNotAllowed st)"

section \<open>One run\<close>

text \<open>Cancel the jobs of a run one by one; those that cannot be cancelled are passed over. The calls for the job at
  position \<open>k\<close> are the calls \<open>2 * k\<close> and \<open>2 * k + 1\<close> of \<open>op\<close>.\<close>

fun cancelRunJobs ::
  "'q RunQueue \<Rightarrow> (nat \<Rightarrow> opEnv) \<Rightarrow> nat \<Rightarrow> string \<Rightarrow> string \<Rightarrow> RunQueueJob list \<Rightarrow> 'q \<Rightarrow> RunQueueJob list \<times> 'q" where
  "cancelRunJobs queue op k runID reason [] q = ([], q)"
| "cancelRunJobs queue op k runID reason (job # jobs) q =
     (if j_RunID job \<noteq> runID then cancelRunJobs queue op (Suc k) runID reason jobs q
      else case rq_CancelRunJob queue (op (2 * k)) (j_ID job) reason q of
             (Some err, q') \<Rightarrow> cancelRunJobs queue op (Suc k) runID reason jobs q'
           | (None, q') \<Rightarrow>
               (case cancelRunJobs queue op (Suc k) runID reason jobs q' of
                  (cancelled, q'') \<Rightarrow>
                    (case rq_GetRunJob queue (op (2 * k + 1)) (j_ID job) q' of
                       Inl err \<Rightarrow> (cancelled, q'')
                     | Inr updated \<Rightarrow> (updated # cancelled, q''))))"

definition cancelledRun :: "gotime \<Rightarrow> string \<Rightarrow> Run \<Rightarrow> Run" where
  "cancelledRun now reason run =
     run\<lparr>r_Status := RunStatusCancelled, r_Error := reason, r_FinishedAt := now,
         r_Duration := timeSub now (r_StartedAt run)\<rparr>"

definition deleteRun :: "string \<Rightarrow> ('e, 's, 'q, 'c) handler" where
  "deleteRun runID s env r st =
     (case sv_queue s of
        None \<Rightarrow> Answered noQueue st
      | Some queue \<Rightarrow>
          (let given = trimSpace (queryGet r ''reason'');
               reason = (if given = '''' then ''run cancelled'' else given)
           in case pagedLoop (\<lambda>k offset. rq_ListRunJobsByRun queue (ae_page env k) runID 500 offset (queueOf st)) 500 0 0 [] of
                None \<Rightarrow> NoAnswer
              | Some PagedPanic \<Rightarrow> Panicked st
              | Some (PagedError err) \<Rightarrow> Answered (writeError 500 err) st
              | Some (PagedItems jobs) \<Rightarrow>
                  (case cancelRunJobs queue (ae_item env) 0 runID reason jobs (queueOf st) of
                     (cancelled, q) \<Rightarrow>
                       (let st1 = setQueue q st
                        in if cancelled = []
                           then Answered (writeValidationError 409 ''runId'' ''no cancellable jobs found for run'') st1
                           else let st2 = (case ws_GetRun (sv_store s) (ae_op env 0) runID (storeOf st1) of
                                             Inl err \<Rightarrow> st1
                                           | Inr run \<Rightarrow>
                                               setStore (snd (ws_SaveRun (sv_store s) (ae_op env 1)
                                                 (cancelledRun (ae_now env 0) reason run) (storeOf st1))) st1)
                                in Answered (writeJSON 200 (RunCancelledBody runID cancelled)) st2))))"

definition handleRunByID :: "('e, 's, 'q, 'c) handler" where
  "handleRunByID s env r st =
     (if hr_Method r \<noteq> ''GET'' \<and> hr_Method r \<noteq> ''DELETE'' then Answered methodNotAllowed st
      else let runID = trimPrefix (hr_Path r) ''/runs/''
           in if runID = '''' then Answered (writeError 400 ''run id is required'') st
              else if hr_Method r = ''DELETE'' then deleteRun runID s env r st
              else case ws_GetRun (sv_store s) (ae_op env 0) runID (storeOf st) of
                     Inl err \<Rightarrow> Answered (writeError 404 err) st
                   | Inr run \<Rightarrow> Answered (writeJSON 200 (RunBody run)) st)"

end
