(* ===== verification/ApiJobs.thy ===== *)
theory ApiJobs
  imports Api
begin

text \<open>
  The handlers of queue jobs: listings, statistics, history, one job, and the bulk operations cancel, requeue and
  purge. Those of a listing differ in the filters they read; each is written out.
\<close>

section \<open>Listings\<close>

definition handleJobStats :: "('e, 's, 'q, 'c) handler" where
  "handleJobStats s env r st =
     (case sv_queue s of
        None \<Rightarrow> Answered noQueue st
      | Some queue \<Rightarrow>
          if hr_Method r \<noteq> ''GET'' then Answered methodNotAllowed st
          else case rq_CountRunJobsByStatus queue (ae_op env 0) (queueOf st) of
                 Inl err \<Rightarrow> Answered (writeError 500 err) st
               | Inr counts \<Rightarrow>
                   Answered (writeJSON 200 (JobStatsBody (sum_list (rangeValues (ae_statusOrd env) counts)) counts)) st)"

text \<open>The listing of jobs with its count, the common end of two handlers.\<close>

definition listJobs ::
  "'q RunQueue \<Rightarrow> string \<Rightarrow> string \<Rightarrow> string \<Rightarrow> gotime \<Rightarrow> gotime \<Rightarrow> ('e, 'c) apiEnv \<Rightarrow> httpRequest \<Rightarrow>
   ('e, 's, 'q, 'c) apiState \<Rightarrow> ('e, 's, 'q, 'c) apiState served" where
  "listJobs queue status workflowID requestID updatedAfter updatedBefore env r st =
     (let (limit, offset) = parseLimitOffset r
      in case rq_ListRunJobsFiltered queue (ae_op env 0) status workflowID requestID updatedAfter updatedBefore
                limit offset (queueOf st) of
           None \<Rightarrow> Panicked st
         | Some (Inl err) \<Rightarrow> Answered (writeError 500 err) st
         | Some (Inr jobs) \<Rightarrow>
             if useListEnvelope r
             then (case rq_CountRunJobsFiltered queue (ae_op env 1) status workflowID requestID updatedAfter updatedBefore
                          (queueOf st) of
                     Inl err \<Rightarrow> Answered (writeError 500 err) st
                   | Inr n \<Rightarrow> Answered (writeJSON 200 (JobsBody (writeListResponse r jobs (int n) limit offset))) st)
             else Answered (writeJSON 200 (JobsBody (PlainList jobs))) st)"

definition handleJobs :: "('e, 's, 'q, 'c) handler" where
  "handleJobs s env r st =
     (case sv_queue s of
        None \<Rightarrow> Answered noQueue st
      | Some queue \<Rightarrow>
          if hr_Method r \<noteq> ''GET'' then Answered methodNotAllowed st
          else let status = trimSpace (queryGet r ''status'')
               in if status \<noteq> '''' \<and> \<not> isValidRunJobStatus status
                  then Answered (writeValidationError 400 ''status'' ''invalid job status'') st
                  else let workflowID = trimSpace (queryGet r ''workflowId'');
                           requestID = trimSpace (queryGet r ''requestId'')
                       in case readWindow ''updatedAfter'' ''updatedBefore'' r of
                            Inl resp \<Rightarrow> Answered resp st
                          | Inr window \<Rightarrow>
                              if windowReversed window then Answered (reversedWindow ''updatedAfter'' ''updatedBefore'') st
                              else listJobs queue status workflowID requestID (fst (fst window)) (fst (snd window)) env r st)"

definition handleDeadLetterJobs :: "('e, 's, 'q, 'c) handler" where
  "handleDeadLetterJobs s env r st =
     (case sv_queue s of
        None \<Rightarrow> Answered noQueue st
      | Some queue \<Rightarrow>
          if hr_Method r \<noteq> ''GET'' then Answered methodNotAllowed st
          else case readWindow ''updatedAfter'' ''updatedBefore'' r of
                 Inl resp \<Rightarrow> Answered resp st
               | Inr window \<Rightarrow>
                   if windowReversed window then Answered (reversedWindow ''updatedAfter'' ''updatedBefore'') st
                   else listJobs queue (runJobStatusString RunJobStatusDead) '''' '''' (fst (fst window)) (fst (snd window))
                          env r st)"

definition handleJobHistoryByID :: "('e, 's, 'q, 'c) handler" where
  "handleJobHistoryByID s env r st =
     (case sv_queue s of
        None \<Rightarrow> Answered noQueue st
      | Some queue \<Rightarrow>
          if hr_Method r \<noteq> ''GET'' then Answered methodNotAllowed st
          else let jobID = trimSpace (trimPrefix (hr_Path r) ''/jobs/history/'');
                   toStatus = trimSpace (queryGet r ''toStatus'');
                   actor = trimSpace (queryGet r ''actor'')
               in if jobID = '''' then Answered (writeValidationError 400 ''jobId'' ''job id is required'') st
                  else if toStatus \<noteq> '''' \<and> \<not> isValidRunJobStatus toStatus
                  then Answered (writeValidationError 400 ''toStatus'' ''invalid job status'') st
                  else case readWindow ''createdAfter'' ''createdBefore'' r of
                         Inl resp \<Rightarrow> Answered resp st
                       | Inr window \<Rightarrow>
                           if windowReversed window then Answered (reversedWindow ''createdAfter'' ''createdBefore'') st
                           else let (limit, offset) = parseLimitOffset r;
                                    createdAfter = fst (fst window); createdBefore = fst (snd window)
                                in case rq_ListRunJobTransitionsFiltered queue (ae_op env 0) jobID (toUpper toStatus) actor
                                          createdAfter createdBefore limit offset (queueOf st) of
                                     None \<Rightarrow> Panicked st
                                   | Some (Inl err) \<Rightarrow> Answered (writeError 500 err) st
                                   | Some (Inr items) \<Rightarrow>
                                       if \<not> useListEnvelope r
                                       then Answered (writeJSON 200 (TransitionsBody (PlainList items))) st
                                       else case rq_CountRunJobTransitionsFiltered queue (ae_op env 1) jobID
                                                   (toUpper toStatus) actor createdAfter createdBefore (queueOf st) of
                                              Inl err \<Rightarrow> Answered (writeError 500 err) st
                                            | Inr n \<Rightarrow> Answered (writeJSON 200 (TransitionsBody
                                                (writeListResponse r items (int n) limit offset))) st)"

section \<open>One job\<close>

definition requeueable :: "RunQueueJob \<Rightarrow> bool" where
  "requeueable job \<longleftrightarrow> \<not> (j_Status job \<noteq> RunJobStatusDead \<and> j_Status job \<noteq> RunJobStatusFailed)"

text \<open>The optional delay of a requeue and of a purge; \<^const>\<open>None\<close> for an invalid duration.\<close>

definition optionalDuration :: "string \<Rightarrow> duration option" where
  "optionalDuration raw =
     (if trimSpace raw \<noteq> '''' then (case parseDuration raw of Inl err \<Rightarrow> None | Inr d \<Rightarrow> Some d) else Some 0)"

definition handleJobRequeueByID :: "('e, 's, 'q, 'c) handler" where
  "handleJobRequeueByID s env r st =
     (case sv_queue s of
        None \<Rightarrow> Answered noQueue st
      | Some queue \<Rightarrow>
          if hr_Method r \<noteq> ''POST'' then Answered methodNotAllowed st
          else let jobID = trimSpace (trimPrefix (hr_Path r) ''/jobs/requeue/'')
               in if jobID = '''' then Answered (writeError 400 ''job id is required'') st
                  else case bd_requeue (ae_json env) (hr_Body r) of
                         Inl err \<Rightarrow> Answered (writeValidationError 400 ''body'' err) st
                       | Inr req \<Rightarrow>
                           (case optionalDuration (qq_AvailableAfter req) of
                              None \<Rightarrow> Answered (writeValidationError 400 ''availableAfter'' ''invalid availableAfter duration'') st
                            | Some delay \<Rightarrow>
                                (case rq_GetRunJob queue (ae_op env 0) jobID (queueOf st) of
                                   Inl err \<Rightarrow> Answered (writeError 404 err) st
                                 | Inr job \<Rightarrow>
                                     if \<not> requeueable job
                                     then Answered (writeValidationError 409 ''status''
                                            ''only failed or dead-letter jobs can be requeued'') st
                                     else case rq_RequeueRunJob queue (ae_op env 1) jobID delay
                                                 (trimSpace (qq_ReplayedBy req)) (trimSpace (qq_ReplayReason req)) (queueOf st) of
                                            (Some err, q) \<Rightarrow> Answered (writeError 500 err) (setQueue q st)
                                          | (None, q) \<Rightarrow>
                                              (case rq_GetRunJob queue (ae_op env 2) jobID q of
                                                 Inl err \<Rightarrow> Answered (writeError 500 err) (setQueue q st)
                                               | Inr requeued \<Rightarrow>
                                                   Answered (writeJSON 200 (JobBody requeued)) (setQueue q st)))))"

definition handleJobByID :: "('e, 's, 'q, 'c) handler" where
  "handleJobByID s env r st =
     (case sv_queue s of
        None \<Rightarrow> Answered noQueue st
      | Some queue \<Rightarrow>
          if hasPrefix (hr_Path r) ''/jobs/requeue/'' then handleJobRequeueByID s env r st
          else if hr_Method r \<noteq> ''GET'' \<and> hr_Method r \<noteq> ''DELETE'' then Answered methodNotAllowed st
          else let jobID = trimSpace (trimPrefix (hr_Path r) ''/jobs/'')
               in if jobID = '''' then Answered (writeValidationError 400 ''jobId'' ''job id is required'') st
                  else if hr_Method r = ''DELETE'' then
                    (let reason = trimSpace (queryGet r ''reason'')
                     in case rq_CancelRunJob queue (ae_op env 0) jobID reason (queueOf st) of
                          (Some err, q) \<Rightarrow> Answered (writeValidationError 409 ''status'' err) (setQueue q st)
                        | (None, q) \<Rightarrow>
                            (let job = (case rq_GetRunJob queue (ae_op env 1) jobID q of
                                          Inl _ \<Rightarrow> zeroRunQueueJob | Inr job \<Rightarrow> job)
                             in Answered (writeJSON 200 (JobBody job)) (setQueue q st)))
                  else case rq_GetRunJob queue (ae_op env 0) jobID (queueOf st) of
                         Inl err \<Rightarrow> Answered (writeError 404 err) st
                       | Inr job \<Rightarrow> Answered (writeJSON 200 (JobBody job)) st)"

section \<open>Bulk operations\<close>

text \<open>The ids given in a body, trimmed, without the empty ones.\<close>

definition givenJobIDs :: "string list \<Rightarrow> string list" where
  "givenJobIDs ids = filter (\<lambda>i. i \<noteq> '''') (map trimSpace ids)"

text \<open>The loops over the job ids. The calls for the job at position \<open>k\<close> are the calls \<open>2 * k\<close> and \<open>2 * k + 1\<close> of \<open>op\<close> for a
  cancellation, and \<open>3 * k\<close> to \<open>3 * k + 2\<close> for a requeue.\<close>

definition cancelOne ::
  "'q RunQueue \<Rightarrow> (nat \<Rightarrow> opEnv) \<Rightarrow> nat \<Rightarrow> string \<Rightarrow> string \<Rightarrow> bulkState \<times> 'q \<Rightarrow> bulkState \<times> 'q" where
  "cancelOne queue op k reason jobID bq =
     (case bq of (b, q) \<Rightarrow>
       (case rq_CancelRunJob queue (op (2 * k)) jobID reason q of
          (Some err, q') \<Rightarrow> (bulkFail jobID err b, q')
        | (None, q') \<Rightarrow>
            (case rq_GetRunJob queue (op (2 * k + 1)) jobID q' of
               Inl err \<Rightarrow> (bulkFail jobID err b, q')
             | Inr job \<Rightarrow> (bulkDone job b, q'))))"

fun bulkCancelLoop ::
  "'q RunQueue \<Rightarrow> (nat \<Rightarrow> opEnv) \<Rightarrow> nat \<Rightarrow> string \<Rightarrow> string list \<Rightarrow> bulkState \<times> 'q \<Rightarrow> bulkState \<times> 'q" where
  "bulkCancelLoop queue op k reason [] bq = bq"
| "bulkCancelLoop queue op k reason (jobID # ids) bq =
     bulkCancelLoop queue op (Suc k) reason ids (cancelOne queue op k reason jobID bq)"

definition requeueOne ::
  "'q RunQueue \<Rightarrow> (nat \<Rightarrow> opEnv) \<Rightarrow> nat \<Rightarrow> duration \<Rightarrow> string \<Rightarrow> string \<Rightarrow> string \<Rightarrow> bulkState \<times> 'q \<Rightarrow> bulkState \<times> 'q" where
  "requeueOne queue op k delay replayedBy replayReason jobID bq =
     (case bq of (b, q) \<Rightarrow>
       (case rq_GetRunJob queue (op (3 * k)) jobID q of
          Inl err \<Rightarrow> (bulkFail jobID err b, q)
        | Inr job \<Rightarrow>
            if \<not> requeueable job then (bulkFail jobID ''only failed or dead-letter jobs can be requeued'' b, q)
            else case rq_RequeueRunJob queue (op (3 * k + 1)) jobID delay replayedBy replayReason q of
                   (Some err, q') \<Rightarrow> (bulkFail jobID err b, q')
                 | (None, q') \<Rightarrow>
                     (case rq_GetRunJob queue (op (3 * k + 2)) jobID q' of
                        Inl err \<Rightarrow> (bulkFail jobID err b, q')
                      | Inr updated \<Rightarrow> (bulkDone updated b, q'))))"

fun bulkRequeueLoop ::
  "'q RunQueue \<Rightarrow> (nat \<Rightarrow> opEnv) \<Rightarrow> nat \<Rightarrow> duration \<Rightarrow> string \<Rightarrow> string \<Rightarrow> string list \<Rightarrow> bulkState \<times> 'q \<Rightarrow> bulkState \<times> 'q" where
  "bulkRequeueLoop queue op k delay replayedBy replayReason [] bq = bq"
| "bulkRequeueLoop queue op k delay replayedBy replayReason (jobID # ids) bq =
     bulkRequeueLoop queue op (Suc k) delay replayedBy replayReason ids
       (requeueOne queue op k delay replayedBy replayReason jobID bq)"

text \<open>The jobs that a bulk operation without ids selects by a filter.\<close>

definition selectJobIDs ::
  "'q RunQueue \<Rightarrow> opEnv \<Rightarrow> string \<Rightarrow> string \<Rightarrow> string \<Rightarrow> int \<Rightarrow> 'q \<Rightarrow> (error + string list) option" where
  "selectJobIDs queue op status workflowID requestID limit q =
     map_option (map_sum id (map j_ID))
       (rq_ListRunJobsFiltered queue op status workflowID requestID 0 0 (if limit \<le> 0 then 100 else limit) 0 q)"

definition badJobStatus :: "string \<Rightarrow> bool" where
  "badJobStatus status \<longleftrightarrow> trimSpace status \<noteq> '''' \<and> \<not> isValidRunJobStatus status"

definition bulkCancelAnswer ::
  "'q RunQueue \<Rightarrow> string list \<Rightarrow> bulkCancelRequest \<Rightarrow> ('e, 'c) apiEnv \<Rightarrow> ('e, 's, 'q, 'c) apiState \<Rightarrow> ('e, 's, 'q, 'c) apiState served" where
  "bulkCancelAnswer queue jobIDs req env st =
     (case bulkCancelLoop queue (ae_item env) 0 (trimSpace (qc_Reason req)) jobIDs (bulkStart, queueOf st) of
        (b, q) \<Rightarrow> Answered (writeJSON 200 (BulkCancelBody (bk_done b) (bulkResultOf b))) (setQueue q st))"

definition handleJobsBulkCancel :: "('e, 's, 'q, 'c) handler" where
  "handleJobsBulkCancel s env r st =
     (case sv_queue s of
        None \<Rightarrow> Answered noQueue st
      | Some queue \<Rightarrow>
          if hr_Method r \<noteq> ''POST'' then Answered methodNotAllowed st
          else case bd_bulkCancel (ae_json env) (hr_Body r) of
                 Inl err \<Rightarrow> Answered (writeValidationError 400 ''body'' err) st
               | Inr req \<Rightarrow>
                   if badJobStatus (qc_Status req)
                   then Answered (writeValidationError 400 ''status'' ''invalid job status'') st
                   else if givenJobIDs (qc_JobIDs req) \<noteq> []
                   then bulkCancelAnswer queue (givenJobIDs (qc_JobIDs req)) req env st
                   else let status0 = trimSpace (qc_Status req);
                            status = (if status0 = '''' then runJobStatusString RunJobStatusQueued else status0)
                        in case selectJobIDs queue (ae_op env 0) status (trimSpace (qc_WorkflowID req))
                                  (trimSpace (qc_RequestID req)) (qc_Limit req) (queueOf st) of
                             None \<Rightarrow> Panicked st
                           | Some (Inl err) \<Rightarrow> Answered (writeError 500 err) st
                           | Some (Inr jobIDs) \<Rightarrow> bulkCancelAnswer queue jobIDs req env st)"

definition bulkRequeueAnswer ::
  "'q RunQueue \<Rightarrow> string list \<Rightarrow> duration \<Rightarrow> bulkRequeueRequest \<Rightarrow> ('e, 'c) apiEnv \<Rightarrow> ('e, 's, 'q, 'c) apiState \<Rightarrow>
   ('e, 's, 'q, 'c) apiState served" where
  "bulkRequeueAnswer queue jobIDs delay req env st =
     (case bulkRequeueLoop queue (ae_item env) 0 delay (trimSpace (qb_ReplayedBy req)) (trimSpace (qb_ReplayReason req))
             jobIDs (bulkStart, queueOf st) of
        (b, q) \<Rightarrow> Answered (writeJSON 200 (BulkRequeueBody (bk_done b) (bulkResultOf b))) (setQueue q st))"

definition handleJobsBulkRequeue :: "('e, 's, 'q, 'c) handler" where
  "handleJobsBulkRequeue s env r st =
     (case sv_queue s of
        None \<Rightarrow> Answered noQueue st
      | Some queue \<Rightarrow>
          if hr_Method r \<noteq> ''POST'' then Answered methodNotAllowed st
          else case bd_bulkRequeue (ae_json env) (hr_Body r) of
                 Inl err \<Rightarrow> Answered (writeValidationError 400 ''body'' err) st
               | Inr req \<Rightarrow>
                   if badJobStatus (qb_Status req)
                   then Answered (writeValidationError 400 ''status'' ''invalid job status'') st
                   else case optionalDuration (qb_AvailableAfter req) of
                          None \<Rightarrow> Answered (writeValidationError 400 ''availableAfter'' ''invalid availableAfter duration'') st
                        | Some delay \<Rightarrow>
                            if givenJobIDs (qb_JobIDs req) \<noteq> []
                            then bulkRequeueAnswer queue (givenJobIDs (qb_JobIDs req)) delay req env st
                            else let status0 = trimSpace (qb_Status req);
                                     status = (if status0 = '''' then runJobStatusString RunJobStatusDead else status0)
                                 in if status \<noteq> runJobStatusString RunJobStatusDead \<and>
                                       status \<noteq> runJobStatusString RunJobStatusFailed
                                    then Answered (writeValidationError 400 ''status''
                                           ''status must be DEAD_LETTER or FAILED'') st
                                    else case selectJobIDs queue (ae_op env 0) status '''' '''' (qb_Limit req) (queueOf st) of
                                           None \<Rightarrow> Panicked st
                                         | Some (Inl err) \<Rightarrow> Answered (writeError 500 err) st
                                         | Some (Inr jobIDs) \<Rightarrow> bulkRequeueAnswer queue jobIDs delay req env st)"

section \<open>Purge\<close>

definition purgeDryRun ::
  "'q RunQueue \<Rightarrow> purgeRequest \<Rightarrow> duration \<Rightarrow> ('e, 'c) apiEnv \<Rightarrow> ('e, 's, 'q, 'c) apiState \<Rightarrow> ('e, 's, 'q, 'c) apiState served" where
  "purgeDryRun queue req d env st =
     (let updatedBefore = (if d > 0 then ae_now env 0 - d else 0)
      in case rq_CountRunJobsFiltered queue (ae_op env 0) (trimSpace (qp_Status req)) '''' '''' 0 updatedBefore (queueOf st) of
           Inl err \<Rightarrow> Answered (writeError 500 err) st
         | Inr found \<Rightarrow>
             (let matched = (if qp_Limit req > 0 \<and> int found > qp_Limit req then qp_Limit req else int found);
                  resultCode = (if qp_Limit req > 0 \<and> matched \<ge> qp_Limit req
                                then ''PURGE_DRY_RUN_LIMIT_REACHED'' else ''BULK_OK'')
              in Answered (writeJSON 200 (PurgeBody \<lparr>pr_Deleted = 0, pr_ResultCode = resultCode,
                   pr_DryRun = Some True, pr_Matched = Some matched\<rparr>)) st))"

definition purgeNow ::
  "'q RunQueue \<Rightarrow> purgeRequest \<Rightarrow> duration \<Rightarrow> ('e, 'c) apiEnv \<Rightarrow> ('e, 's, 'q, 'c) apiState \<Rightarrow> ('e, 's, 'q, 'c) apiState served" where
  "purgeNow queue req d env st =
     (case rq_PurgeRunJobs queue (ae_op env 0) (trimSpace (qp_Status req)) d (qp_Limit req) (queueOf st) of
        (Inl err, q) \<Rightarrow> Answered (writeError 500 err) (setQueue q st)
      | (Inr deleted, q) \<Rightarrow>
          (let resultCode = (if qp_Limit req > 0 \<and> int deleted \<ge> qp_Limit req then ''PURGE_LIMIT_REACHED'' else ''BULK_OK'')
           in Answered (writeJSON 200 (PurgeBody \<lparr>pr_Deleted = int deleted, pr_ResultCode = resultCode,
                pr_DryRun = None, pr_Matched = None\<rparr>)) (setQueue q st)))"

definition handleJobsPurge :: "('e, 's, 'q, 'c) handler" where
  "handleJobsPurge s env r st =
     (case sv_queue s of
        None \<Rightarrow> Answered noQueue st
      | Some queue \<Rightarrow>
          if hr_Method r \<noteq> ''POST'' then Answered methodNotAllowed st
          else case bd_purge (ae_json env) (hr_Body r) of
                 Inl err \<Rightarrow> Answered (writeValidationError 400 ''body'' err) st
               | Inr req \<Rightarrow>
                   if badJobStatus (qp_Status req)
                   then Answered (writeValidationError 400 ''status'' ''invalid job status'') st
                   else let (queryDryRun, hasDryRun) = parseOptionalBool (queryGet r ''dryRun'');
                            dryRun = (if hasDryRun then queryDryRun else qp_DryRun req)
                        in case optionalDuration (qp_OlderThan req) of
                             None \<Rightarrow> Answered (writeValidationError 400 ''olderThan'' ''invalid olderThan duration'') st
                           | Some d \<Rightarrow> if dryRun then purgeDryRun queue req d env st else purgeNow queue req d env st)"

end
