(* ===== verification/Prometheus.thy ===== *)
theory Prometheus
  imports Telemetry GoTime
begin

text \<open>
  The text that \<^verbatim>\<open>Collector.Prometheus\<close> renders (\<^verbatim>\<open>internal/telemetry/collector.go\<close>), line by line. The collector keeps
  the durations added to the float \<^verbatim>\<open>runDurationS\<close>; here they are summed as the code does, with a rounding to
  \<^verbatim>\<open>float64\<close> after every operation, and printed with \<^verbatim>\<open>%f\<close>. The fact at the end: the text does not depend on the order
  in which the maps are ranged over.
\<close>

section \<open>Floats\<close>

text \<open>A signed \<^verbatim>\<open>float64\<close>: the sign belongs to the numerator.\<close>

type_synonym sfloat64 = "int \<times> nat"

definition roundS64 :: "int \<times> nat \<Rightarrow> sfloat64" where
  "roundS64 ab =
     (case roundF64 (nat \<bar>fst ab\<bar>, snd ab) of (n, d) \<Rightarrow> (if fst ab < 0 then - int n else int n, d))"

definition addS64 :: "sfloat64 \<Rightarrow> sfloat64 \<Rightarrow> sfloat64" where
  "addS64 x y = roundS64 (fst x * int (snd y) + fst y * int (snd x), snd x * snd y)"

text \<open>\<^verbatim>\<open>d.Seconds()\<close>: \<^verbatim>\<open>/\<close> and \<^verbatim>\<open>%\<close> truncate towards zero.\<close>

definition durationSeconds :: "duration \<Rightarrow> sfloat64" where
  "durationSeconds d =
     (let sec = sgn d * (\<bar>d\<bar> div second); nsec = sgn d * (\<bar>d\<bar> mod second)
      in addS64 (roundS64 (sec, 1)) (roundS64 (nsec, 1000000000)))"

definition sumDurations :: "duration list \<Rightarrow> sfloat64" where
  "sumDurations ds = foldl (\<lambda>x d. addS64 x (durationSeconds d)) (0, 1) ds"

text \<open>\<open>n\<close> digits of \<open>x\<close> with leading zeros.\<close>

fun padDigits :: "nat \<Rightarrow> nat \<Rightarrow> string" where
  "padDigits 0 x = []"
| "padDigits (Suc n) x = padDigits n (x div 10) @ [char_of (48 + x mod 10)]"

text \<open>\<^verbatim>\<open>%f\<close>: six decimals, correctly rounded.\<close>

definition formatF :: "sfloat64 \<Rightarrow> string" where
  "formatF x =
     (let u = roundHalfEven (nat \<bar>fst x\<bar> * 1000000) (snd x)
      in (if fst x < 0 then ''-'' else '''') @ natDigits (u div 1000000) @ ''.'' @ padDigits 6 (u mod 1000000))"

text \<open>\<^verbatim>\<open>%g\<close> of a bucket bound, which the collector keeps in nanoseconds: the shortest decimal form.\<close>

definition formatSecondsG :: "duration \<Rightarrow> string" where
  "formatSecondsG d =
     (let frac = rev (dropWhile (\<lambda>c. c = CHR ''0'') (rev (padDigits 9 (nat (d mod second)))))
      in itoa (d div second) @ (if frac = [] then [] else ''.'' @ frac))"

section \<open>Rendering\<close>

definition escapeChar :: "char \<Rightarrow> string" where
  "escapeChar c = (if c = CHR 0x5C then [CHR 0x5C, CHR 0x5C] else if c = CHR 0x22 then [CHR 0x5C, CHR 0x22] else [c])"

text \<open>The two replacements of \<^verbatim>\<open>escape\<close> act on different characters, so one pass does both.\<close>

definition escape :: "string \<Rightarrow> string" where
  "escape s = concat (map escapeChar s)"

definition utoa :: "uint64 \<Rightarrow> string" where
  "utoa w = natDigits (unat w)"

text \<open>A label with its value in double quotes.\<close>

definition label :: "string \<Rightarrow> string \<Rightarrow> string" where
  "label name val = name @ ''='' @ [CHR 0x22] @ val @ [CHR 0x22]"

definition counterLine :: "string \<Rightarrow> uint64 \<Rightarrow> string" where
  "counterLine name n = name @ '' '' @ utoa n"

definition runLines :: "Collector \<Rightarrow> string list" where
  "runLines c =
     [''# HELP orchestrator_runs_total Total workflow runs'',
      ''# TYPE orchestrator_runs_total counter'',
      counterLine ''orchestrator_runs_total'' (m_totalRuns c),
      counterLine ''orchestrator_runs_success_total'' (m_runsSuccess c),
      counterLine ''orchestrator_runs_failed_total'' (m_runsFailed c),
      counterLine ''orchestrator_runs_cancelled_total'' (m_runsCancelled c),
      ''# HELP orchestrator_tasks_total Total task executions'',
      ''# TYPE orchestrator_tasks_total counter'',
      counterLine ''orchestrator_tasks_total'' (m_totalTasks c),
      counterLine ''orchestrator_tasks_success_total'' (m_tasksSuccess c),
      counterLine ''orchestrator_tasks_failed_total'' (m_tasksFailed c),
      counterLine ''orchestrator_tasks_skipped_total'' (m_tasksSkipped c),
      ''# HELP orchestrator_compensation_total Compensation task outcomes'',
      ''# TYPE orchestrator_compensation_total counter'',
      counterLine ''orchestrator_compensation_success_total'' (m_compSuccess c),
      counterLine ''orchestrator_compensation_failed_total'' (m_compFailed c),
      counterLine ''orchestrator_compensation_skipped_total'' (m_compSkipped c)]"

definition durationLines :: "Collector \<Rightarrow> string list" where
  "durationLines c =
     [''# HELP orchestrator_run_duration_seconds Workflow run duration histogram'',
      ''# TYPE orchestrator_run_duration_seconds histogram''] @
     map (\<lambda>(upper, n). counterLine
            (''orchestrator_run_duration_seconds_bucket{'' @ label ''le'' (formatSecondsG upper) @ ''}'') n)
       (zip (m_buckets c) (m_bucketCounts c)) @
     [counterLine (''orchestrator_run_duration_seconds_bucket{'' @ label ''le'' ''+Inf'' @ ''}'') (m_runCount c),
      ''# HELP orchestrator_run_duration_seconds_sum Total run duration in seconds'',
      ''# TYPE orchestrator_run_duration_seconds_sum counter'',
      ''orchestrator_run_duration_seconds_sum '' @ formatF (sumDurations (m_runDurations c)),
      ''# HELP orchestrator_run_duration_seconds_count Number of completed runs'',
      ''# TYPE orchestrator_run_duration_seconds_count counter'',
      counterLine ''orchestrator_run_duration_seconds_count'' (m_runCount c)]"

text \<open>\<^verbatim>\<open>strings.SplitN(k, "|", 3)\<close>.\<close>

definition splitKey :: "string \<Rightarrow> string list" where
  "splitKey k =
     (case strSplit2 k (CHR ''|'') of [a, rest] \<Rightarrow> a # strSplit2 rest (CHR ''|'') | parts \<Rightarrow> parts)"

definition httpLine :: "string \<Rightarrow> uint64 \<Rightarrow> string option" where
  "httpLine k n =
     (case splitKey k of
        [method, route, status] \<Rightarrow>
          Some (counterLine (''orchestrator_http_requests_total{'' @ label ''method'' method @ '','' @
            label ''route'' (escape route) @ '','' @ label ''status'' status @ ''}'') n)
      | _ \<Rightarrow> None)"

definition httpLines :: "string list \<Rightarrow> Collector \<Rightarrow> string list" where
  "httpLines ord c =
     [''# HELP orchestrator_http_requests_total API request count'',
      ''# TYPE orchestrator_http_requests_total counter''] @
     List.map_filter (\<lambda>k. Option.bind (m_httpByKey c k) (httpLine k)) (sortSlice (<) ord)"

definition workerLines :: "Collector \<Rightarrow> string list" where
  "workerLines c =
     [''# HELP orchestrator_worker_leases_total Queue jobs leased by workers'',
      ''# TYPE orchestrator_worker_leases_total counter'',
      counterLine ''orchestrator_worker_leases_total'' (m_workerLeased c),
      ''# HELP orchestrator_worker_success_total Queue jobs completed successfully'',
      ''# TYPE orchestrator_worker_success_total counter'',
      counterLine ''orchestrator_worker_success_total'' (m_workerSuccess c),
      ''# HELP orchestrator_worker_retry_total Queue jobs retried by workers'',
      ''# TYPE orchestrator_worker_retry_total counter'',
      counterLine ''orchestrator_worker_retry_total'' (m_workerRetry c),
      ''# HELP orchestrator_worker_dead_letter_total Queue jobs moved to dead letter'',
      ''# TYPE orchestrator_worker_dead_letter_total counter'',
      counterLine ''orchestrator_worker_dead_letter_total'' (m_workerDead c),
      ''# HELP orchestrator_worker_failure_total Queue job processing failures'',
      ''# TYPE orchestrator_worker_failure_total counter'',
      counterLine ''orchestrator_worker_failure_total'' (m_workerFailed c)]"

definition depthLine :: "string \<Rightarrow> int \<Rightarrow> string" where
  "depthLine status n = ''orchestrator_queue_depth{'' @ label ''status'' (escape status) @ ''} '' @ itoa n"

definition depthLines :: "string list \<Rightarrow> Collector \<Rightarrow> string list" where
  "depthLines ord c =
     [''# HELP orchestrator_queue_depth Current queue depth by status'',
      ''# TYPE orchestrator_queue_depth gauge''] @
     List.map_filter (\<lambda>status. map_option (depthLine status) (m_queueDepth c status)) (sortSlice (<) ord)"

text \<open>\<open>httpOrd\<close> and \<open>depthOrd\<close> are the orders in which the two maps are ranged over.\<close>

definition Prometheus :: "string list \<Rightarrow> string list \<Rightarrow> Collector \<Rightarrow> string" where
  "Prometheus httpOrd depthOrd c =
     concat (map (\<lambda>line. line @ [CHR 0x0A])
       (runLines c @ durationLines c @ httpLines httpOrd c @ workerLines c @ depthLines depthOrd c))"

section \<open>Facts\<close>

interpretation string_less: strict_less_func "(<) :: string \<Rightarrow> string \<Rightarrow> bool" "\<lambda>s. s"
  by unfold_locales auto

lemma sort_iterates:
  assumes "iterates ord m" and "iterates ord' m"
  shows "sortSlice (<) ord = sortSlice (<) (ord' :: string list)"
proof -
  have "mset ord = mset ord'" using assms by (metis iterates_def set_eq_iff_mset_eq_distinct)
  moreover have "distinct (map (\<lambda>s. s) ord)" using assms(1) by (simp add: iterates_def)
  ultimately show ?thesis by (rule string_less.sortSlice_order_irrelevant)
qed

lemma Prometheus_order_irrelevant:
  assumes "iterates h (m_httpByKey c)" and "iterates h' (m_httpByKey c)"
    and "iterates d (m_queueDepth c)" and "iterates d' (m_queueDepth c)"
  shows "Prometheus h d c = Prometheus h' d' c"
  using sort_iterates[OF assms(1,2)] sort_iterates[OF assms(3,4)]
  by (simp add: Prometheus_def httpLines_def depthLines_def)

end
