(* ===== verification/ApiServer.thy ===== *)
theory ApiServer
  imports ApiWorkflows ApiJobs Prometheus
begin

text \<open>
  The server itself: the handlers of health, metrics and schedules, the middleware, the table of routes with the
  matching of \<^verbatim>\<open>http.ServeMux\<close>, and the retention loop. A request is served without steps of other parties between its
  calls.
\<close>

section \<open>Health and metrics\<close>

text \<open>\<^verbatim>\<open>int(time.Since(t).Seconds())\<close>.\<close>

definition wholeSeconds :: "duration \<Rightarrow> int" where
  "wholeSeconds d = (case durationSeconds d of (n, k) \<Rightarrow> sgn n * (\<bar>n\<bar> div int k))"

definition handleHealth :: "('e, 's, 'q, 'c) handler" where
  "handleHealth s env r st =
     (if hr_Method r \<noteq> ''GET'' then Answered methodNotAllowed st
      else Answered (writeJSON 200 (HealthBody
        \<lparr>he_uptimeSeconds = wholeSeconds (timeSub (ae_now env 0) (sv_startedAt s)),
         he_authEnabled = sv_authOn s, he_queueConfigured = (sv_queue s \<noteq> None),
         he_schedulerEnabled = (as_sched st \<noteq> None),
         he_retentionConfigured = (sv_queue s \<noteq> None \<and> sv_queueRetentionInterval s > 0)\<rparr>)) st)"

definition handleReady :: "('e, 's, 'q, 'c) handler" where
  "handleReady s env r st =
     (if hr_Method r \<noteq> ''GET'' then Answered methodNotAllowed st
      else case ws_ListWorkflows (sv_store s) (ae_op env 0) (storeOf st) of
             Inl err \<Rightarrow> Answered (writeJSON 503 (NotReadyBody err)) st
           | Inr _ \<Rightarrow>
               (case sv_queue s of
                  None \<Rightarrow> Answered (writeJSON 200 ReadyBody) st
                | Some queue \<Rightarrow>
                    (case rq_CountRunJobsByStatus queue (ae_op env 1) (queueOf st) of
                       Inl err \<Rightarrow> Answered (writeJSON 503 (NotReadyBody err)) st
                     | Inr _ \<Rightarrow> Answered (writeJSON 200 ReadyBody) st)))"

definition countBindings :: "RunJobStatus list \<Rightarrow> (RunJobStatus \<rightharpoonup> int) \<Rightarrow> (RunJobStatus \<times> int) list" where
  "countBindings ord counts = List.map_filter (\<lambda>status. map_option (Pair status) (counts status)) ord"

definition handleMetrics :: "('e, 's, 'q, 'c) handler" where
  "handleMetrics s env r st =
     (if hr_Method r \<noteq> ''GET'' then Answered methodNotAllowed st
      else case wd_metrics (as_world st) of
             None \<Rightarrow> Answered (writeJSON 200 (TextBody '''')) st
           | Some c0 \<Rightarrow>
               (let c = (case sv_queue s of
                           None \<Rightarrow> c0
                         | Some queue \<Rightarrow>
                             (case rq_CountRunJobsByStatus queue (ae_op env 0) (queueOf st) of
                                Inl err \<Rightarrow> c0
                              | Inr counts \<Rightarrow> SetQueueDepthByStatus (countBindings (ae_statusOrd env) counts) c0))
                in Answered (writeJSON 200 (TextBody (Prometheus (ae_httpOrd env) (ae_depthOrd env) c)))
                     (setMetrics (Some c) st)))"

section \<open>Schedules\<close>

definition listSchedules :: "('e, 's, 'q, 'c) scState \<Rightarrow> ('e, 's, 'q, 'c) handler" where
  "listSchedules sched s env r st =
     (let items = sortSlice scheduleLess (ListSchedules (ae_sched env) (fst sched))
      in if useListEnvelope r
         then (let (limit, offset) = parseLimitOffset r;
                   start = (if offset > int (length items) then int (length items) else offset);
                   end0 = wrap64 (start + limit);
                   end1 = (if end0 > int (length items) then int (length items) else end0)
               in case goSlice items start end1 of
                    None \<Rightarrow> Panicked st
                  | Some page \<Rightarrow>
                      Answered (writeJSON 200 (SchedulesBody
                        (writeListResponse r page (int (length items)) limit offset))) st)
         else Answered (writeJSON 200 (SchedulesBody (PlainList items))) st)"

definition handleSchedules :: "('e, 's, 'q, 'c) handler" where
  "handleSchedules s env r st =
     (case as_sched st of
        None \<Rightarrow> Answered noScheduler st
      | Some sched \<Rightarrow>
          if hr_Method r = ''GET'' then listSchedules sched s env r st
          else if hr_Method r \<noteq> ''POST'' then Answered methodNotAllowed st
          else case bd_schedule (ae_json env) (hr_Body r) of
                 Inl err \<Rightarrow> Answered (writeValidationError 400 ''body'' err) st
               | Inr req \<Rightarrow>
                   (case (if qs_Interval req \<noteq> '''' then parseDuration (qs_Interval req) else Inr 0) of
                      Inl err \<Rightarrow> Answered (writeValidationError 400 ''interval'' ''invalid interval duration'') st
                    | Inr d \<Rightarrow>
                        (let cfg = \<lparr>s_WorkflowID = qs_WorkflowID req, s_Interval = d, s_Cron = qs_Cron req,
                                    s_RunOnStartup = qs_RunOnStartup req, s_AllowOverlap = qs_AllowOverlap req\<rparr>
                         in case RegisterSchedule (ae_cron env) (ae_sched env) cfg sched of
                              (Some err, sched') \<Rightarrow> Answered (writeError 400 err) (setSched sched' st)
                            | (None, sched') \<Rightarrow> Answered (writeJSON 201 (ScheduleBody cfg)) (setSched sched' st))))"

definition handleScheduleByWorkflowID :: "('e, 's, 'q, 'c) handler" where
  "handleScheduleByWorkflowID s env r st =
     (case as_sched st of
        None \<Rightarrow> Answered noScheduler st
      | Some sched \<Rightarrow>
          if hr_Method r \<noteq> ''DELETE'' then Answered methodNotAllowed st
          else let workflowID = trimSpace (trimPrefix (hr_Path r) ''/schedules/'')
               in if workflowID = '''' then Answered (writeValidationError 400 ''workflowId'' ''workflow id is required'') st
                  else Answered (writeJSON 200 (ScheduleStatusBody ''unscheduled'' workflowID))
                         (setSched (Unregister (ae_cron env) (ae_sched env) workflowID sched) st))"

definition handleSchedulePauseByWorkflowID :: "('e, 's, 'q, 'c) handler" where
  "handleSchedulePauseByWorkflowID s env r st =
     (case as_sched st of
        None \<Rightarrow> Answered noScheduler st
      | Some sched \<Rightarrow>
          if hr_Method r \<noteq> ''POST'' then Answered methodNotAllowed st
          else let workflowID = trimSpace (trimPrefix (hr_Path r) ''/schedules/pause/'')
               in if workflowID = '''' then Answered (writeValidationError 400 ''workflowId'' ''workflow id is required'') st
                  else case Pause (ae_sched env) workflowID sched of
                         (Some err, sched') \<Rightarrow> Answered (writeError 404 err) (setSched sched' st)
                       | (None, sched') \<Rightarrow>
                           Answered (writeJSON 200 (ScheduleStatusBody ''paused'' workflowID)) (setSched sched' st))"

definition handleScheduleResumeByWorkflowID :: "('e, 's, 'q, 'c) handler" where
  "handleScheduleResumeByWorkflowID s env r st =
     (case as_sched st of
        None \<Rightarrow> Answered noScheduler st
      | Some sched \<Rightarrow>
          if hr_Method r \<noteq> ''POST'' then Answered methodNotAllowed st
          else let workflowID = trimSpace (trimPrefix (hr_Path r) ''/schedules/resume/'')
               in if workflowID = '''' then Answered (writeValidationError 400 ''workflowId'' ''workflow id is required'') st
                  else case Resume (ae_sched env) workflowID sched of
                         (Some err, sched') \<Rightarrow> Answered (writeError 404 err) (setSched sched' st)
                       | (None, sched') \<Rightarrow>
                           Answered (writeJSON 200 (ScheduleStatusBody ''resumed'' workflowID)) (setSched sched' st))"

section \<open>Middleware and routes\<close>

definition recordRequest :: "string \<Rightarrow> string \<Rightarrow> int \<Rightarrow> ('e, 's, 'q, 'c) apiState \<Rightarrow> ('e, 's, 'q, 'c) apiState" where
  "recordRequest method route status st =
     setMetrics (map_option (RecordHTTPRequest method route status) (wd_metrics (as_world st))) st"

definition withMiddleware :: "string \<Rightarrow> bool \<Rightarrow> ('e, 's, 'q, 'c) handler \<Rightarrow> ('e, 's, 'q, 'c) handler" where
  "withMiddleware route requireAuth next s env r st =
     (if requireAuth \<and> \<not> isAuthorized s r
      then Answered (writeError 401 ''unauthorized'') (recordRequest (hr_Method r) route 401 st)
      else case next s env r st of
             Answered resp st' \<Rightarrow> Answered resp (recordRequest (hr_Method r) route (hp_Status resp) st')
           | Panicked st' \<Rightarrow> Panicked st'
           | NoAnswer \<Rightarrow> NoAnswer)"

text \<open>The patterns registered by \<^verbatim>\<open>NewServer\<close>, with whether they need a token.\<close>

definition routes :: "(string \<times> bool \<times> ('e, 's, 'q, 'c) handler) list" where
  "routes =
     [(''/health'', False, handleHealth),
      (''/ready'', False, handleReady),
      (''/metrics'', False, handleMetrics),
      (''/workflows'', True, handleWorkflows),
      (''/workflows/'', True, handleWorkflowByID),
      (''/runs'', True, handleRuns),
      (''/runs/'', True, handleRunByID),
      (''/jobs'', True, handleJobs),
      (''/jobs/stats'', True, handleJobStats),
      (''/jobs/history/'', True, handleJobHistoryByID),
      (''/jobs/'', True, handleJobByID),
      (''/jobs/dead-letter'', True, handleDeadLetterJobs),
      (''/jobs/purge'', True, handleJobsPurge),
      (''/jobs/cancel'', True, handleJobsBulkCancel),
      (''/jobs/requeue'', True, handleJobsBulkRequeue),
      (''/jobs/requeue/'', True, handleJobRequeueByID),
      (''/schedules'', True, handleSchedules),
      (''/schedules/'', True, handleScheduleByWorkflowID),
      (''/schedules/pause/'', True, handleSchedulePauseByWorkflowID),
      (''/schedules/resume/'', True, handleScheduleResumeByWorkflowID)]"

text \<open>\<^verbatim>\<open>http.ServeMux\<close>: a pattern that ends in a slash matches every path below it, and the longest pattern that matches
  is taken. A path that is not clean, or that lacks the final slash of a pattern, is redirected.\<close>

definition patternMatches :: "string \<Rightarrow> string \<Rightarrow> bool" where
  "patternMatches path pat \<longleftrightarrow> pat = path \<or> suffix ''/'' pat \<and> prefix pat path"

definition longerPattern :: "string \<times> 'a \<Rightarrow> string \<times> 'a \<Rightarrow> bool" where
  "longerPattern a b \<longleftrightarrow> length (fst b) < length (fst a)"

definition muxMatch :: "(string \<times> 'a) list \<Rightarrow> string \<Rightarrow> (string \<times> 'a) option" where
  "muxMatch table path =
     (case sortSlice longerPattern (filter (\<lambda>e. patternMatches path (fst e)) table) of
        [] \<Rightarrow> None
      | e # _ \<Rightarrow> Some e)"

definition cleanURLPath :: "string \<Rightarrow> string" where
  "cleanURLPath path =
     (if path = '''' then ''/''
      else let p = (if hasPrefix path ''/'' then path else ''/'' @ path);
               np = pathClean p
           in if suffix ''/'' p \<and> np \<noteq> ''/'' then np @ ''/'' else np)"

definition ServeHTTP :: "('e, 's, 'q, 'c) handler" where
  "ServeHTTP s env r st =
     (let path = (if hr_Method r = ''CONNECT'' then hr_Path r else cleanURLPath (hr_Path r));
          table = routes :: (string \<times> bool \<times> ('e, 's, 'q, 'c) handler) list
      in if path \<notin> set (map fst table) \<and> \<not> suffix ''/'' path \<and> path @ ''/'' \<in> set (map fst table)
         then Answered (writeJSON 301 (RedirectBody (path @ ''/''))) st
         else if path \<noteq> hr_Path r then Answered (writeJSON 301 (RedirectBody path)) st
         else case muxMatch table path of
                None \<Rightarrow> Answered (writeJSON 404 (TextBody ''404 page not found'')) st
              | Some (route, requireAuth, next) \<Rightarrow> withMiddleware route requireAuth next s env r st)"

section \<open>The server\<close>

definition NewServer ::
  "gotime \<Rightarrow> string \<Rightarrow> string \<Rightarrow> 's WorkflowStore \<Rightarrow> 'q RunQueue option \<Rightarrow> ('e, 's) Executor \<Rightarrow> ('e, 's, 'q) Server" where
  "NewServer now addr authConfig store queue executor =
     (case parseAuthConfig authConfig of (readTokens, writeTokens) \<Rightarrow>
       \<lparr>sv_addr = (if addr = '''' then '':8080'' else addr), sv_store = store, sv_queue = queue, sv_executor = executor,
        sv_authRead = readTokens, sv_authWrite = writeTokens,
        sv_authOn = (readTokens \<noteq> {} \<or> writeTokens \<noteq> {}), sv_startedAt = now,
        sv_queueRetentionStatus = '''', sv_queueRetentionOlderThan = 0, sv_queueRetentionInterval = 0,
        sv_queueRetentionBatch = 0\<rparr>)"

definition SetQueueRetention ::
  "string \<Rightarrow> duration \<Rightarrow> duration \<Rightarrow> int \<Rightarrow> ('e, 's, 'q) Server \<Rightarrow> ('e, 's, 'q) Server" where
  "SetQueueRetention status olderThan interval batch s =
     s\<lparr>sv_queueRetentionStatus := trimSpace status, sv_queueRetentionOlderThan := olderThan,
       sv_queueRetentionInterval := interval, sv_queueRetentionBatch := batch\<rparr>"

text \<open>The retention loop, on what its \<^verbatim>\<open>select\<close> picks, with the steps of other parties in between. The flag tells whether
  it has ended.\<close>

datatype 'q retentionEvent = RetentionTick opEnv | RetentionDone | RetentionForeign "'q \<Rightarrow> 'q"

fun runQueueRetentionLoop :: "('e, 's, 'q) Server \<Rightarrow> 'q RunQueue \<Rightarrow> 'q retentionEvent list \<Rightarrow> 'q \<Rightarrow> bool \<times> 'q" where
  "runQueueRetentionLoop s queue [] q = (False, q)"
| "runQueueRetentionLoop s queue (RetentionDone # evs) q = (True, q)"
| "runQueueRetentionLoop s queue (RetentionForeign f # evs) q = runQueueRetentionLoop s queue evs (f q)"
| "runQueueRetentionLoop s queue (RetentionTick op # evs) q =
     runQueueRetentionLoop s queue evs
       (snd (rq_PurgeRunJobs queue op (sv_queueRetentionStatus s) (sv_queueRetentionOlderThan s)
          (sv_queueRetentionBatch s) q))"

text \<open>\<^verbatim>\<open>Start\<close>: whether the retention loop is started, and what it returns for what its \<^verbatim>\<open>select\<close> sees first: the end of the
  context, an error of \<^verbatim>\<open>ListenAndServe\<close>, or the channel closed after \<^verbatim>\<open>ErrServerClosed\<close>.\<close>

datatype startEvent = StartCtxDone | ListenFailed error | ListenClosed

fun ServerStart :: "('e, 's, 'q) Server \<Rightarrow> startEvent \<Rightarrow> bool \<times> error option" where
  "ServerStart s StartCtxDone = (sv_queue s \<noteq> None \<and> sv_queueRetentionInterval s > 0, None)"
| "ServerStart s (ListenFailed err) = (sv_queue s \<noteq> None \<and> sv_queueRetentionInterval s > 0, Some err)"
| "ServerStart s ListenClosed = (sv_queue s \<noteq> None \<and> sv_queueRetentionInterval s > 0, None)"

end
