(* ===== verification/Orchestrator.thy ===== *)
theory Orchestrator
  imports ApiServer SQLiteQueue
begin

text \<open>
  What \<^verbatim>\<open>main\<close> (\<^verbatim>\<open>cmd/orchestrator/main.go\<close>) does before its modes: the flags, the tokens from the flags and the environment, the
  address of the server, and the choice of the persistence. The modes are in \<open>Program\<close>.
\<close>

section \<open>Flags\<close>

record mainFlags =
  fl_mode :: string
  fl_workflowFile :: string
  fl_storeBackend :: string
  fl_dataDir :: string
  fl_sqlitePath :: string
  fl_apiAddr :: string
  fl_apiAutoPort :: bool
  fl_apiAutoPortMaxOffset :: int
  fl_apiToken :: string
  fl_apiReadToken :: string
  fl_apiWriteToken :: string
  fl_interval :: duration
  fl_cronExpr :: string
  fl_runOnStartup :: bool
  fl_allowOverlap :: bool
  fl_schedulerLockFile :: string
  fl_scheduleStoreFile :: string
  fl_workerID :: string
  fl_workerPoll :: duration
  fl_workerLease :: duration
  fl_workerDrainTimeout :: duration
  fl_queueRetentionEnabled :: bool
  fl_queueRetentionStatus :: string
  fl_queueRetentionOlderThan :: duration
  fl_queueRetentionInterval :: duration
  fl_queueRetentionBatch :: int
  fl_runFor :: duration

definition defaultFlags :: mainFlags where
  "defaultFlags =
     \<lparr>fl_mode = ''run'', fl_workflowFile = ''examples/sample_workflow.json'', fl_storeBackend = ''file'', fl_dataDir = ''data'',
      fl_sqlitePath = ''data/orchestrator.db'', fl_apiAddr = '':8080'', fl_apiAutoPort = False, fl_apiAutoPortMaxOffset = 20,
      fl_apiToken = '''', fl_apiReadToken = '''', fl_apiWriteToken = '''', fl_interval = 15 * second, fl_cronExpr = '''',
      fl_runOnStartup = True, fl_allowOverlap = False, fl_schedulerLockFile = '''', fl_scheduleStoreFile = '''',
      fl_workerID = '''', fl_workerPoll = 500 * millisecond, fl_workerLease = 30 * second, fl_workerDrainTimeout = 10 * second,
      fl_queueRetentionEnabled = False, fl_queueRetentionStatus = ''SUCCEEDED'',
      fl_queueRetentionOlderThan = 86400 * second, fl_queueRetentionInterval = 900 * second, fl_queueRetentionBatch = 1000,
      fl_runFor = 60 * second\<rparr>"

section \<open>Tokens\<close>

text \<open>A flag, or else the environment variable.\<close>

definition resolveToken :: "(string \<rightharpoonup> string) \<Rightarrow> string \<Rightarrow> string \<Rightarrow> string" where
  "resolveToken getenv name flagValue =
     (if flagValue = '''' then (case getenv name of None \<Rightarrow> '''' | Some v \<Rightarrow> v) else flagValue)"

definition tokenSegment :: "string \<Rightarrow> string \<Rightarrow> string list" where
  "tokenSegment scope token = (if trimSpace token \<noteq> '''' then [scope @ '':'' @ trimSpace token] else [])"

fun joinComma :: "string list \<Rightarrow> string" where
  "joinComma [] = ''''"
| "joinComma [x] = x"
| "joinComma (x # y # xs) = x @ '','' @ joinComma (y # xs)"

definition buildAuthConfig :: "string \<Rightarrow> string \<Rightarrow> string \<Rightarrow> string" where
  "buildAuthConfig adminToken readToken writeToken =
     (let segments = tokenSegment ''admin'' adminToken @ tokenSegment ''read'' readToken @ tokenSegment ''write'' writeToken
      in if segments = [] then '''' else joinComma segments)"

definition authConfigOf :: "(string \<rightharpoonup> string) \<Rightarrow> mainFlags \<Rightarrow> string" where
  "authConfigOf getenv fl =
     buildAuthConfig (resolveToken getenv ''ORCHESTRATOR_API_TOKEN'' (fl_apiToken fl))
       (resolveToken getenv ''ORCHESTRATOR_API_READ_TOKEN'' (fl_apiReadToken fl))
       (resolveToken getenv ''ORCHESTRATOR_API_WRITE_TOKEN'' (fl_apiWriteToken fl))"

section \<open>The address\<close>

definition lastIndex :: "char \<Rightarrow> string \<Rightarrow> nat option" where
  "lastIndex c s = map_option (\<lambda>k. length s - 1 - k) (strIndex (rev s) [c])"

text \<open>\<^verbatim>\<open>net.SplitHostPort\<close>; the code does not look at its error.\<close>

definition splitHostPort :: "string \<Rightarrow> (string \<times> string) option" where
  "splitHostPort hostport =
     (case lastIndex (CHR '':'') hostport of
        None \<Rightarrow> None
      | Some i \<Rightarrow>
          if hasPrefix hostport ''[''
          then (case strIndex hostport '']'' of
                  None \<Rightarrow> None
                | Some close \<Rightarrow>
                    if close + 1 = i \<and> CHR ''['' \<notin> set (drop 1 hostport) \<and> CHR '']'' \<notin> set (drop (close + 1) hostport)
                    then Some (take (close - 1) (drop 1 hostport), drop (i + 1) hostport) else None)
          else if CHR '':'' \<notin> set (take i hostport) \<and> CHR ''['' \<notin> set hostport \<and> CHR '']'' \<notin> set hostport
          then Some (take i hostport, drop (i + 1) hostport) else None)"

definition joinHostPort :: "string \<Rightarrow> string \<Rightarrow> string" where
  "joinHostPort host port = (if CHR '':'' \<in> set host then ''['' @ host @ '']:'' @ port else host @ '':'' @ port)"

definition candidateAddr :: "string \<Rightarrow> int \<Rightarrow> nat \<Rightarrow> string" where
  "candidateAddr host port step =
     (let candidatePort = wrap64 (port + int step)
      in if host = '''' then '':'' @ itoa candidatePort else joinHostPort host (itoa candidatePort))"

text \<open>The first candidate whose check succeeds; \<open>check n\<close> is the \<open>n\<close>-th call of the check.\<close>

fun probePorts :: "(nat \<Rightarrow> string \<Rightarrow> error option) \<Rightarrow> string \<Rightarrow> int \<Rightarrow> nat list \<Rightarrow> string option" where
  "probePorts check host port [] = None"
| "probePorts check host port (step # steps) =
     (if check step (candidateAddr host port step) = None then Some (candidateAddr host port step)
      else probePorts check host port steps)"

definition resolveAPIAddrWithCheck :: "string \<Rightarrow> bool \<Rightarrow> int \<Rightarrow> (nat \<Rightarrow> string \<Rightarrow> error option) \<Rightarrow> error + string" where
  "resolveAPIAddrWithCheck addr autoPort maxOffset check =
     (case check 0 addr of
        None \<Rightarrow> Inr addr
      | Some err \<Rightarrow>
          if \<not> autoPort then Inl err
          else case splitHostPort addr of
                 None \<Rightarrow> Inl err
               | Some (host, portStr) \<Rightarrow>
                   (case atoi portStr of
                      Inl _ \<Rightarrow> Inl err
                    | Inr port \<Rightarrow>
                        (let maxOffset = (if maxOffset \<le> 0 then 20 else maxOffset)
                         in case probePorts check host port [1..<Suc (nat maxOffset)] of
                              None \<Rightarrow> Inl err
                            | Some candidate \<Rightarrow> Inr candidate)))"

text \<open>\<^verbatim>\<open>net.Listen\<close> and closing the listener at once; the operating system's answers are given.\<close>

definition checkAPIAddrAvailable :: "(string \<Rightarrow> error option) \<Rightarrow> (string \<Rightarrow> error option) \<Rightarrow> string \<Rightarrow> error option" where
  "checkAPIAddrAvailable listen close addr = (case listen addr of Some err \<Rightarrow> Some err | None \<Rightarrow> close addr)"

definition resolveAPIAddr ::
  "(nat \<Rightarrow> string \<Rightarrow> error option) \<Rightarrow> (nat \<Rightarrow> string \<Rightarrow> error option) \<Rightarrow> string \<Rightarrow> bool \<Rightarrow> int \<Rightarrow> error + string" where
  "resolveAPIAddr listen close addr autoPort maxOffset =
     resolveAPIAddrWithCheck addr autoPort maxOffset (\<lambda>n. checkAPIAddrAvailable (listen n) (close n))"

definition apiServerStartError :: "string \<Rightarrow> error option \<Rightarrow> string" where
  "apiServerStartError addr err =
     (case err of
        None \<Rightarrow> ''api server error''
      | Some message \<Rightarrow>
          (let lower = toLower message
           in if strContains lower ''permission denied'' \<or> strContains lower ''access is denied''
              then ''api server error: '' @ message @ '' (insufficient permission to bind '' @ addr @
                   ''; choose a non-privileged port or run with appropriate privileges)''
              else if strContains lower ''bind'' \<or> strContains lower ''address already in use'' \<or>
                      strContains lower ''only one usage of each socket address''
              then ''api server error: '' @ message @ '' (address '' @ addr @
                   '' is already in use; choose a different -api-addr or stop the conflicting process)''
              else ''api server error: '' @ message))"

section \<open>Persistence\<close>

datatype backend = SQLiteBackend SQLiteStore | FileBackend FileStore MemoryRunQueue

definition buildPersistence ::
  "openEnv \<Rightarrow> SQLiteStore \<Rightarrow> persistedSnapshot codec \<Rightarrow> ioEnv \<Rightarrow> opEnv \<Rightarrow> fileSystem \<Rightarrow>
   string \<Rightarrow> string \<Rightarrow> string \<Rightarrow> error + backend" where
  "buildPersistence openEnv onDisk codec io e fs backend dataDir sqlitePath =
     (let b = toLower (trimSpace backend)
      in if b = ''sqlite''
         then (case NewSQLiteStore openEnv sqlitePath onDisk of Inl err \<Rightarrow> Inl err | Inr db \<Rightarrow> Inr (SQLiteBackend db))
         else if b = ''file'' \<or> b = ''''
         then (case NewFileStore codec io e dataDir fs of
                 Inl err \<Rightarrow> Inl err
               | Inr store \<Rightarrow> Inr (FileBackend store NewMemoryRunQueue))
         else Inl (''unsupported store backend: '' @ backend))"

end
