(* ===== verification/ApiInv.thy ===== *)
theory ApiInv
  imports Orchestrator
begin

text \<open>
  Facts about the handlers that the properties of the API rest on: which of them can change the store, the queue and
  the scheduler, the bounds of the paging parameters, and what the middleware and the routing add.
\<close>

named_theorems keeps "handlers that change nothing but the collector"

section \<open>Requests that only read\<close>

text \<open>The parts of the state a request must not change without the right to write.\<close>

definition unmodified :: "('e, 's, 'q, 'c) apiState \<Rightarrow> ('e, 's, 'q, 'c) apiState \<Rightarrow> bool" where
  "unmodified st st' \<longleftrightarrow> storeOf st' = storeOf st \<and> queueOf st' = queueOf st \<and> as_sched st' = as_sched st"

definition onlyReads :: "('e, 's, 'q, 'c) apiState \<Rightarrow> ('e, 's, 'q, 'c) apiState served \<Rightarrow> bool" where
  "onlyReads st res \<longleftrightarrow>
     (case res of Answered resp st' \<Rightarrow> unmodified st st' | Panicked st' \<Rightarrow> unmodified st st' | NoAnswer \<Rightarrow> True)"

lemma unmodified_refl [simp]: "unmodified st st"
  by (simp add: unmodified_def)

lemma unmodified_trans: "unmodified a b \<Longrightarrow> unmodified b c \<Longrightarrow> unmodified a c"
  by (simp add: unmodified_def)

lemma unmodified_setMetrics [simp]: "unmodified st (setMetrics m st)"
  by (simp add: unmodified_def setMetrics_def)

lemma onlyReads_simps [simp]:
  "onlyReads st (Answered resp st') = unmodified st st'"
  "onlyReads st (Panicked st') = unmodified st st'"
  "onlyReads st NoAnswer"
  by (simp_all add: onlyReads_def)

lemma read_method: "\<not> isWriteMethod m \<Longrightarrow> m \<noteq> ''POST'' \<and> m \<noteq> ''PUT'' \<and> m \<noteq> ''PATCH'' \<and> m \<noteq> ''DELETE''"
  by (auto simp: isWriteMethod_def)

lemma onlyReads_if: "(c \<Longrightarrow> onlyReads st a) \<Longrightarrow> (\<not> c \<Longrightarrow> onlyReads st b) \<Longrightarrow> onlyReads st (if c then a else b)"
  by simp

lemma onlyReads_option:
  "(x = None \<Longrightarrow> onlyReads st a) \<Longrightarrow> (\<And>y. x = Some y \<Longrightarrow> onlyReads st (f y)) \<Longrightarrow>
   onlyReads st (case x of None \<Rightarrow> a | Some y \<Rightarrow> f y)"
  by (cases x) auto

lemma onlyReads_sum:
  "(\<And>y. x = Inl y \<Longrightarrow> onlyReads st (f y)) \<Longrightarrow> (\<And>y. x = Inr y \<Longrightarrow> onlyReads st (g y)) \<Longrightarrow>
   onlyReads st (case x of Inl y \<Rightarrow> f y | Inr y \<Rightarrow> g y)"
  by (cases x) auto

lemmas onlyReads_intros = onlyReads_if onlyReads_option onlyReads_sum

lemma listWorkflows_reads [keeps]: "onlyReads st (listWorkflows s env r st)"
  by (auto simp: listWorkflows_def Let_def split: sum.splits option.splits prod.splits)

lemma handleWorkflows_reads [keeps]: "\<not> isWriteMethod (hr_Method r) \<Longrightarrow> onlyReads st (handleWorkflows s env r st)"
  using listWorkflows_reads by (auto simp: handleWorkflows_def dest: read_method)

lemma handleWorkflowByID_reads [keeps]:
  "\<not> isWriteMethod (hr_Method r) \<Longrightarrow> onlyReads st (handleWorkflowByID s env r st)"
  by (auto simp: handleWorkflowByID_def Let_def split: sum.splits dest: read_method)

lemma listRuns_reads [keeps]: "onlyReads st (listRuns s env r st)"
  by (auto simp: listRuns_def Let_def split: sum.splits option.splits prod.splits)

lemma handleRuns_reads [keeps]: "\<not> isWriteMethod (hr_Method r) \<Longrightarrow> onlyReads st (handleRuns s env r st)"
  using listRuns_reads by (auto simp: handleRuns_def dest: read_method)

lemma handleRunByID_reads [keeps]: "\<not> isWriteMethod (hr_Method r) \<Longrightarrow> onlyReads st (handleRunByID s env r st)"
  by (auto simp: handleRunByID_def Let_def split: sum.splits dest: read_method)

lemma handleJobStats_reads [keeps]: "onlyReads st (handleJobStats s env r st)"
  by (auto simp: handleJobStats_def split: sum.splits option.splits)

lemma listJobs_reads [keeps]: "onlyReads st (listJobs queue status w i a b env r st)"
  by (auto simp: listJobs_def Let_def split: sum.splits option.splits prod.splits)

lemma handleJobs_reads [keeps]: "onlyReads st (handleJobs s env r st)"
  using listJobs_reads by (auto simp: handleJobs_def Let_def split: sum.splits option.splits prod.splits)

lemma handleDeadLetterJobs_reads [keeps]: "onlyReads st (handleDeadLetterJobs s env r st)"
  using listJobs_reads by (auto simp: handleDeadLetterJobs_def Let_def split: sum.splits option.splits prod.splits)

lemma handleJobHistoryByID_reads [keeps]: "onlyReads st (handleJobHistoryByID s env r st)"
  by (auto simp: handleJobHistoryByID_def Let_def split: sum.splits option.splits prod.splits)

lemma handleJobRequeueByID_reads [keeps]:
  "\<not> isWriteMethod (hr_Method r) \<Longrightarrow> onlyReads st (handleJobRequeueByID s env r st)"
  by (auto simp: handleJobRequeueByID_def split: option.splits dest: read_method)

lemma handleJobByID_reads [keeps]: "\<not> isWriteMethod (hr_Method r) \<Longrightarrow> onlyReads st (handleJobByID s env r st)"
  using handleJobRequeueByID_reads[of r st s env]
  by (auto simp: handleJobByID_def Let_def split: option.splits sum.splits dest: read_method)

lemma bulk_handlers_read [keeps]:
  assumes "\<not> isWriteMethod (hr_Method r)"
  shows "onlyReads st (handleJobsBulkCancel s env r st)"
    and "onlyReads st (handleJobsBulkRequeue s env r st)"
    and "onlyReads st (handleJobsPurge s env r st)"
  using read_method[OF assms]
  by (auto simp: handleJobsBulkCancel_def handleJobsBulkRequeue_def handleJobsPurge_def split: option.splits)

lemma open_handlers_read [keeps]:
  "onlyReads st (handleHealth s env r st)"
  "onlyReads st (handleReady s env r st)"
  "onlyReads st (handleMetrics s env r st)"
  by (auto simp: handleHealth_def handleReady_def handleMetrics_def Let_def split: sum.splits option.splits)

lemma listSchedules_reads [keeps]: "onlyReads st (listSchedules sched s env r st)"
  by (auto simp: listSchedules_def Let_def split: option.splits prod.splits)

lemma schedule_handlers_read [keeps]:
  assumes "\<not> isWriteMethod (hr_Method r)"
  shows "onlyReads st (handleSchedules s env r st)"
    and "onlyReads st (handleScheduleByWorkflowID s env r st)"
    and "onlyReads st (handleSchedulePauseByWorkflowID s env r st)"
    and "onlyReads st (handleScheduleResumeByWorkflowID s env r st)"
  using read_method[OF assms] listSchedules_reads
  by (auto simp: handleSchedules_def handleScheduleByWorkflowID_def handleSchedulePauseByWorkflowID_def
      handleScheduleResumeByWorkflowID_def split: option.splits)


section \<open>Routing\<close>

lemma muxMatch_in: "muxMatch table path = Some e \<Longrightarrow> e \<in> set table \<and> patternMatches path (fst e)"
proof -
  assume "muxMatch table path = Some e"
  then obtain es where "sortSlice longerPattern (filter (\<lambda>e. patternMatches path (fst e)) table) = e # es"
    by (auto simp: muxMatch_def split: list.splits)
  then have "e \<in> set (filter (\<lambda>e. patternMatches path (fst e)) table)" by (metis list.set_intros(1) set_sortSlice)
  then show ?thesis by simp
qed

lemma routes_read:
  assumes "(route, auth, h) \<in> set routes" and "\<not> isWriteMethod (hr_Method r) \<or> \<not> auth"
  shows "onlyReads st (h s env r st)"
  using assms by (auto simp: routes_def keeps)

lemma middleware_cases:
  obtains (refused) "requireAuth" "\<not> isAuthorized s r"
      "withMiddleware route requireAuth h s env r st =
         Answered (writeError 401 ''unauthorized'') (recordRequest (hr_Method r) route 401 st)"
  | (answered) resp st' where "requireAuth \<longrightarrow> isAuthorized s r" "h s env r st = Answered resp st'"
      "withMiddleware route requireAuth h s env r st =
         Answered resp (recordRequest (hr_Method r) route (hp_Status resp) st')"
  | (panicked) st' where "requireAuth \<longrightarrow> isAuthorized s r" "h s env r st = Panicked st'"
      "withMiddleware route requireAuth h s env r st = Panicked st'"
  | (unanswered) "requireAuth \<longrightarrow> isAuthorized s r" "h s env r st = NoAnswer"
      "withMiddleware route requireAuth h s env r st = NoAnswer"
proof (cases "requireAuth \<and> \<not> isAuthorized s r")
  case True
  then show thesis using refused by (simp add: withMiddleware_def)
next
  case False
  then show thesis using answered panicked unanswered by (cases "h s env r st") (auto simp: withMiddleware_def)
qed

lemma unmodified_recordRequest [simp]: "unmodified st (recordRequest m route status st') = unmodified st st'"
  by (simp add: unmodified_def recordRequest_def setMetrics_def)

lemma middleware_reads:
  "(requireAuth \<longrightarrow> isAuthorized s r \<Longrightarrow> onlyReads st (h s env r st)) \<Longrightarrow>
   onlyReads st (withMiddleware route requireAuth h s env r st)"
  by (cases rule: middleware_cases[of requireAuth s r route h env st]) auto

text \<open>What becomes of a request: a redirection or the 404 of the mux, or a route of the table.\<close>

lemma ServeHTTP_cases:
  fixes st :: "('e, 's, 'q, 'c) apiState"
  obtains (mux) status body where "ServeHTTP s env r st = Answered (writeJSON status body) st"
      "status = 301 \<or> status = 404"
  | (route) route requireAuth h where
      "(route, requireAuth, h) \<in> set (routes :: (string \<times> bool \<times> ('e, 's, 'q, 'c) handler) list)"
      "muxMatch routes (hr_Path r) = Some (route, requireAuth, h)"
      "ServeHTTP s env r st = withMiddleware route requireAuth h s env r st"
proof -
  define path where "path = (if hr_Method r = ''CONNECT'' then hr_Path r else cleanURLPath (hr_Path r))"
  let ?table = "routes :: (string \<times> bool \<times> ('e, 's, 'q, 'c) handler) list"
  let ?slash = "path \<notin> set (map fst ?table) \<and> \<not> suffix ''/'' path \<and> path @ ''/'' \<in> set (map fst ?table)"
  have served: "ServeHTTP s env r st =
     (if ?slash then Answered (writeJSON 301 (RedirectBody (path @ ''/''))) st
      else if path \<noteq> hr_Path r then Answered (writeJSON 301 (RedirectBody path)) st
      else case muxMatch ?table path of
             None \<Rightarrow> Answered (writeJSON 404 (TextBody ''404 page not found'')) st
           | Some (route, requireAuth, h) \<Rightarrow> withMiddleware route requireAuth h s env r st)"
    unfolding ServeHTTP_def Let_def path_def by (rule refl)
  show thesis
  proof (cases "?slash \<or> path \<noteq> hr_Path r \<or> muxMatch ?table path = None")
    case True
    then show thesis using mux[of 301] mux[of 404] served by (auto split: if_splits)
  next
    case False
    then obtain rt au h where m: "muxMatch ?table path = Some (rt, au, h)" by (metis not_None_eq prod_cases3)
    with False have "ServeHTTP s env r st = withMiddleware rt au h s env r st" by (auto simp: served)
    with m False show thesis using route[of rt au h] muxMatch_in[OF m] by simp
  qed
qed


section \<open>Only valid workflows are stored\<close>

text \<open>A store whose saves, failed or not, touch nothing but what they save.\<close>

locale careful_store = workflow_store +
  assumes save_workflow_any: "ws_SaveWorkflow S e w s = (r, s') \<Longrightarrow>
      workflowOf s' = workflowOf s \<or> workflowOf s' = (workflowOf s)(w_ID w \<mapsto> w)"
    and save_run_any: "ws_SaveRun S e run s = (r, s') \<Longrightarrow> workflowOf s' = workflowOf s"
begin

lemma save_run_snd: "workflowOf (snd (ws_SaveRun S e run s)) = workflowOf s"
  using save_run_any by (metis prod.collapse)

lemma run_keeps_workflows:
  assumes "ex_store ex = Some S" and "runWithID ex env w fid rid s m = RunReturned run err s' m'"
  shows "workflowOf s' = workflowOf s"
proof (cases "ValidateWorkflow w")
  case None
  define s1 where "s1 = snd (ws_SaveRun S (re_firstSave env) (newRun env w fid rid) s)"
  have "\<exists>run0. saveFinal ex env run0 s1 m = RunReturned run err s' m'"
    using assms None by (auto simp: runWithID_def Let_def s1_def split: option.splits loopOutcome.splits)
  then obtain run0 where fin: "saveFinal ex env run0 s1 m = RunReturned run err s' m'" by blast
  obtain r x where save: "ws_SaveRun S (re_finalSave env) run0 s1 = (r, x)" by fastforce
  with fin assms(1) have "x = s'" by (cases r) (simp_all add: saveFinal_def)
  with save have "ws_SaveRun S (re_finalSave env) run0 s1 = (r, s')" by simp
  then have "workflowOf s' = workflowOf s1" by (rule save_run_any)
  then show ?thesis by (simp add: s1_def save_run_snd)
qed (use assms in \<open>simp add: runWithID_def\<close>)

end

definition workflowsValid :: "(string \<rightharpoonup> Workflow) \<Rightarrow> bool" where
  "workflowsValid ws \<longleftrightarrow> (\<forall>i w. ws i = Some w \<longrightarrow> w_ID w = i \<and> ValidateWorkflow w = None)"

definition storeHolds :: "('s \<Rightarrow> bool) \<Rightarrow> ('e, 's, 'q, 'c) apiState served \<Rightarrow> bool" where
  "storeHolds P res \<longleftrightarrow>
     (case res of Answered resp st' \<Rightarrow> P (storeOf st') | Panicked st' \<Rightarrow> P (storeOf st') | NoAnswer \<Rightarrow> True)"

lemma storeHolds_simps [simp]:
  "storeHolds P (Answered resp st') = P (storeOf st')"
  "storeHolds P (Panicked st') = P (storeOf st')"
  "storeHolds P NoAnswer"
  by (simp_all add: storeHolds_def)

lemma set_simps [simp]:
  "storeOf (setStore x st) = x" "queueOf (setStore x st) = queueOf st" "as_sched (setStore x st) = as_sched st"
  "storeOf (setQueue y st) = storeOf st" "queueOf (setQueue y st) = y" "as_sched (setQueue y st) = as_sched st"
  "storeOf (setMetrics m st) = storeOf st" "queueOf (setMetrics m st) = queueOf st" "as_sched (setMetrics m st) = as_sched st"
  "storeOf (setSched z st) = storeOf st" "queueOf (setSched z st) = queueOf st" "as_sched (setSched z st) = Some z"
  "wd_metrics (as_world (setStore x st)) = wd_metrics (as_world st)"
  "wd_metrics (as_world (setQueue y st)) = wd_metrics (as_world st)"
  "wd_metrics (as_world (setMetrics m st)) = m"
  by (simp_all add: setStore_def setQueue_def setMetrics_def setSched_def)

lemma recordRequest_simps [simp]:
  "storeOf (recordRequest m route status st) = storeOf st"
  "queueOf (recordRequest m route status st) = queueOf st"
  "as_sched (recordRequest m route status st) = as_sched st"
  by (simp_all add: recordRequest_def)

lemma onlyReads_storeHolds: "onlyReads st res \<Longrightarrow> P (storeOf st) \<Longrightarrow> storeHolds P res"
  by (cases res) (auto simp: unmodified_def)

lemma requeue_storeHolds: "P (storeOf st) \<Longrightarrow> storeHolds P (handleJobRequeueByID s env r st)"
  by (auto simp: handleJobRequeueByID_def Let_def split: option.splits sum.splits prod.splits)

text \<open>The handlers of jobs and schedules do not touch the store.\<close>

lemma job_handlers_storeHolds:
  assumes "P (storeOf st)"
  shows "storeHolds P (handleJobByID s env r st)" and "storeHolds P (handleJobRequeueByID s env r st)"
    and "storeHolds P (handleJobsBulkCancel s env r st)" and "storeHolds P (handleJobsBulkRequeue s env r st)"
    and "storeHolds P (handleJobsPurge s env r st)"
proof -
  show "storeHolds P (handleJobRequeueByID s env r st)" using assms by (rule requeue_storeHolds)
  then show "storeHolds P (handleJobByID s env r st)"
    using assms by (auto simp: handleJobByID_def Let_def split: option.splits sum.splits prod.splits)
  show "storeHolds P (handleJobsBulkCancel s env r st)"
    using assms by (auto simp: handleJobsBulkCancel_def bulkCancelAnswer_def Let_def split: option.splits sum.splits prod.splits)
  show "storeHolds P (handleJobsBulkRequeue s env r st)"
    using assms by (auto simp: handleJobsBulkRequeue_def bulkRequeueAnswer_def Let_def split: option.splits sum.splits prod.splits)
  show "storeHolds P (handleJobsPurge s env r st)"
    using assms by (auto simp: handleJobsPurge_def purgeNow_def purgeDryRun_def Let_def split: option.splits sum.splits prod.splits)
qed

lemma schedule_handlers_storeHolds:
  assumes "P (storeOf st)"
  shows "storeHolds P (handleSchedules s env r st)" and "storeHolds P (handleScheduleByWorkflowID s env r st)"
    and "storeHolds P (handleSchedulePauseByWorkflowID s env r st)"
    and "storeHolds P (handleScheduleResumeByWorkflowID s env r st)"
proof -
  have "storeHolds P (listSchedules sched s env r st)" for sched
    using listSchedules_reads assms by (rule onlyReads_storeHolds)
  then show "storeHolds P (handleSchedules s env r st)"
    using assms by (auto simp: handleSchedules_def Let_def split: option.splits sum.splits prod.splits)
  show "storeHolds P (handleScheduleByWorkflowID s env r st)"
    using assms by (auto simp: handleScheduleByWorkflowID_def Let_def split: option.splits)
  show "storeHolds P (handleSchedulePauseByWorkflowID s env r st)"
    using assms by (auto simp: handleSchedulePauseByWorkflowID_def Let_def split: option.splits prod.splits)
  show "storeHolds P (handleScheduleResumeByWorkflowID s env r st)"
    using assms by (auto simp: handleScheduleResumeByWorkflowID_def Let_def split: option.splits prod.splits)
qed

context careful_store
begin

abbreviation validIn :: "'a \<Rightarrow> bool" where
  "validIn s \<equiv> workflowsValid (workflowOf s)"

lemma storeWorkflow_valid:
  assumes "sv_store srv = S" and "validIn (storeOf st)"
  shows "storeHolds validIn (storeWorkflow status srv op w st)"
proof (cases "ValidateWorkflow w")
  case None
  have "validIn s'" if "ws_SaveWorkflow S op w (storeOf st) = (r, s')" for r s'
    using save_workflow_any[OF that] assms(2) None by (auto simp: workflowsValid_def split: if_splits)
  then show ?thesis using assms None by (auto simp: storeWorkflow_def split: prod.splits option.splits)
qed (use assms in \<open>simp add: storeWorkflow_def\<close>)

lemma runAnswer_valid:
  assumes "ex_store ex = Some S" and "validIn (storeOf st)"
  shows "storeHolds validIn (runAnswer (runWithID ex env w fid rid (storeOf st) m) st)"
proof (cases "runWithID ex env w fid rid (storeOf st) m")
  case (RunReturned run err s' m')
  then have "workflowOf s' = workflowOf (storeOf st)" by (rule run_keeps_workflows[OF assms(1)])
  with RunReturned assms(2) show ?thesis by (cases err) (simp_all add: runAnswer_def)
qed (simp_all add: runAnswer_def)

lemma workflow_handlers_valid:
  assumes "sv_store srv = S" and "validIn (storeOf st)"
  shows "storeHolds validIn (handleWorkflows srv env r st)" and "storeHolds validIn (handleWorkflowByID srv env r st)"
proof -
  note sw = storeWorkflow_valid[OF assms]
  have "storeHolds validIn (listWorkflows srv env r st)" using listWorkflows_reads assms(2) by (rule onlyReads_storeHolds)
  then show "storeHolds validIn (handleWorkflows srv env r st)"
    using assms sw by (auto simp: handleWorkflows_def split: sum.splits)
  show "storeHolds validIn (handleWorkflowByID srv env r st)"
    using assms sw by (auto simp: handleWorkflowByID_def putWorkflow_def patchWorkflow_def Let_def split: sum.splits)
qed

lemma run_handlers_valid:
  assumes "sv_store srv = S" and "ex_store (sv_executor srv) = Some S" and "validIn (storeOf st)"
  shows "storeHolds validIn (handleRuns srv env r st)" and "storeHolds validIn (handleRunByID srv env r st)"
proof -
  note ra = runAnswer_valid[OF assms(2,3)]
  have "storeHolds validIn (listRuns srv env r st)" using listRuns_reads assms(3) by (rule onlyReads_storeHolds)
  moreover have "storeHolds validIn (postAsyncRun key req srv env r st)" for key req
    using assms(3) by (auto simp: postAsyncRun_def enqueueAsync_def Let_def split: option.splits sum.splits prod.splits)
  moreover have "storeHolds validIn (postIdempotentRun key req w srv env r st)" for key req w
    using assms(3) ra by (auto simp: postIdempotentRun_def Let_def RunWithID_def split: sum.splits)
  ultimately show "storeHolds validIn (handleRuns srv env r st)"
    using assms(3) ra by (auto simp: handleRuns_def postRun_def Let_def ExecutorRun_def split: sum.splits)
  show "storeHolds validIn (handleRunByID srv env r st)"
    using assms by (auto simp: handleRunByID_def deleteRun_def Let_def save_run_snd
        split: option.splits sum.splits prod.splits paged.splits)
qed

text \<open>Whatever is asked of the server, every stored workflow stays valid and under its own id.\<close>

lemma serve_keeps_valid:
  assumes "sv_store srv = S" and "ex_store (sv_executor srv) = Some S" and "validIn (storeOf st)"
  shows "storeHolds validIn (ServeHTTP srv env r st)"
proof (cases rule: ServeHTTP_cases[of srv env r st])
  case (route rt au h)
  note reads = onlyReads_storeHolds[of st _ validIn, OF _ assms(3)]
  have "storeHolds validIn (h srv env r st)"
    using route(1) workflow_handlers_valid[OF assms(1,3)] run_handlers_valid[OF assms]
      job_handlers_storeHolds[of validIn st, OF assms(3)] schedule_handlers_storeHolds[of validIn st, OF assms(3)]
      open_handlers_read[THEN reads] handleJobs_reads[THEN reads] handleJobStats_reads[THEN reads]
      handleDeadLetterJobs_reads[THEN reads] handleJobHistoryByID_reads[THEN reads]
    by (auto simp: routes_def)
  then show ?thesis
    using route(3) by (cases rule: middleware_cases[of au srv r rt h env st]) (auto simp: assms(3))
qed (use assms in simp)

end

interpretation memc: careful_store memoryStore ms_workflows ms_runs
  by unfold_locales (auto simp: memoryStore_def SaveWorkflow_def SaveRun_def)

interpretation diskc: careful_store "fileStore codec ioOf" "\<lambda>sf. ms_workflows (fst_mem (fst sf))" "\<lambda>sf. ms_runs (fst_mem (fst sf))"
  for codec ioOf
  by unfold_locales
    (auto simp: fileStore_def fsSaveWorkflow_def fsSaveRun_def SaveWorkflow_def SaveRun_def dest: flush_mem split: prod.splits)


section \<open>Pages\<close>

text \<open>Fetching page after page collects the whole list, whatever the size of the pages; in particular the loop ends.\<close>

lemma pagedLoop_all:
  assumes fetch: "\<And>k off. 0 \<le> off \<Longrightarrow> fetch k off = Some (Inr (take (nat n) (drop (nat off) xs)))"
    and n: "0 < n" "int (length xs) + n \<le> maxInt64"
  shows "off \<le> length xs \<Longrightarrow> pagedLoop fetch n k (int off) acc = Some (PagedItems (acc @ drop off xs))"
proof (induction "length xs - off" arbitrary: off k acc rule: less_induct)
  case less
  let ?page = "take (nat n) (drop off xs)"
  have page: "fetch k (int off) = Some (Inr ?page)" using fetch[of "int off" k] by simp
  have len: "length ?page = min (length xs - off) (nat n)" by simp
  show ?case
  proof (cases "int (length ?page) < n")
    case True
    then have "?page = drop off xs" using len by simp
    then show ?thesis using page True by (subst pagedLoop.simps) auto
  next
    case False
    then have full: "length ?page = nat n" and le: "off + nat n \<le> length xs" using len n(1) by auto
    have ne: "?page \<noteq> []" using full n(1) by auto
    have wrap: "wrap64 (int off + int (length ?page)) = int (off + nat n)"
      using le n full by (subst wrap64_id) auto
    have "pagedLoop fetch n k (int off) acc =
        pagedLoop fetch n (Suc k) (wrap64 (int off + int (length ?page))) (acc @ ?page)"
      using page ne False by (subst pagedLoop.simps) simp
    also have "\<dots> = pagedLoop fetch n (Suc k) (int (off + nat n)) (acc @ ?page)" by (simp only: wrap)
    also have "\<dots> = Some (PagedItems ((acc @ ?page) @ drop (off + nat n) xs))"
      by (rule less.hyps) (use n le in auto)
    also have "(acc @ ?page) @ drop (off + nat n) xs = acc @ drop off xs"
      by (metis add.commute append.assoc append_take_drop_id drop_drop)
    finally show ?thesis .
  qed
qed


section \<open>Tokens\<close>

text \<open>The token a flag contributes to a scope.\<close>

definition tokenSet :: "string \<Rightarrow> string set" where
  "tokenSet token = (if trimSpace token = '''' then {} else {trimSpace token})"

lemma spaceRunes_chars: "r \<in> set spaceRunes \<Longrightarrow> CHR '':'' \<notin> set r \<and> hd r \<notin> {CHR ''a'', CHR ''r'', CHR ''w''} \<and> r \<noteq> []"
proof -
  have "list_all (\<lambda>r. CHR '':'' \<notin> set r \<and> hd r \<notin> {CHR ''a'', CHR ''r'', CHR ''w''} \<and> r \<noteq> []) spaceRunes" by code_simp
  then show "r \<in> set spaceRunes \<Longrightarrow> CHR '':'' \<notin> set r \<and> hd r \<notin> {CHR ''a'', CHR ''r'', CHR ''w''} \<and> r \<noteq> []"
    by (simp add: list_all_iff)
qed

lemma suffix_after_colon: "suffix r (a @ CHR '':'' # t) \<Longrightarrow> CHR '':'' \<notin> set r \<Longrightarrow> suffix r t"
proof -
  assume s: "suffix r (a @ CHR '':'' # t)" and c: "CHR '':'' \<notin> set r"
  show "suffix r t"
  proof (cases "length r \<le> length t")
    case True
    have "suffix t (a @ CHR '':'' # t)" by (simp add: suffix_def)
    from suffix_length_suffix[OF s this True] show ?thesis .
  next
    case False
    have "suffix (CHR '':'' # t) (a @ CHR '':'' # t)" by (simp add: suffix_def)
    from suffix_length_suffix[OF this s] False have "suffix (CHR '':'' # t) r" by simp
    with c show ?thesis by (metis list.set_intros(1) set_mono_suffix subsetD)
  qed
qed

text \<open>A text that starts with the scope and ends with a trimmed token is itself trimmed.\<close>

lemma trimSpace_config:
  assumes "c \<in> {CHR ''a'', CHR ''r'', CHR ''w''}"
  shows "trimSpace ((c # a) @ CHR '':'' # trimSpace t) = (c # a) @ CHR '':'' # trimSpace t"
proof (rule trimSpace_id)
  fix r assume r: "r \<in> set spaceRunes"
  have "\<not> suffix r (trimSpace t)" using r by (rule trimSpace_no_trailing)
  then have "\<not> suffix r ((c # a) @ CHR '':'' # trimSpace t)"
    using suffix_after_colon[of r "c # a" "trimSpace t"] spaceRunes_chars[OF r] by blast
  moreover have "\<not> prefix r ((c # a) @ CHR '':'' # trimSpace t)"
    using spaceRunes_chars[OF r] assms by (cases r) auto
  ultimately show "\<not> prefix r ((c # a) @ CHR '':'' # trimSpace t) \<and> \<not> suffix r ((c # a) @ CHR '':'' # trimSpace t)" by simp
qed

lemma strSplit_none: "c \<notin> set s \<Longrightarrow> strSplit s c = [s]"
  by (induction s) auto

lemma strSplit_append: "c \<notin> set s \<Longrightarrow> strSplit (s @ c # t) c = s # strSplit t c"
  by (induction s) auto

lemma strSplit_joinComma:
  "list_all (\<lambda>s. CHR '','' \<notin> set s) segs \<Longrightarrow> segs \<noteq> [] \<Longrightarrow> strSplit (joinComma segs) (CHR '','') = segs"
  by (induction segs rule: joinComma.induct) (simp_all add: strSplit_none strSplit_append)

lemma joinComma_last: "segs \<noteq> [] \<Longrightarrow> \<exists>a. joinComma segs = a @ last segs \<and> (a = [] \<and> segs = [last segs] \<or> prefix (hd segs) a)"
proof (induction segs rule: joinComma.induct)
  case (3 x y xs)
  then obtain a where "joinComma (y # xs) = a @ last (y # xs)" by auto
  then show ?case by (intro exI[of _ "x @ '','' @ a"]) auto
qed auto

text \<open>One scope with its token.\<close>

lemma authSegment_token:
  assumes "scope \<in> {''admin'', ''read'', ''write''}" and "trimSpace token \<noteq> ''''"
  shows "authSegment (scope @ '':'' @ trimSpace token) rw =
     (if scope = ''write'' then fst rw else insert (trimSpace token) (fst rw),
      if scope = ''read'' then snd rw else insert (trimSpace token) (snd rw))"
proof -
  obtain c a where sc: "scope = c # a" "c \<in> {CHR ''a'', CHR ''r'', CHR ''w''}" using assms(1) by auto
  have trim: "trimSpace (scope @ CHR '':'' # trimSpace token) = scope @ CHR '':'' # trimSpace token"
    using trimSpace_config[OF sc(2), of a token] sc(1) by simp
  have "CHR '':'' \<notin> set scope" using assms(1) by auto
  then have split: "strSplit2 (scope @ CHR '':'' # trimSpace token) (CHR '':'') = [scope, trimSpace token]"
    by (rule strSplit2_pair)
  have low: "toLower (trimSpace scope) = scope"
  proof -
    have "list_all (\<lambda>s. toLower (trimSpace s) = s) [''admin'', ''read'', ''write'']" by code_simp
    with assms(1) show ?thesis by auto
  qed
  show ?thesis using assms trim split low by (auto simp: authSegment_def Let_def)
qed

lemma fold_tokenSegment:
  assumes "scope \<in> {''admin'', ''read'', ''write''}"
  shows "fold authSegment (tokenSegment scope token) rw =
     (if scope = ''write'' then fst rw else tokenSet token \<union> fst rw, if scope = ''read'' then snd rw else tokenSet token \<union> snd rw)"
  by (cases "trimSpace token = ''''")
    (simp_all add: tokenSegment_def tokenSet_def authSegment_token[OF assms, simplified] prod_eq_iff)

text \<open>The configuration text of any segments is trimmed and has a colon.\<close>

lemma segment_form:
  "seg \<in> set (tokenSegment scope token) \<Longrightarrow> seg = scope @ '':'' @ trimSpace token"
  by (auto simp: tokenSegment_def split: if_splits)

lemma joined_config:
  assumes "segs \<noteq> []"
    and "\<And>seg. seg \<in> set segs \<Longrightarrow> \<exists>scope token. scope \<in> {''admin'', ''read'', ''write''} \<and> seg = scope @ '':'' @ trimSpace token"
  shows "trimSpace (joinComma segs) = joinComma segs" and "strContains (joinComma segs) '':''" and "joinComma segs \<noteq> ''''"
proof -
  obtain s1 t1 where l: "s1 \<in> {''admin'', ''read'', ''write''}" "last segs = s1 @ '':'' @ trimSpace t1"
    using assms last_in_set by blast
  obtain s2 t2 where h: "s2 \<in> {''admin'', ''read'', ''write''}" "hd segs = s2 @ '':'' @ trimSpace t2"
    using assms hd_in_set by blast
  obtain a where a: "joinComma segs = a @ last segs" "a = [] \<and> segs = [last segs] \<or> prefix (hd segs) a"
    using joinComma_last[OF assms(1)] by blast
  have "\<exists>c b. c \<in> {CHR ''a'', CHR ''r'', CHR ''w''} \<and> joinComma segs = (c # b) @ CHR '':'' # trimSpace t1"
  proof (cases "a = []")
    case True
    with a(1) l show ?thesis by auto
  next
    case False
    with a(2) have "prefix (hd segs) a" by blast
    then obtain z where z: "a = hd segs @ z" by (auto simp: prefix_def)
    obtain c b where cb: "s2 = c # b" "c \<in> {CHR ''a'', CHR ''r'', CHR ''w''}" using h(1) by auto
    have "joinComma segs = (c # (b @ '':'' @ trimSpace t2 @ z @ s1)) @ CHR '':'' # trimSpace t1"
      using a(1) l(2) h(2) z cb(1) by simp
    with cb(2) show ?thesis by blast
  qed
  then obtain c b where c: "c \<in> {CHR ''a'', CHR ''r'', CHR ''w''}" "joinComma segs = (c # b) @ CHR '':'' # trimSpace t1" by blast
  then show "trimSpace (joinComma segs) = joinComma segs" using trimSpace_config[OF c(1), of b t1] by simp
  show "joinComma segs \<noteq> ''''" using c(2) by simp
  have "joinComma segs = (c # b) @ '':'' @ trimSpace t1" using c(2) by simp
  then have "sublist '':'' (joinComma segs)" by (metis sublist_def)
  then show "strContains (joinComma segs) '':''" by (simp only: strContains_iff)
qed

lemma parse_buildAuthConfig:
  assumes "CHR '','' \<notin> set (trimSpace a)" and "CHR '','' \<notin> set (trimSpace r)" and "CHR '','' \<notin> set (trimSpace w)"
  shows "parseAuthConfig (buildAuthConfig a r w) = (tokenSet a \<union> tokenSet r, tokenSet a \<union> tokenSet w)"
proof -
  define segs where "segs = tokenSegment ''admin'' a @ tokenSegment ''read'' r @ tokenSegment ''write'' w"
  have folded: "fold authSegment segs ({}, {}) = (tokenSet a \<union> tokenSet r, tokenSet a \<union> tokenSet w)"
    by (simp add: segs_def fold_tokenSegment Un_commute)
  show ?thesis
  proof (cases "segs = []")
    case True
    have "parseAuthConfig '''' = ({}, {})" by (simp add: parseAuthConfig_def trimSpace_def spaceRunes_def stripRunes.simps)
    with True folded show ?thesis by (simp add: buildAuthConfig_def segs_def Let_def)
  next
    case False
    have form: "\<exists>scope token. scope \<in> {''admin'', ''read'', ''write''} \<and> seg = scope @ '':'' @ trimSpace token"
      if "seg \<in> set segs" for seg
      using that segment_form[of seg "''admin''" a] segment_form[of seg "''read''" r] segment_form[of seg "''write''" w]
      unfolding segs_def set_append by blast
    have "list_all (\<lambda>s. CHR '','' \<notin> set s) segs"
      using assms by (simp add: segs_def tokenSegment_def)
    then have "strSplit (joinComma segs) (CHR '','') = segs" using False by (rule strSplit_joinComma)
    moreover have "buildAuthConfig a r w = joinComma segs"
      using False by (simp add: buildAuthConfig_def segs_def[symmetric] Let_def)
    ultimately show ?thesis
      using folded joined_config[OF False form] by (simp add: parseAuthConfig_def)
  qed
qed


section \<open>The bounds of the paging parameters\<close>

lemma parseLimit_bounds: "1 \<le> parseLimit r \<and> parseLimit r \<le> 1000"
  by (auto simp: parseLimit_def Let_def split: sum.splits)

lemma parseOffset_bounds: "0 \<le> parseOffset r \<and> parseOffset r \<le> maxInt64"
proof -
  have "n \<le> maxInt64" if "atoi s = Inr n" for s n
    using that by (auto simp: atoi_def parseInt_def split: prod.splits sum.splits numError.splits if_splits)
  then show ?thesis by (auto simp: parseOffset_def Let_def split: sum.splits)
qed

text \<open>A number of items for which the ends of the pages do not leave the 64-bit range.\<close>

definition fits :: "nat \<Rightarrow> bool" where
  "fits n \<longleftrightarrow> int n + 1000 \<le> maxInt64"

lemma page_end:
  assumes "fits n" and "0 \<le> offset" and "offset < int n" and "0 < limit" and "limit \<le> 1000 \<or> offset = 0" and "limit \<le> maxInt64"
  shows "wrap64 (offset + limit) = offset + limit"
  using assms by (intro wrap64_id) (auto simp: fits_def)

lemma sliceWindow_total:
  assumes "fits (length items)" and "0 \<le> offset" and "limit \<le> 1000 \<or> offset = 0" and "limit \<le> maxInt64"
  shows "sliceWindow items limit offset \<noteq> None"
proof (cases "offset \<ge> int (length items)")
  case True
  then show ?thesis using assms(2) by (simp add: sliceWindow_def Let_def)
next
  case False
  define l where "l = (if limit \<le> 0 then 50 else limit)"
  have "wrap64 (offset + l) = offset + l"
    by (rule page_end[OF assms(1,2)]) (use False assms(3,4) in \<open>auto simp: l_def\<close>)
  moreover have "0 < l" by (simp add: l_def)
  ultimately show ?thesis using False assms(2) unfolding sliceWindow_def Let_def l_def[symmetric] by auto
qed

lemma paginate_total: "fits (length items) \<Longrightarrow> (paginate items r = None) = False"
proof -
  assume f: "fits (length items)"
  show ?thesis
  proof (cases "parseOffset r \<ge> int (length items)")
    case False
    then have "wrap64 (parseOffset r + parseLimit r) = parseOffset r + parseLimit r"
      using f parseLimit_bounds[of r] parseOffset_bounds[of r] by (intro page_end) auto
    with False show ?thesis using parseLimit_bounds[of r] parseOffset_bounds[of r]
      by (auto simp: paginate_def parseLimitOffset_def goSlice_def Let_def)
  qed (simp add: paginate_def parseLimitOffset_def)
qed

section \<open>Panics\<close>

definition neverPanics :: "('e, 's, 'q, 'c) apiState served \<Rightarrow> bool" where
  "neverPanics res \<longleftrightarrow> (case res of Panicked st' \<Rightarrow> False | _ \<Rightarrow> True)"

lemma neverPanics_simps [simp]:
  "neverPanics (Answered resp st')" "\<not> neverPanics (Panicked st')" "neverPanics NoAnswer"
  by (simp_all add: neverPanics_def)

lemma schedule_list_total: "fits (length (se_jobsOrd (ae_sched env))) \<Longrightarrow> neverPanics (listSchedules sched s env r st)"
proof -
  assume f: "fits (length (se_jobsOrd (ae_sched env)))"
  let ?items = "sortSlice scheduleLess (ListSchedules (ae_sched env) (fst sched))"
  have "length (rangeValues ord m) \<le> length ord" for ord :: "string list" and m :: "string \<rightharpoonup> ScheduleConfig"
    by (induction ord) (auto split: option.splits)
  then have len: "fits (length ?items)" using f by (auto simp: fits_def ListSchedules_def intro: order_trans[rotated])
  let ?start = "if parseOffset r > int (length ?items) then int (length ?items) else parseOffset r"
  have "wrap64 (?start + parseLimit r) = ?start + parseLimit r"
    using len parseLimit_bounds[of r] parseOffset_bounds[of r] by (intro wrap64_id) (auto simp: fits_def)
  then show ?thesis using parseLimit_bounds[of r] parseOffset_bounds[of r]
    by (auto simp: listSchedules_def parseLimitOffset_def goSlice_def Let_def split: option.splits)
qed

end
