(* ===== verification/ApiQueue.thy ===== *)
theory ApiQueue
  imports ApiInv QueueProperties
begin

text \<open>
  The API over the memory queue: every request acts on the queue by queue operations only, the bulk operations and
  the cancellation of a run settle exactly the jobs they name, and the page loops see every job.
\<close>

section \<open>Requests are sequences of queue operations\<close>

text \<open>The steps of a client of the queue: it puts jobs in, cancels, requeues and purges them, but it does not take them out to work
  on them, as a worker does.\<close>

inductive clientStep :: "MemoryRunQueue \<Rightarrow> MemoryRunQueue \<Rightarrow> bool" where
  enqueue: "freshJob job \<Longrightarrow> clientStep q (snd (EnqueueRunJob e job q))"
| cancel: "clientStep q (snd (CancelRunJob e i reason q))"
| requeue: "clientStep q (snd (RequeueRunJob e i d who why q))"
| purge: "clientStep q (snd (PurgeRunJobs e status olderThan limit q))"

lemma clientStep_mqstep: "clientStep q q' \<Longrightarrow> mqstep q q'"
  by (induction rule: clientStep.induct) (auto intro: mqstep.intros)

abbreviation qsteps :: "MemoryRunQueue \<Rightarrow> MemoryRunQueue \<Rightarrow> bool" where
  "qsteps q q' \<equiv> clientStep\<^sup>*\<^sup>* q q'"

lemma qsteps_mqsteps: "qsteps q q' \<Longrightarrow> mqstep\<^sup>*\<^sup>* q q'"
  by (erule rtranclp_mono[THEN predicate2D, rotated]) (blast intro: clientStep_mqstep)

definition queueHolds :: "('q \<Rightarrow> bool) \<Rightarrow> ('e, 's, 'q, 'c) apiState served \<Rightarrow> bool" where
  "queueHolds P res \<longleftrightarrow>
     (case res of Answered resp st' \<Rightarrow> P (queueOf st') | Panicked st' \<Rightarrow> P (queueOf st') | NoAnswer \<Rightarrow> True)"

lemma queueHolds_simps [simp]:
  "queueHolds P (Answered resp st') = P (queueOf st')"
  "queueHolds P (Panicked st') = P (queueOf st')"
  "queueHolds P NoAnswer"
  by (simp_all add: queueHolds_def)

lemma onlyReads_queueHolds: "onlyReads st res \<Longrightarrow> P (queueOf st) \<Longrightarrow> queueHolds P res"
  by (cases res) (auto simp: unmodified_def)

lemma qstep_cancel: "CancelRunJob e i reason q = (r, q') \<Longrightarrow> qsteps q q'"
  using clientStep.cancel[of q e i reason] by (metis r_into_rtranclp snd_conv)

lemma qstep_requeue: "RequeueRunJob e i d who why q = (r, q') \<Longrightarrow> qsteps q q'"
  using clientStep.requeue[of q e i d who why] by (metis r_into_rtranclp snd_conv)

lemma qstep_purge: "PurgeRunJobs e status d limit q = (r, q') \<Longrightarrow> qsteps q q'"
  using clientStep.purge[of q e status d limit] by (metis r_into_rtranclp snd_conv)

lemma qstep_enqueue: "freshJob job \<Longrightarrow> EnqueueRunJob e job q = (r, q') \<Longrightarrow> qsteps q q'"
  using clientStep.enqueue[of job q e] by (metis r_into_rtranclp snd_conv)

lemma asyncJob_fresh: "freshJob (asyncJob req runID key now)"
  by (simp add: freshJob_def asyncJob_def zeroRunQueueJob_def)

lemma cancelRunJobs_steps:
  "cancelRunJobs memoryQueue op k runID reason jobs q = (cs, q') \<Longrightarrow> qsteps q q'"
proof (induction jobs arbitrary: k q cs q')
  case (Cons job jobs)
  obtain r q1 where c: "CancelRunJob (op (2 * k)) (j_ID job) reason q = (r, q1)" by fastforce
  obtain cs1 q2 where rest: "cancelRunJobs memoryQueue op (Suc k) runID reason jobs q1 = (cs1, q2)" by fastforce
  have "qsteps q1 q2" by (rule Cons.IH[OF rest])
  with qstep_cancel[OF c] have "qsteps q q2" by (rule rtranclp_trans)
  then show ?case using Cons.prems Cons.IH[of "Suc k" q] c rest
    by (auto simp: memoryQueue_def split: if_splits option.splits sum.splits)
qed simp

lemma cancelOne_steps: "cancelOne memoryQueue op k reason i (b, q) = (b', q') \<Longrightarrow> qsteps q q'"
  by (auto simp: cancelOne_def memoryQueue_def split: prod.splits option.splits sum.splits dest: qstep_cancel)

lemma bulkCancel_steps: "bulkCancelLoop memoryQueue op k reason ids (b, q) = (b', q') \<Longrightarrow> qsteps q q'"
proof (induction ids arbitrary: k b q)
  case (Cons i ids)
  obtain b1 q1 where c: "cancelOne memoryQueue op k reason i (b, q) = (b1, q1)" by fastforce
  with Cons have "qsteps q1 q'" by simp
  with cancelOne_steps[OF c] show ?case by (rule rtranclp_trans)
qed simp

lemma requeueOne_steps: "requeueOne memoryQueue op k d who why i (b, q) = (b', q') \<Longrightarrow> qsteps q q'"
  by (auto simp: requeueOne_def memoryQueue_def split: prod.splits option.splits sum.splits if_splits dest: qstep_requeue)

lemma bulkRequeue_steps: "bulkRequeueLoop memoryQueue op k d who why ids (b, q) = (b', q') \<Longrightarrow> qsteps q q'"
proof (induction ids arbitrary: k b q)
  case (Cons i ids)
  obtain b1 q1 where c: "requeueOne memoryQueue op k d who why i (b, q) = (b1, q1)" by fastforce
  with Cons have "qsteps q1 q'" by simp
  with requeueOne_steps[OF c] show ?case by (rule rtranclp_trans)
qed simp

lemma requeueByID_steps:
  "sv_queue s = Some memoryQueue \<Longrightarrow> queueHolds (qsteps (queueOf st)) (handleJobRequeueByID s env r st)"
  by (auto simp: handleJobRequeueByID_def memoryQueue_def Let_def split: option.splits sum.splits prod.splits dest: qstep_requeue)

lemma jobByID_steps:
  "sv_queue s = Some memoryQueue \<Longrightarrow> queueHolds (qsteps (queueOf st)) (handleJobByID s env r st)"
  using requeueByID_steps[of s st env r]
  by (auto simp: handleJobByID_def memoryQueue_def Let_def split: option.splits sum.splits prod.splits dest: qstep_cancel)

lemma bulk_steps:
  assumes "sv_queue s = Some memoryQueue"
  shows "queueHolds (qsteps (queueOf st)) (handleJobsBulkCancel s env r st)"
    and "queueHolds (qsteps (queueOf st)) (handleJobsBulkRequeue s env r st)"
    and "queueHolds (qsteps (queueOf st)) (handleJobsPurge s env r st)"
proof -
  have "queueHolds (qsteps (queueOf st)) (bulkCancelAnswer memoryQueue ids req env st)" for ids req
    by (auto simp: bulkCancelAnswer_def split: prod.splits dest: bulkCancel_steps)
  then show "queueHolds (qsteps (queueOf st)) (handleJobsBulkCancel s env r st)"
    using assms by (auto simp: handleJobsBulkCancel_def Let_def split: option.splits sum.splits)
  have "queueHolds (qsteps (queueOf st)) (bulkRequeueAnswer memoryQueue ids d req env st)" for ids d req
    by (auto simp: bulkRequeueAnswer_def split: prod.splits dest: bulkRequeue_steps)
  then show "queueHolds (qsteps (queueOf st)) (handleJobsBulkRequeue s env r st)"
    using assms by (auto simp: handleJobsBulkRequeue_def Let_def split: option.splits sum.splits)
  have "queueHolds (qsteps (queueOf st)) (purgeNow memoryQueue req d env st)" for req d
    by (auto simp: purgeNow_def memoryQueue_def Let_def split: prod.splits sum.splits dest: qstep_purge)
  moreover have "queueHolds (qsteps (queueOf st)) (purgeDryRun memoryQueue req d env st)" for req d
    by (auto simp: purgeDryRun_def Let_def split: sum.splits)
  ultimately show "queueHolds (qsteps (queueOf st)) (handleJobsPurge s env r st)"
    using assms by (auto simp: handleJobsPurge_def Let_def split: option.splits sum.splits prod.splits)
qed

lemma runs_steps:
  assumes "sv_queue s = Some memoryQueue"
  shows "queueHolds (qsteps (queueOf st)) (handleRuns s env r st)"
    and "queueHolds (qsteps (queueOf st)) (handleRunByID s env r st)"
proof -
  have ra: "queueHolds (qsteps (queueOf st)) (runAnswer ret st)" for ret
    by (auto simp: runAnswer_def split: runReturn.splits option.splits)
  have "queueHolds (qsteps (queueOf st)) (enqueueAsync req runID key memoryQueue env st)" for req runID key
    by (auto simp: enqueueAsync_def memoryQueue_def Let_def split: prod.splits option.splits dest: qstep_enqueue[OF asyncJob_fresh])
  then have "queueHolds (qsteps (queueOf st)) (postAsyncRun key req s env r st)" for key req
    using assms by (auto simp: postAsyncRun_def Let_def split: sum.splits)
  moreover have "queueHolds (qsteps (queueOf st)) (postIdempotentRun key req w s env r st)" for key req w
    using ra by (auto simp: postIdempotentRun_def Let_def split: sum.splits)
  moreover have "queueHolds (qsteps (queueOf st)) (listRuns s env r st)"
    using listRuns_reads by (rule onlyReads_queueHolds) simp
  ultimately show "queueHolds (qsteps (queueOf st)) (handleRuns s env r st)"
    using ra by (auto simp: handleRuns_def postRun_def Let_def split: sum.splits)
  show "queueHolds (qsteps (queueOf st)) (handleRunByID s env r st)"
    using assms by (auto simp: handleRunByID_def deleteRun_def Let_def
        split: option.splits sum.splits prod.splits paged.splits dest: cancelRunJobs_steps)
qed

lemma other_steps:
  shows "queueHolds (qsteps (queueOf st)) (handleWorkflows s env r st)"
    and "queueHolds (qsteps (queueOf st)) (handleWorkflowByID s env r st)"
    and "queueHolds (qsteps (queueOf st)) (handleSchedules s env r st)"
    and "queueHolds (qsteps (queueOf st)) (handleScheduleByWorkflowID s env r st)"
    and "queueHolds (qsteps (queueOf st)) (handleSchedulePauseByWorkflowID s env r st)"
    and "queueHolds (qsteps (queueOf st)) (handleScheduleResumeByWorkflowID s env r st)"
proof -
  note reads = onlyReads_queueHolds[of st _ "qsteps (queueOf st)", OF _ rtranclp.rtrancl_refl]
  have sw: "queueHolds (qsteps (queueOf st)) (storeWorkflow status s op w st)" for status op w
    by (auto simp: storeWorkflow_def split: option.splits prod.splits)
  show "queueHolds (qsteps (queueOf st)) (handleWorkflows s env r st)"
    using sw listWorkflows_reads[THEN reads] by (auto simp: handleWorkflows_def split: sum.splits)
  show "queueHolds (qsteps (queueOf st)) (handleWorkflowByID s env r st)"
    using sw by (auto simp: handleWorkflowByID_def putWorkflow_def patchWorkflow_def Let_def split: sum.splits)
  show "queueHolds (qsteps (queueOf st)) (handleSchedules s env r st)"
    using listSchedules_reads[THEN reads]
    by (auto simp: handleSchedules_def Let_def split: option.splits sum.splits prod.splits)
qed (auto simp: handleScheduleByWorkflowID_def handleSchedulePauseByWorkflowID_def handleScheduleResumeByWorkflowID_def
    Let_def split: option.splits prod.splits)

lemma serve_steps:
  assumes "sv_queue s = Some memoryQueue"
  shows "queueHolds (qsteps (queueOf st)) (ServeHTTP s env r st)"
proof (cases rule: ServeHTTP_cases[of s env r st])
  case (route rt au h)
  note reads = onlyReads_queueHolds[of st _ "qsteps (queueOf st)", OF _ rtranclp.rtrancl_refl]
  have "queueHolds (qsteps (queueOf st)) (h s env r st)"
    using route(1) other_steps runs_steps[OF assms] bulk_steps[OF assms] jobByID_steps[OF assms] requeueByID_steps[OF assms]
      open_handlers_read[THEN reads] handleJobs_reads[THEN reads] handleJobStats_reads[THEN reads]
      handleDeadLetterJobs_reads[THEN reads] handleJobHistoryByID_reads[THEN reads]
    by (auto simp: routes_def)
  then show ?thesis
    using route(3) by (cases rule: middleware_cases[of au s r rt h env st]) auto
qed simp

section \<open>Cancelling jobs\<close>

text \<open>A job that a cancellation is accepted for; one already cancelled is left as it is.\<close>

definition cancellable :: "MemoryRunQueue \<Rightarrow> string \<Rightarrow> bool" where
  "cancellable q i \<longleftrightarrow> (\<exists>j. mq_jobs q i = Some j \<and> j_Status j \<noteq> RunJobStatusSucceeded)"

text \<open>What cancelling the jobs of a set does to the queue.\<close>

definition cancels :: "string set \<Rightarrow> MemoryRunQueue \<Rightarrow> MemoryRunQueue \<Rightarrow> bool" where
  "cancels A q q' \<longleftrightarrow>
     (\<forall>i. i \<notin> A \<or> \<not> cancellable q i \<longrightarrow> mq_jobs q' i = mq_jobs q i) \<and>
     (\<forall>i \<in> A. \<forall>j. mq_jobs q i = Some j \<and> j_Status j \<noteq> RunJobStatusSucceeded \<longrightarrow>
        (\<exists>j'. mq_jobs q' i = Some j' \<and> j_Status j' = RunJobStatusCancelled \<and> sameJob j j' \<and> j_Attempts j' = j_Attempts j))"

lemma cancels_empty [simp]: "cancels {} q q"
  by (simp add: cancels_def)

lemma cancels_cancellable:
  assumes "cancels A q q'"
  shows "cancellable q' i = cancellable q i"
proof (cases "i \<in> A \<and> cancellable q i")
  case True
  then obtain j where "i \<in> A" "mq_jobs q i = Some j" "j_Status j \<noteq> RunJobStatusSucceeded" by (auto simp: cancellable_def)
  with assms obtain j' where "mq_jobs q' i = Some j'" "j_Status j' = RunJobStatusCancelled" unfolding cancels_def by blast
  with True show ?thesis by (simp add: cancellable_def)
next
  case False
  then have "mq_jobs q' i = mq_jobs q i" using assms unfolding cancels_def by blast
  then show ?thesis by (simp add: cancellable_def)
qed

lemma cancels_trans:
  assumes "cancels A q q1" and "cancels B q1 q2"
  shows "cancels (A \<union> B) q q2"
proof -
  have same: "mq_jobs q2 i = mq_jobs q i" if "i \<notin> A \<union> B \<or> \<not> cancellable q i" for i
    using that assms cancels_cancellable[OF assms(1), of i] unfolding cancels_def by (metis Un_iff)
  have hit: "\<exists>j'. mq_jobs q2 i = Some j' \<and> j_Status j' = RunJobStatusCancelled \<and> sameJob j j' \<and> j_Attempts j' = j_Attempts j"
    if ij: "i \<in> A \<union> B" "mq_jobs q i = Some j" "j_Status j \<noteq> RunJobStatusSucceeded" for i j
  proof (cases "i \<in> A")
    case True
    with ij assms(1) obtain j1 where j1: "mq_jobs q1 i = Some j1" "j_Status j1 = RunJobStatusCancelled" "sameJob j j1"
      "j_Attempts j1 = j_Attempts j" unfolding cancels_def by blast
    show ?thesis
    proof (cases "i \<in> B")
      case True
      with j1 assms(2) obtain j2 where "mq_jobs q2 i = Some j2" "j_Status j2 = RunJobStatusCancelled" "sameJob j1 j2"
        "j_Attempts j2 = j_Attempts j1" unfolding cancels_def by (metis RunJobStatus.distinct)
      with j1 sameJob_trans show ?thesis by (metis)
    next
      case False
      with j1 assms(2) show ?thesis unfolding cancels_def by metis
    qed
  next
    case False
    then have "mq_jobs q1 i = Some j" using assms(1) ij(2) unfolding cancels_def by metis
    with False ij assms(2) show ?thesis unfolding cancels_def by blast
  qed
  show ?thesis unfolding cancels_def using same hit by blast
qed

lemma cancel_one:
  assumes "CancelRunJob e i reason q = (r, q')"
  shows "cancels {i} q q'" and "r = None \<longleftrightarrow> cancellable q i"
  using assms
  by (auto simp: CancelRunJob_def cancels_def cancellable_def Let_def qsimps sameJob_def split: option.splits if_splits)

text \<open>The loop of the bulk cancellation: the accepted ids are answered in their order, the others are the failures.\<close>

lemma map_fst_update: "set (map fst (AList.update k v al)) = insert k (set (map fst al))"
  by (simp add: dom_update)

lemma bulkFail_simps [simp]:
  "bk_done (bulkFail i err b) = bk_done b"
  "fst ` set (bk_failed (bulkFail i err b)) = insert i (fst ` set (bk_failed b))"
  using map_fst_update[of i err "bk_failed b"] by (simp_all add: bulkFail_def)

lemma bulkDone_simps [simp]: "bk_done (bulkDone j b) = bk_done b @ [j]" "bk_failed (bulkDone j b) = bk_failed b"
  by (simp_all add: bulkDone_def)

text \<open>What one pass of the loop contributes.\<close>

lemma cancelOne_exact:
  assumes "queue_inv q" and "cancelOne memoryQueue op k reason i (b, q) = (b1, q1)"
  shows "cancels {i} q q1" and "queue_inv q1"
    and "\<not> cancellable q i \<Longrightarrow> bk_done b1 = bk_done b \<and> fst ` set (bk_failed b1) = insert i (fst ` set (bk_failed b))"
    and "cancellable q i \<Longrightarrow> bk_failed b1 = bk_failed b \<and>
      (\<exists>j. bk_done b1 = bk_done b @ [j] \<and> j_ID j = i \<and> j_Status j = RunJobStatusCancelled)"
proof -
  obtain r x where c: "CancelRunJob (op (2 * k)) i reason q = (r, x)" by fastforce
  then have x: "x = q1" using assms(2)
    by (auto simp: cancelOne_def memoryQueue_def split: option.splits sum.splits)
  note one = cancel_one[OF c, unfolded x]
  show "cancels {i} q q1" by (rule one(1))
  show inv1: "queue_inv q1" using Cancel_inv[OF assms(1), of "op (2 * k)" i reason] c x by simp
  show "bk_done b1 = bk_done b \<and> fst ` set (bk_failed b1) = insert i (fst ` set (bk_failed b))"
    if nc: "\<not> cancellable q i"
  proof -
    obtain err where "r = Some err" using nc one(2) by (cases r) auto
    then have "b1 = bulkFail i err b" using c assms(2) by (simp add: cancelOne_def memoryQueue_def)
    then show ?thesis by simp
  qed
  show "bk_failed b1 = bk_failed b \<and> (\<exists>j. bk_done b1 = bk_done b @ [j] \<and> j_ID j = i \<and> j_Status j = RunJobStatusCancelled)"
    if ci: "cancellable q i"
  proof -
    obtain j where "mq_jobs q1 i = Some j" "j_Status j = RunJobStatusCancelled"
      using ci one(1) by (auto simp: cancellable_def cancels_def)
    moreover have "r = None" using ci one(2) by simp
    ultimately show ?thesis using c assms(2) queue_inv_ID[OF inv1] x
      by (auto simp: cancelOne_def memoryQueue_def GetRunJob_def)
  qed
qed

lemma bulkCancelLoop_exact:
  assumes "queue_inv q" and "bulkCancelLoop memoryQueue op k reason ids (b, q) = (b', q')"
  shows "cancels (set ids) q q' \<and>
     (\<exists>js. bk_done b' = bk_done b @ js \<and> map j_ID js = filter (cancellable q) ids \<and>
       (\<forall>j \<in> set js. j_Status j = RunJobStatusCancelled)) \<and>
     fst ` set (bk_failed b') = fst ` set (bk_failed b) \<union> {i \<in> set ids. \<not> cancellable q i}"
  using assms
proof (induction ids arbitrary: k b q)
  case (Cons i ids)
  obtain b1 q1 where one: "cancelOne memoryQueue op k reason i (b, q) = (b1, q1)" by fastforce
  note X = cancelOne_exact[OF Cons.prems(1) one]
  note same = cancels_cancellable[OF X(1)]
  have "bulkCancelLoop memoryQueue op (Suc k) reason ids (b1, q1) = (b', q')" using Cons.prems(2) one by simp
  from Cons.IH[OF X(2) this] obtain js where c: "cancels (set ids) q1 q'" and js: "bk_done b' = bk_done b1 @ js"
    "map j_ID js = filter (cancellable q) ids" "\<forall>j \<in> set js. j_Status j = RunJobStatusCancelled"
    and f: "fst ` set (bk_failed b') = fst ` set (bk_failed b1) \<union> {i \<in> set ids. \<not> cancellable q i}"
    using same by auto
  have "cancels (set (i # ids)) q q'" using cancels_trans[OF X(1) c] by simp
  moreover have "\<exists>js. bk_done b' = bk_done b @ js \<and> map j_ID js = filter (cancellable q) (i # ids) \<and>
       (\<forall>j \<in> set js. j_Status j = RunJobStatusCancelled)"
  proof (cases "cancellable q i")
    case True
    with X(4) obtain j where "bk_done b1 = bk_done b @ [j]" "j_ID j = i" "j_Status j = RunJobStatusCancelled" by blast
    with js True show ?thesis by (intro exI[of _ "j # js"]) simp
  next
    case False
    with X(3) js show ?thesis by (intro exI[of _ js]) simp
  qed
  moreover have "fst ` set (bk_failed b') = fst ` set (bk_failed b) \<union> {x \<in> set (i # ids). \<not> cancellable q x}"
    using f X(3,4) by (cases "cancellable q i") auto
  ultimately show ?case by blast
qed simp

text \<open>The loop of the cancellation of a run.\<close>

lemma cancelRunJobs_exact:
  assumes "queue_inv q" and "cancelRunJobs memoryQueue op k runID reason jobs q = (cs, q')"
    and "\<forall>j \<in> set jobs. j_RunID j = runID"
  shows "cancels (set (map j_ID jobs)) q q' \<and> map j_ID cs = filter (cancellable q) (map j_ID jobs) \<and>
     (\<forall>j \<in> set cs. j_Status j = RunJobStatusCancelled)"
  using assms
proof (induction jobs arbitrary: k q cs q')
  case (Cons job jobs)
  let ?i = "j_ID job"
  obtain r q1 where c: "CancelRunJob (op (2 * k)) ?i reason q = (r, q1)" by fastforce
  note one = cancel_one[OF c]
  note same = cancels_cancellable[OF one(1)]
  have inv1: "queue_inv q1" using Cancel_inv[OF Cons.prems(1), of "op (2 * k)" ?i reason] c by simp
  obtain cs1 q2 where rest: "cancelRunJobs memoryQueue op (Suc k) runID reason jobs q1 = (cs1, q2)" by fastforce
  from Cons.IH[OF inv1 rest] Cons.prems(3) have IH: "cancels (set (map j_ID jobs)) q1 q2"
    "map j_ID cs1 = filter (cancellable q) (map j_ID jobs)" "\<forall>j \<in> set cs1. j_Status j = RunJobStatusCancelled"
    using same by auto
  have all: "cancels (set (map j_ID (job # jobs))) q q2" using cancels_trans[OF one(1) IH(1)] by simp
  show ?case
  proof (cases "cancellable q ?i")
    case True
    then obtain j where j: "mq_jobs q1 ?i = Some j" "j_Status j = RunJobStatusCancelled"
      using one(1) by (auto simp: cancellable_def cancels_def)
    then have "cs = j # cs1 \<and> q' = q2" using Cons.prems(2,3) True one(2) c rest
      by (auto simp: memoryQueue_def GetRunJob_def)
    with all IH j True queue_inv_ID[OF inv1 j(1)] show ?thesis by simp
  next
    case False
    then have "cs = cs1 \<and> q' = q2" using Cons.prems(2,3) one(2) c rest
      by (auto simp: memoryQueue_def split: option.splits)
    with all IH False show ?thesis by simp
  qed
qed simp

section \<open>Page loops over the memory queue\<close>

text \<open>The jobs that satisfy \<open>P\<close>, by creation and id, for some order of ranging.\<close>

definition jobsWhere :: "string list \<Rightarrow> (RunQueueJob \<Rightarrow> bool) \<Rightarrow> MemoryRunQueue \<Rightarrow> RunQueueJob list" where
  "jobsWhere ord P q = sortSlice jobLess (filter P (rangeValues ord (mq_jobs q)))"

lemma set_jobsWhere:
  "queue_inv q \<Longrightarrow> iterates ord (mq_jobs q) \<Longrightarrow> set (jobsWhere ord P q) = {j. mq_jobs q (j_ID j) = Some j \<and> P j}"
  using rangeValues_jobs(1)[of q ord] queue_inv_ID[of q] by (auto simp: jobsWhere_def)

lemma length_jobsWhere:
  assumes "iterates ord (mq_jobs q)"
  shows "length (jobsWhere ord P q) \<le> card (dom (mq_jobs q))"
proof -
  have "length (jobsWhere ord P q) \<le> length (rangeValues ord (mq_jobs q))" by (simp add: jobsWhere_def)
  with length_rangeValues_iterates[OF assms] show ?thesis by simp
qed

text \<open>The loops list pages of 500 jobs, or of the given size; the queue must fit a 64-bit machine.\<close>

lemma memory_pages:
  assumes inv: "queue_inv q" and it: "\<And>k. iterates (oe_ord (op k)) (mq_jobs q)"
    and n: "0 < n" "int (card (dom (mq_jobs q))) + n \<le> maxInt64"
    and list: "\<And>k off. fetch k off = map_option Inr (sliceWindow (jobsWhere (oe_ord (op k)) P q) n off)"
  shows "pagedLoop fetch n 0 0 [] = Some (PagedItems (jobsWhere (oe_ord (op 0)) P q))"
proof -
  let ?L = "jobsWhere (oe_ord (op 0)) P q"
  have len: "int (length ?L) + n \<le> maxInt64" using length_jobsWhere[OF it, of 0 P] n(2) by linarith
  have "fetch k off = Some (Inr (take (nat n) (drop (nat off) ?L)))" if "0 \<le> off" for k off
  proof -
    have "jobsWhere (oe_ord (op k)) P q = ?L" unfolding jobsWhere_def by (rule listing_unique[OF inv it it])
    moreover have "sliceWindow ?L n off = Some (take (nat n) (drop (nat off) ?L))"
      using n(1) that len by (intro sliceWindow_exact) auto
    ultimately show ?thesis by (simp add: list)
  qed
  from pagedLoop_all[of fetch n ?L 0 0 "[]", OF this n(1) len] show ?thesis by simp
qed

lemma listAllRunJobsPaged_exact:
  assumes "queue_inv q" and "\<And>k. iterates (oe_ord (op k)) (mq_jobs q)"
    and "int (card (dom (mq_jobs q))) + (if pageSize \<le> 0 then 500 else pageSize) \<le> maxInt64"
  shows "listAllRunJobsPaged memoryQueue op status pageSize q =
     Some (PagedItems (jobsWhere (oe_ord (op 0)) (\<lambda>j. status = '''' \<or> runJobStatusString (j_Status j) = status) q))"
  unfolding listAllRunJobsPaged_def Let_def
  by (rule memory_pages[OF assms(1,2)]) (use assms(3) in \<open>auto simp: memoryQueue_def ListRunJobs_def jobsWhere_def\<close>)

text \<open>The jobs of a run.\<close>

definition jobsOfRun :: "string \<Rightarrow> MemoryRunQueue \<Rightarrow> string set" where
  "jobsOfRun runID q = {i. \<exists>j. mq_jobs q i = Some j \<and> j_RunID j = runID}"

lemma deleteRun_exact:
  assumes "sv_queue s = Some memoryQueue" and inv: "queue_inv (queueOf st)"
    and it: "\<And>k. iterates (oe_ord (ae_page env k)) (mq_jobs (queueOf st))"
    and size: "int (card (dom (mq_jobs (queueOf st)))) + 500 \<le> maxInt64"
  obtains resp st' where "deleteRun runID s env r st = Answered resp st'"
    and "cancels (jobsOfRun runID (queueOf st)) (queueOf st) (queueOf st')"
    and "hp_Status resp = (if \<exists>i \<in> jobsOfRun runID (queueOf st). cancellable (queueOf st) i then 200 else 409)"
    and "\<And>cs. hp_Body resp = RunCancelledBody runID cs \<Longrightarrow>
      set (map j_ID cs) = {i \<in> jobsOfRun runID (queueOf st). cancellable (queueOf st) i} \<and>
      (\<forall>j \<in> set cs. j_Status j = RunJobStatusCancelled)"
proof -
  let ?q = "queueOf st"
  define reason where
    "reason = (if trimSpace (queryGet r ''reason'') = '''' then ''run cancelled'' else trimSpace (queryGet r ''reason''))"
  note reasonEq = reason_def[symmetric]
  define L where "L = jobsWhere (oe_ord (ae_page env 0)) (\<lambda>j. j_RunID j = runID) ?q"
  have pages: "pagedLoop (\<lambda>k offset. rq_ListRunJobsByRun memoryQueue (ae_page env k) runID 500 offset ?q) 500 0 0 [] =
      Some (PagedItems L)"
    unfolding L_def by (rule memory_pages[OF inv it]) (use size in \<open>auto simp: memoryQueue_def ListRunJobsByRun_def jobsWhere_def\<close>)
  obtain cs q' where c: "cancelRunJobs memoryQueue (ae_item env) 0 runID reason L ?q = (cs, q')" by fastforce
  have setL: "set L = {j. mq_jobs ?q (j_ID j) = Some j \<and> j_RunID j = runID}" unfolding L_def by (rule set_jobsWhere[OF inv it])
  then have ids: "set (map j_ID L) = jobsOfRun runID ?q"
    using queue_inv_ID[OF inv] by (auto simp: jobsOfRun_def image_iff)
  note X = cancelRunJobs_exact[OF inv c, unfolded ids]
  have X: "cancels (jobsOfRun runID ?q) ?q q'" "map j_ID cs = filter (cancellable ?q) (map j_ID L)"
    "\<forall>j \<in> set cs. j_Status j = RunJobStatusCancelled" using X setL by auto
  have cids: "set (map j_ID cs) = {i \<in> jobsOfRun runID ?q. cancellable ?q i}" using X(2) ids by auto
  then have empty: "cs = [] \<longleftrightarrow> \<not> (\<exists>i \<in> jobsOfRun runID ?q. cancellable ?q i)"
    by (metis (mono_tags, lifting) Collect_empty_eq list.map_disc_iff set_empty)
  let ?st1 = "setQueue q' st"
  let ?st2 = "case ws_GetRun (sv_store s) (ae_op env 0) runID (storeOf ?st1) of
      Inl err \<Rightarrow> ?st1
    | Inr run \<Rightarrow> setStore (snd (ws_SaveRun (sv_store s) (ae_op env 1) (cancelledRun (ae_now env 0) reason run) (storeOf ?st1))) ?st1"
  have run: "deleteRun runID s env r st =
      (if cs = [] then Answered (writeValidationError 409 ''runId'' ''no cancellable jobs found for run'') ?st1
       else Answered (writeJSON 200 (RunCancelledBody runID cs)) ?st2)"
    by (simp only: deleteRun_def Let_def reasonEq assms(1) pages c option.case paged.case prod.case)
  have q2: "queueOf ?st2 = q'" by (simp split: sum.splits)
  show thesis
  proof (cases "cs = []")
    case True
    with run X(1) empty show thesis
      by (intro that[of "writeValidationError 409 ''runId'' ''no cancellable jobs found for run''" ?st1])
        (auto simp: writeValidationError_def writeJSON_def)
  next
    case False
    with run X(1,3) empty cids q2 show thesis
      by (intro that[of "writeJSON 200 (RunCancelledBody runID cs)" ?st2]) (auto simp: writeJSON_def)
  qed
qed

section \<open>Purging\<close>

text \<open>The dry run counts what a purge at the same instant would delete, up to the limit.\<close>

lemma purge_candidates_count:
  assumes "queue_inv q" and "iterates ord (mq_jobs q)"
  shows "length (purgeCandidates ord status cutoff q) = length (filter (purgeable status cutoff) (rangeValues ord (mq_jobs q)))"
proof -
  have "length (List.map_filter (\<lambda>i. case m i of None \<Rightarrow> None
          | Some job \<Rightarrow> if P job then Some \<lparr>pc_id = i, pc_updatedAt = j_UpdatedAt job\<rparr> else None) ord) =
      length (filter P (rangeValues ord m))" for P and m :: "string \<rightharpoonup> RunQueueJob"
    by (induction ord) (auto simp: List.map_filter_simps split: option.splits)
  then show ?thesis by (simp add: purgeCandidates_def)
qed

lemma purgeable_matches: "purgeable status cutoff = jobMatches status '''' '''' 0 cutoff"
  by (auto simp: purgeable_def jobMatches_def isZero_def fun_eq_iff)

lemma purge_deletes:
  assumes "queue_inv q" and "iterates (oe_ord e) (mq_jobs q)"
  shows "fst (PurgeRunJobs e status d limit q) =
     Inr (min (purgeLimit limit) (length (filter (jobMatches status '''' '''' 0 (purgeCutoff (oe_now e 0) d))
       (rangeValues (oe_ord e) (mq_jobs q)))))"
  using purge_candidates_count[OF assms] by (simp add: PurgeRunJobs_eq Let_def purgeVictims_def purgeable_matches min.commute)


section \<open>The server does not panic\<close>

text \<open>What a machine with 64-bit addresses guarantees of the sizes a request meets, and JSON of its numbers: the maps and
  histories have far less than $2^{63}$ entries, and a decoded \<^verbatim>\<open>int\<close> is one.\<close>

definition requestFits :: "('e, 'c) apiEnv \<Rightarrow> MemoryRunQueue \<Rightarrow> bool" where
  "requestFits env q \<longleftrightarrow>
     (\<forall>n. fits (length (oe_ord (ae_op env n)))) \<and> (\<forall>i. fits (length (transitionsOf q i))) \<and>
     fits (length (se_jobsOrd (ae_sched env))) \<and>
     int (card (dom (mq_jobs q))) + 500 \<le> maxInt64 \<and>
     (\<forall>body req. bd_bulkCancel (ae_json env) body = Inr req \<longrightarrow> qc_Limit req \<le> maxInt64) \<and>
     (\<forall>body req. bd_bulkRequeue (ae_json env) body = Inr req \<longrightarrow> qb_Limit req \<le> maxInt64)"

lemma length_rangeValues_le: "length (rangeValues ord m) \<le> length ord"
  by (induction ord) (auto split: option.splits)

lemma fits_le: "fits n \<Longrightarrow> m \<le> n \<Longrightarrow> fits m"
  by (simp add: fits_def)

lemma fits_filtered: "fits (length ord) \<Longrightarrow> fits (length (filter P (rangeValues ord m)))"
  by (rule fits_le) (auto intro: order_trans[OF length_filter_le length_rangeValues_le])

lemma window_total:
  assumes "fits (length (oe_ord e))" and "0 \<le> offset" and "limit \<le> 1000 \<or> offset = 0" and "limit \<le> maxInt64"
  shows "sliceWindow (sortSlice lt (filter P (rangeValues (oe_ord e) m))) limit offset \<noteq> None"
  by (rule sliceWindow_total[OF _ assms(2-4)]) (simp add: fits_filtered[OF assms(1)])

lemma listings_total:
  assumes "fits (length (oe_ord e))" and "0 \<le> offset" and "limit \<le> 1000 \<or> offset = 0" and "limit \<le> maxInt64"
  shows "(ListRunJobsFiltered e status w i a b limit offset q = None) = False"
    and "(ListRunsFiltered e w status i a b desc limit offset m = None) = False"
  unfolding ListRunJobsFiltered_def ListRunsFiltered_def Let_def
  by (simp_all add: window_total[OF assms] del: not_None_eq)

lemma page_bounds [simp]: "0 \<le> parseOffset r" "parseLimit r \<le> 1000" "parseLimit r \<le> maxInt64"
  using parseOffset_bounds[of r] parseLimit_bounds[of r] by simp_all

lemma listJobs_total:
  assumes "fits (length (oe_ord (ae_op env 0)))"
  shows "neverPanics (listJobs memoryQueue status w i a b env r st)"
  by (auto simp: listings_total(1)[OF assms] listJobs_def memoryQueue_def parseLimitOffset_def split: option.splits sum.splits)

lemma list_handlers_total:
  assumes "requestFits env (queueOf st)" and "sv_queue s = Some memoryQueue" and "sv_store s = fileStore codec ioOf"
  shows "neverPanics (handleJobs s env r st)" and "neverPanics (handleDeadLetterJobs s env r st)"
    and "neverPanics (handleJobHistoryByID s env r st)" and "neverPanics (handleWorkflows s env r st)"
    and "neverPanics (listRuns s env r st)"
proof -
  have f: "fits (length (oe_ord (ae_op env n)))" for n using assms(1) by (simp add: requestFits_def)
  note jobs = listJobs_total[OF f]
  show "neverPanics (handleJobs s env r st)" and "neverPanics (handleDeadLetterJobs s env r st)"
    using assms(2) jobs by (auto simp: handleJobs_def handleDeadLetterJobs_def Let_def split: sum.splits)
  have history: "(ListRunJobTransitionsFiltered e i to actor a b (parseLimit r) (parseOffset r) (queueOf st) = None) = False"
    for e i to actor a b
  proof -
    have "fits (length (transitionsOf (queueOf st) i))" using assms(1) by (simp add: requestFits_def)
    then have "fits (length (filter (transitionMatches to actor a b) (transitionsOf (queueOf st) i)))"
      by (rule fits_le) simp
    from sliceWindow_total[OF this, of "parseOffset r" "parseLimit r"] show ?thesis
      by (simp add: ListRunJobTransitionsFiltered_def)
  qed
  show "neverPanics (handleJobHistoryByID s env r st)"
    using assms(2) by (auto simp: history handleJobHistoryByID_def memoryQueue_def parseLimitOffset_def Let_def split: option.splits sum.splits)
  have "neverPanics (listWorkflows s env r st)"
  proof -
    have "fits (length (rangeValues (oe_ord (ae_op env 0)) m))" for m :: "string \<rightharpoonup> Workflow"
      by (rule fits_le[OF f[of 0]]) (rule length_rangeValues_le)
    then show ?thesis using assms(3)
      by (auto simp: paginate_total listWorkflows_def fileStore_def ListWorkflows_def Let_def parseLimitOffset_def split: option.splits)
  qed
  moreover have "neverPanics (storeWorkflow status s op w st)" for status op w
    by (auto simp: storeWorkflow_def split: option.splits prod.splits)
  ultimately show "neverPanics (handleWorkflows s env r st)" by (auto simp: handleWorkflows_def split: sum.splits)
  show "neverPanics (listRuns s env r st)"
    using assms(3) by (auto simp: listings_total(2)[OF f[of 0]] listRuns_def fileStore_def parseLimitOffset_def Let_def split: option.splits sum.splits)
qed

lemma select_total:
  assumes "fits (length (oe_ord e))" and "limit \<le> maxInt64"
  shows "(selectJobIDs memoryQueue e status w i limit q = None) = False"
  using listings_total(1)[OF assms(1), of 0 "if limit \<le> 0 then 100 else limit" status w i 0 0 q] assms(2)
  by (simp add: selectJobIDs_def memoryQueue_def)

lemma bulk_handlers_total:
  assumes "requestFits env (queueOf st)" and "sv_queue s = Some memoryQueue"
  shows "neverPanics (handleJobsBulkCancel s env r st)" and "neverPanics (handleJobsBulkRequeue s env r st)"
    and "neverPanics (handleJobsPurge s env r st)"
proof -
  have f: "fits (length (oe_ord (ae_op env 0)))" using assms(1) by (simp add: requestFits_def)
  have "neverPanics (bulkCancelAnswer queue ids req env st)" for queue ids req
    by (simp add: bulkCancelAnswer_def split: prod.splits)
  moreover have "qc_Limit req \<le> maxInt64" if "bd_bulkCancel (ae_json env) (hr_Body r) = Inr req" for req
    using assms(1) that unfolding requestFits_def by blast
  ultimately show "neverPanics (handleJobsBulkCancel s env r st)"
    using assms(2) by (auto simp: select_total[OF f] handleJobsBulkCancel_def Let_def split: option.splits sum.splits)
  have "neverPanics (bulkRequeueAnswer queue ids d req env st)" for queue ids d req
    by (simp add: bulkRequeueAnswer_def split: prod.splits)
  moreover have "qb_Limit req \<le> maxInt64" if "bd_bulkRequeue (ae_json env) (hr_Body r) = Inr req" for req
    using assms(1) that unfolding requestFits_def by blast
  ultimately show "neverPanics (handleJobsBulkRequeue s env r st)"
    using assms(2) by (auto simp: select_total[OF f] handleJobsBulkRequeue_def Let_def split: option.splits sum.splits)
  show "neverPanics (handleJobsPurge s env r st)"
    by (auto simp: handleJobsPurge_def purgeDryRun_def purgeNow_def Let_def split: option.splits sum.splits prod.splits)
qed

lemma run_handlers_total:
  assumes "requestFits env (queueOf st)" and "sv_queue s = Some memoryQueue" and "sv_store s = fileStore codec ioOf"
    and "queue_inv (queueOf st)" and "\<And>k. iterates (oe_ord (ae_page env k)) (mq_jobs (queueOf st))"
  shows "neverPanics (handleRuns s env r st)" and "neverPanics (handleRunByID s env r st)"
proof -
  have "neverPanics (runAnswer ret st)" for ret by (auto simp: runAnswer_def split: runReturn.splits option.splits)
  then show "neverPanics (handleRuns s env r st)"
    using list_handlers_total(5)[OF assms(1-3)]
    by (auto simp: handleRuns_def postRun_def postIdempotentRun_def postAsyncRun_def enqueueAsync_def Let_def
        split: sum.splits option.splits prod.splits)
  have size: "int (card (dom (mq_jobs (queueOf st)))) + 500 \<le> maxInt64" using assms(1) by (simp add: requestFits_def)
  have "neverPanics (deleteRun runID s env r st)" for runID
    by (rule deleteRun_exact[OF assms(2,4,5) size, of runID r]) simp
  then show "neverPanics (handleRunByID s env r st)" by (auto simp: handleRunByID_def Let_def split: sum.splits)
qed

lemma other_handlers_total:
  assumes "requestFits env (queueOf st)"
  shows "neverPanics (handleHealth s env r st)" "neverPanics (handleReady s env r st)" "neverPanics (handleMetrics s env r st)"
    "neverPanics (handleJobStats s env r st)" "neverPanics (handleJobByID s env r st)" "neverPanics (handleJobRequeueByID s env r st)"
    "neverPanics (handleSchedules s env r st)" "neverPanics (handleScheduleByWorkflowID s env r st)"
    "neverPanics (handleSchedulePauseByWorkflowID s env r st)" "neverPanics (handleScheduleResumeByWorkflowID s env r st)"
    "neverPanics (handleWorkflowByID s env r st)"
proof -
  show req: "neverPanics (handleJobRequeueByID s env r st)"
    by (auto simp: handleJobRequeueByID_def Let_def split: option.splits sum.splits prod.splits)
  then show "neverPanics (handleJobByID s env r st)"
    by (auto simp: handleJobByID_def Let_def split: option.splits sum.splits prod.splits)
  show "neverPanics (handleSchedules s env r st)"
    using schedule_list_total[of env] assms
    by (auto simp: requestFits_def handleSchedules_def Let_def split: option.splits sum.splits prod.splits)
  have "neverPanics (storeWorkflow status s op w st)" for status op w
    by (auto simp: storeWorkflow_def split: option.splits prod.splits)
  then show "neverPanics (handleWorkflowByID s env r st)"
    by (auto simp: handleWorkflowByID_def putWorkflow_def patchWorkflow_def Let_def split: sum.splits)
qed (auto simp: handleHealth_def handleReady_def handleMetrics_def handleJobStats_def handleScheduleByWorkflowID_def
    handleSchedulePauseByWorkflowID_def handleScheduleResumeByWorkflowID_def Let_def split: option.splits sum.splits prod.splits)

lemma serve_total:
  assumes "requestFits env (queueOf st)" and "sv_queue s = Some memoryQueue" and "sv_store s = fileStore codec ioOf"
    and "queue_inv (queueOf st)" and "\<And>k. iterates (oe_ord (ae_page env k)) (mq_jobs (queueOf st))"
  shows "neverPanics (ServeHTTP s env r st)"
proof (cases rule: ServeHTTP_cases[of s env r st])
  case (route rt au h)
  have "neverPanics (h s env r st)"
    using route(1) list_handlers_total[OF assms(1-3)] bulk_handlers_total[OF assms(1,2)] run_handlers_total[OF assms]
      other_handlers_total[OF assms(1)]
    by (auto simp: routes_def)
  then show ?thesis using route(3) by (cases rule: middleware_cases[of au s r rt h env st]) auto
qed simp

section \<open>The server answers\<close>

text \<open>Only a run that the request waits for may keep the answer away for ever.\<close>

named_theorems answers "handlers that give an answer"

definition awaited :: "'a served \<Rightarrow> bool" where
  "awaited res \<longleftrightarrow> (case res of NoAnswer \<Rightarrow> True | _ \<Rightarrow> False)"

lemma awaited_simps [simp]: "\<not> awaited (Answered resp st')" "\<not> awaited (Panicked st')" "awaited NoAnswer"
  by (simp_all add: awaited_def)

lemma list_handlers_answer [answers]:
  "\<not> awaited (listJobs queue status w i a b env r st)" "\<not> awaited (listWorkflows s env r st)" "\<not> awaited (listRuns s env r st)"
  "\<not> awaited (storeWorkflow code s op wk st)" "\<not> awaited (listSchedules sched s env r st)"
  by (auto simp: listJobs_def listWorkflows_def listRuns_def storeWorkflow_def listSchedules_def Let_def
      split: option.splits sum.splits prod.splits)

lemma open_handlers_answer [answers]:
  "\<not> awaited (handleHealth s env r st)" "\<not> awaited (handleReady s env r st)" "\<not> awaited (handleMetrics s env r st)"
  by (auto simp: handleHealth_def handleReady_def handleMetrics_def Let_def split: option.splits sum.splits)

lemma workflow_handlers_answer [answers]:
  "\<not> awaited (handleWorkflows s env r st)" "\<not> awaited (handleWorkflowByID s env r st)"
  by (auto simp: handleWorkflows_def handleWorkflowByID_def putWorkflow_def patchWorkflow_def answers Let_def split: sum.splits)

lemma job_handlers_answer [answers]:
  "\<not> awaited (handleJobs s env r st)" "\<not> awaited (handleJobStats s env r st)" "\<not> awaited (handleDeadLetterJobs s env r st)"
  "\<not> awaited (handleJobHistoryByID s env r st)"
  by (auto simp: handleJobs_def handleJobStats_def handleDeadLetterJobs_def handleJobHistoryByID_def answers Let_def
      split: option.splits sum.splits prod.splits)

lemma one_job_handlers_answer [answers]:
  "\<not> awaited (handleJobRequeueByID s env r st)" "\<not> awaited (handleJobByID s env r st)"
proof -
  show *: "\<not> awaited (handleJobRequeueByID s env r st)"
    by (auto simp: handleJobRequeueByID_def Let_def split: option.splits sum.splits prod.splits)
  then show "\<not> awaited (handleJobByID s env r st)"
    by (auto simp: handleJobByID_def Let_def split: option.splits sum.splits prod.splits)
qed

lemma bulk_handlers_answer [answers]:
  "\<not> awaited (handleJobsBulkCancel s env r st)" "\<not> awaited (handleJobsBulkRequeue s env r st)" "\<not> awaited (handleJobsPurge s env r st)"
  by (auto simp: handleJobsBulkCancel_def handleJobsBulkRequeue_def handleJobsPurge_def bulkCancelAnswer_def bulkRequeueAnswer_def
      purgeDryRun_def purgeNow_def Let_def split: option.splits sum.splits prod.splits)

lemma schedule_handlers_answer [answers]:
  "\<not> awaited (handleSchedules s env r st)" "\<not> awaited (handleScheduleByWorkflowID s env r st)"
  "\<not> awaited (handleSchedulePauseByWorkflowID s env r st)" "\<not> awaited (handleScheduleResumeByWorkflowID s env r st)"
  by (auto simp: handleSchedules_def handleScheduleByWorkflowID_def handleSchedulePauseByWorkflowID_def
      handleScheduleResumeByWorkflowID_def answers Let_def split: option.splits sum.splits prod.splits)

text \<open>A request to run a workflow and to wait for the run.\<close>

definition waitsForRun :: "('e, 'c) apiEnv \<Rightarrow> httpRequest \<Rightarrow> bool" where
  "waitsForRun env r \<longleftrightarrow> hr_Path r = ''/runs'' \<and> hr_Method r = ''POST'' \<and>
     (case bd_run (ae_json env) (hr_Body r) of Inl err \<Rightarrow> False | Inr req \<Rightarrow> \<not> qr_Async req)"

lemma handleRuns_answers:
  "awaited (handleRuns s env r st) \<Longrightarrow> hr_Path r = ''/runs'' \<Longrightarrow> waitsForRun env r"
  using list_handlers_answer(3)[of s env r st]
  by (auto simp: waitsForRun_def handleRuns_def postRun_def postAsyncRun_def enqueueAsync_def Let_def
      split: if_splits sum.splits option.splits prod.splits)

lemma serve_answers:
  assumes "requestFits env (queueOf st)" and "sv_queue s = Some memoryQueue" and "sv_store s = fileStore codec ioOf"
    and "queue_inv (queueOf st)" and "\<And>k. iterates (oe_ord (ae_page env k)) (mq_jobs (queueOf st))"
    and "\<not> waitsForRun env r"
  obtains resp st' where "ServeHTTP s env r st = Answered resp st'"
proof -
  have "\<not> awaited (ServeHTTP s env r st)"
  proof (cases rule: ServeHTTP_cases[of s env r st])
    case (route rt au h)
    have size: "int (card (dom (mq_jobs (queueOf st)))) + 500 \<le> maxInt64" using assms(1) by (simp add: requestFits_def)
    have "\<not> awaited (deleteRun runID s env r st)" for runID
      by (rule deleteRun_exact[OF assms(2,4,5) size, of runID r]) simp
    then have run: "\<not> awaited (handleRunByID s env r st)" by (auto simp: handleRunByID_def Let_def split: sum.splits)
    have "rt = ''/runs'' \<Longrightarrow> hr_Path r = ''/runs''" using muxMatch_in[OF route(2)] by (auto simp: patternMatches_def suffix_def)
    then have "\<not> awaited (h s env r st)"
      using route(1) run handleRuns_answers[of s env r st] assms(6) by (auto simp: routes_def answers)
    then show ?thesis using route(3) by (cases rule: middleware_cases[of au s r rt h env st]) auto
  qed simp
  with serve_total[OF assms(1-5), of r] that show thesis by (cases "ServeHTTP s env r st") auto
qed

end
