(* ===== verification/ApiProperties.thy ===== *)
theory ApiProperties
  imports ApiQueue SchedulerProperties
begin

text \<open>The properties of the API server, the workflow loader and the program's start-up, with an instance of each on a
  server over the file store and the memory queue.\<close>

section \<open>A server to instantiate the properties\<close>

abbreviation exampleFiles :: "fileState WorkflowStore" where
  "exampleFiles \<equiv> fileStore snapshotCodec (\<lambda>_. ioFine)"

definition exampleDiskExecutor :: "(unit, fileState) Executor" where
  "exampleDiskExecutor = \<lparr>ex_registry = exampleRegistry, ex_store = Some exampleFiles\<rparr>"

definition exampleServer :: "(unit, fileState, MemoryRunQueue) Server" where
  "exampleServer = NewServer 0 '''' ''read:r1,write:w1'' exampleFiles (Some memoryQueue) exampleDiskExecutor"

definition exampleDecoders :: bodyDecoders where
  "exampleDecoders =
     \<lparr>bd_workflow = (\<lambda>_. Inr (configOf (examplePipeline ''ok''))), bd_patch = (\<lambda>_. Inl ''EOF''),
      bd_run = (\<lambda>body. Inr \<lparr>qr_WorkflowID = ''deploy'', qr_Async = (body = ''async''), qr_MaxAttempts = 0\<rparr>),
      bd_requeue = (\<lambda>_. Inl ''EOF''),
      bd_bulkCancel = (\<lambda>_. Inr \<lparr>qc_JobIDs = ['' b'', ''c''], qc_Status = '''', qc_WorkflowID = '''', qc_RequestID = '''',
                                 qc_Limit = 0, qc_Reason = ''stop''\<rparr>),
      bd_purge = (\<lambda>_. Inl ''EOF''), bd_bulkRequeue = (\<lambda>_. Inl ''EOF''), bd_schedule = (\<lambda>_. Inl ''EOF'')\<rparr>"

definition exampleApiEnv :: "(unit, ScheduleConfig option list) apiEnv" where
  "exampleApiEnv =
     \<lparr>ae_json = exampleDecoders, ae_op = (\<lambda>n. at (100 + int n) [''b'', ''a'']), ae_page = (\<lambda>n. at 200 [''b'', ''a'']),
      ae_item = (\<lambda>n. at (300 + int n) []), ae_now = (\<lambda>n. 400 + int n), ae_statusOrd = [], ae_httpOrd = [], ae_depthOrd = [],
      ae_run = exampleEnv, ae_cron = listCron, ae_sched = exampleScEnv\<rparr>"

definition exampleRequest :: "string \<Rightarrow> string \<Rightarrow> string \<Rightarrow> string \<Rightarrow> httpRequest" where
  "exampleRequest token method path body =
     \<lparr>hr_Method = method, hr_Path = path, hr_Query = [],
      hr_Header = [(''X-Api-Token'', token), (''Idempotency-Key'', ''k1'')], hr_Body = body\<rparr>"

definition exampleApiState :: "(unit, fileState, MemoryRunQueue, ScheduleConfig option list) apiState" where
  "exampleApiState =
     \<lparr>as_world = \<lparr>wd_queue = enqueuedQueue, wd_store = (exampleDisk, Map.empty), wd_metrics = Some NewCollector\<rparr>, as_sched = None\<rparr>"

lemma exampleServer_simps [simp]:
  "sv_store exampleServer = exampleFiles" "sv_queue exampleServer = Some memoryQueue"
  "sv_executor exampleServer = exampleDiskExecutor" "ex_store exampleDiskExecutor = Some exampleFiles"
  by (simp_all add: exampleServer_def NewServer_def exampleDiskExecutor_def split: prod.splits)

lemma exampleServer_tokens:
  "sv_authOn exampleServer" "sv_authRead exampleServer = {''r1''}" "sv_authWrite exampleServer = {''w1''}"
proof -
  have "parseAuthConfig ''read:r1,write:w1'' = ({''r1''}, {''w1''})" by code_simp
  then show "sv_authOn exampleServer" "sv_authRead exampleServer = {''r1''}" "sv_authWrite exampleServer = {''w1''}"
    by (simp_all add: exampleServer_def NewServer_def)
qed

lemma exampleRequest_simps [simp]:
  "hr_Method (exampleRequest t m p b) = m" "hr_Path (exampleRequest t m p b) = p" "hr_Body (exampleRequest t m p b) = b"
  by (simp_all add: exampleRequest_def)

lemma exampleRequest_token:
  "extractToken (exampleRequest ''r1'' m p b) = ''r1''" "extractToken (exampleRequest ''w1'' m p b) = ''w1''"
  "idempotencyKeyOf (exampleRequest t m p b) = ''k1''"
proof -
  have "trimSpace '''' = ''''" "trimSpace ''r1'' = ''r1''" "trimSpace ''w1'' = ''w1''" "trimSpace ''k1'' = ''k1''" by code_simp+
  then show "extractToken (exampleRequest ''r1'' m p b) = ''r1''" "extractToken (exampleRequest ''w1'' m p b) = ''w1''"
    "idempotencyKeyOf (exampleRequest t m p b) = ''k1''"
    by (simp_all add: extractToken_def idempotencyKeyOf_def headerGet_def exampleRequest_def lookupOrEmpty_def hasPrefix_def toLower_def)
qed

lemma exampleState_simps [simp]:
  "queueOf exampleApiState = enqueuedQueue" "storeOf exampleApiState = (exampleDisk, Map.empty)"
  "wd_metrics (as_world exampleApiState) = Some NewCollector"
  by (simp_all add: exampleApiState_def)

lemma exampleEnv_simps [simp]:
  "ae_json exampleApiEnv = exampleDecoders" "ae_op exampleApiEnv n = at (100 + int n) [''b'', ''a'']"
  "ae_page exampleApiEnv n = at 200 [''b'', ''a'']" "ae_sched exampleApiEnv = exampleScEnv" "ae_now exampleApiEnv n = 400 + int n"
  "ae_run exampleApiEnv = exampleEnv" "oe_ord (at t ord) = ord"
  by (simp_all add: exampleApiEnv_def at_def)

lemma exampleDisk_mem [simp]:
  "ms_workflows (fst_mem exampleDisk) = [''deploy'' \<mapsto> examplePipeline ''ok'']" "ms_runs (fst_mem exampleDisk) = Map.empty"
  by (simp_all add: exampleDisk_def exampleStore_def SaveWorkflow_def NewMemoryStore_def examplePipeline_def)

section \<open>Authorization\<close>

lemma without_write_token:
  assumes "sv_authOn s" and "extractToken r \<notin> sv_authWrite s" and "isAuthorized s r"
  shows "\<not> isWriteMethod (hr_Method r)"
  using assms by (auto simp: isAuthorized_def Let_def split: if_splits)

text \<open>C12. When authorization is on, a request whose token is not a write token changes neither the store nor the queue nor
  the scheduler, whatever its method, path and body, and whichever way it ends. A read token is thus really read-only.\<close>

theorem read_token_cannot_modify:
  assumes "sv_authOn s" and "extractToken r \<notin> sv_authWrite s"
  shows "onlyReads st (ServeHTTP s env r st)"
proof (cases rule: ServeHTTP_cases[of s env r st])
  case (route rt au h)
  have "onlyReads st (h s env r st)" if "au \<longrightarrow> isAuthorized s r"
    using that routes_read[OF route(1)] without_write_token[OF assms] by blast
  then show ?thesis using route(3) middleware_reads[of au s r st h env rt] by simp
qed simp

theorem read_token_cannot_modify_witness:
  "onlyReads exampleApiState (ServeHTTP exampleServer exampleApiEnv (exampleRequest ''r1'' ''POST'' ''/runs'' '''') exampleApiState)"
  by (rule read_token_cannot_modify) (simp_all add: exampleServer_tokens exampleRequest_token)

text \<open>C20. The tokens given to the program grant exactly their scopes: when none of the three tokens contains a comma, the
  server built from them accepts a request if no token was given, or if the request carries the admin token, the write
  token, or, for a method that only reads, the read token.\<close>

theorem tokens_grant_their_scopes:
  assumes "CHR '','' \<notin> set (trimSpace a)" and "CHR '','' \<notin> set (trimSpace rd)" and "CHR '','' \<notin> set (trimSpace w)"
  shows "isAuthorized (NewServer now addr (buildAuthConfig a rd w) store queue executor) r \<longleftrightarrow>
     trimSpace a = '''' \<and> trimSpace rd = '''' \<and> trimSpace w = '''' \<or>
     extractToken r \<noteq> '''' \<and>
       (extractToken r = trimSpace a \<or> extractToken r = trimSpace w \<or>
        extractToken r = trimSpace rd \<and> hr_Method r \<in> {''GET'', ''HEAD'', ''OPTIONS''})"
  unfolding NewServer_def parse_buildAuthConfig[OF assms] prod.case
  by (auto simp: isAuthorized_def isWriteMethod_def tokenSet_def Let_def)

theorem tokens_grant_their_scopes_witness:
  "\<not> isAuthorized (NewServer 0 '''' (buildAuthConfig '''' ''r1'' ''w1'') exampleFiles (Some memoryQueue) exampleDiskExecutor)
     (exampleRequest ''r1'' ''POST'' ''/runs'' '''')"
proof -
  have t: "trimSpace '''' = ''''" "trimSpace ''r1'' = ''r1''" "trimSpace ''w1'' = ''w1''" by code_simp+
  show ?thesis by (subst tokens_grant_their_scopes) (simp_all add: t exampleRequest_token)
qed

section \<open>Every request is answered\<close>

text \<open>C15. The server answers: a request to a server over the file store and the memory queue never makes a handler panic,
  and unless it waits for a run it is answered, whatever its method, path, parameters and body, as long as the queue is
  reachable, the page loop ranges over its jobs, and all sizes are below $2^{63} - 1000$.\<close>

theorem server_answers:
  assumes "sv_store s = fileStore codec ioOf" and "sv_queue s = Some memoryQueue" and "mqreach (queueOf st)"
    and "requestFits env (queueOf st)" and "\<And>k. iterates (oe_ord (ae_page env k)) (mq_jobs (queueOf st))"
  shows "neverPanics (ServeHTTP s env r st) \<and>
     (waitsForRun env r \<or> (\<exists>resp st'. ServeHTTP s env r st = Answered resp st'))"
  using serve_total[OF assms(4,2,1) mqreach_inv[OF assms(3)] assms(5), of r]
    serve_answers[OF assms(4,2,1) mqreach_inv[OF assms(3)] assms(5), of r] by blast

lemma example_fits: "requestFits exampleApiEnv enqueuedQueue"
proof -
  have one: "length (transitionsOf (snd (EnqueueRunJob e job q)) i) \<le> Suc (length (transitionsOf q i))" for e job q i
    by (simp add: EnqueueRunJob_def Let_def appendTransition_def putJob_def transitionsOf_def split: option.splits)
  have "length (transitionsOf NewMemoryRunQueue i) = 0" for i by (simp add: transitionsOf_def NewMemoryRunQueue_def)
  then have "length (transitionsOf enqueuedQueue i) \<le> 2" for i
    unfolding enqueuedQueue_def by (intro order_trans[OF one]) (use one[of "at 10 []" "exampleJob ''a''" NewMemoryRunQueue i] in simp)
  then have "fits (length (transitionsOf enqueuedQueue i))" for i
    using fits_le[of 2 "length (transitionsOf enqueuedQueue i)"] by (simp add: fits_def)
  moreover have "card (dom (mq_jobs enqueuedQueue)) = 2" by (simp add: example_dom(1))
  ultimately show ?thesis by (simp add: requestFits_def fits_def exampleDecoders_def)
qed

lemma example_pages: "iterates (oe_ord (ae_page exampleApiEnv k)) (mq_jobs (queueOf exampleApiState))"
  by (simp add: example_dom(3))

theorem server_answers_witness:
  "\<exists>resp st'. ServeHTTP exampleServer exampleApiEnv (exampleRequest ''w1'' ''DELETE'' ''/runs/run-a'' '''') exampleApiState =
     Answered resp st'"
  using server_answers[OF exampleServer_simps(1,2), of exampleApiState exampleApiEnv "exampleRequest ''w1'' ''DELETE'' ''/runs/run-a'' ''''"]
    example_fits example_reach(1) example_pages by (simp add: waitsForRun_def)

section \<open>Sequences of requests\<close>

text \<open>The states that requests lead to, answered or not.\<close>

inductive apiStep :: "('e, 's, 'q) Server \<Rightarrow> ('e, 's, 'q, 'c) apiState \<Rightarrow> ('e, 's, 'q, 'c) apiState \<Rightarrow> bool"
  for s where
  answered: "ServeHTTP s env r st = Answered resp st' \<Longrightarrow> apiStep s st st'"
| panicked: "ServeHTTP s env r st = Panicked st' \<Longrightarrow> apiStep s st st'"

lemma apiStep_holds:
  assumes "apiStep s st st'"
  shows "(\<And>env r. storeHolds P (ServeHTTP s env r st)) \<Longrightarrow> P (storeOf st')"
    and "(\<And>env r. queueHolds Q (ServeHTTP s env r st)) \<Longrightarrow> Q (queueOf st')"
  using assms by (cases; metis storeHolds_simps queueHolds_simps)+

lemma example_step:
  obtains st' where "apiStep exampleServer exampleApiState st'"
proof -
  obtain resp st' where "ServeHTTP exampleServer exampleApiEnv (exampleRequest ''w1'' ''POST'' ''/workflows'' '''') exampleApiState =
      Answered resp st'"
    by (rule serve_answers[of exampleApiEnv exampleApiState exampleServer snapshotCodec "\<lambda>_. ioFine"
          "exampleRequest ''w1'' ''POST'' ''/workflows'' ''''"])
      (simp_all add: example_fits mqreach_inv[OF example_reach(1)] example_dom(3) waitsForRun_def)
  then show thesis by (rule that[OF apiStep.answered])
qed

text \<open>Only valid workflows are in the store: whatever sequence of requests a server over the file store gets, and
  whatever the disk does, if every workflow in the store is valid and stored under its own id at the start, it is so
  afterwards.\<close>

theorem stored_workflows_valid:
  assumes "sv_store s = fileStore codec ioOf" and "ex_store (sv_executor s) = Some (fileStore codec ioOf)"
    and "(apiStep s)\<^sup>*\<^sup>* st st'" and "workflowsValid (ms_workflows (fst_mem (fst (storeOf st))))"
  shows "workflowsValid (ms_workflows (fst_mem (fst (storeOf st'))))"
  using assms(3,4)
proof induction
  case (step st1 st2)
  note valid = diskc.serve_keeps_valid[OF assms(1,2) step.IH[OF step.prems]]
  show ?case by (rule apiStep_holds(1)[OF step.hyps(2), of "\<lambda>sf. workflowsValid (ms_workflows (fst_mem (fst sf)))"]) (rule valid)
qed

theorem stored_workflows_valid_witness:
  "\<exists>st'. apiStep exampleServer exampleApiState st' \<and> workflowsValid (ms_workflows (fst_mem (fst (storeOf st'))))"
proof -
  obtain st' where step: "apiStep exampleServer exampleApiState st'" by (rule example_step)
  have "workflowsValid (ms_workflows (fst_mem (fst (storeOf exampleApiState))))"
    using example_valid(1) by (simp add: workflowsValid_def examplePipeline_def)
  from stored_workflows_valid[OF exampleServer_simps(1) _ r_into_rtranclp[of "apiStep exampleServer", OF step] this] step
  show ?thesis by auto
qed

text \<open>The requests act on the queue by queue operations only: after any sequence of requests to a server over a
  reachable memory queue, the queue is reachable again, and on the abstract board of job statuses the requests are steps
  of the board. What holds of all reachable queues thus holds while the server works.\<close>

theorem requests_refine_board:
  assumes "sv_queue s = Some memoryQueue" and "(apiStep s)\<^sup>*\<^sup>* st st'" and "mqreach (queueOf st)"
  shows "mqreach (queueOf st') \<and> board_step\<^sup>*\<^sup>* (board (queueOf st)) (board (queueOf st'))"
proof -
  have "qsteps (queueOf st) (queueOf st')"
    using assms(2)
  proof induction
    case (step st1 st2)
    have "qsteps (queueOf st1) (queueOf st2)" by (rule apiStep_holds(2)[OF step.hyps(2)]) (rule serve_steps[OF assms(1)])
    with step.IH show ?case by (rule rtranclp_trans)
  qed simp
  from board_steps[OF qsteps_mqsteps[OF this] assms(3)] show ?thesis .
qed

theorem requests_refine_board_witness:
  "\<exists>st'. apiStep exampleServer exampleApiState st' \<and> board_step\<^sup>*\<^sup>* (board enqueuedQueue) (board (queueOf st'))"
proof -
  obtain st' where step: "apiStep exampleServer exampleApiState st'" by (rule example_step)
  from requests_refine_board[OF exampleServer_simps(2) r_into_rtranclp[of "apiStep exampleServer", OF step]] step example_reach(1)
  show ?thesis by auto
qed

section \<open>Idempotency keys\<close>

text \<open>The requests to \<^verbatim>\<open>/runs\<close> reach \<open>handleRuns\<close> behind the middleware.\<close>

lemma serve_runs:
  fixes st :: "('e, 's, 'q, 'c) apiState"
  assumes "hr_Path r = ''/runs''" and "isAuthorized s r"
  shows "ServeHTTP s env r st =
     (case handleRuns s env r st of
        Answered resp st' \<Rightarrow> Answered resp (recordRequest (hr_Method r) ''/runs'' (hp_Status resp) st')
      | Panicked st' \<Rightarrow> Panicked st' | NoAnswer \<Rightarrow> NoAnswer)"
proof -
  let ?table = "routes :: (string \<times> bool \<times> ('e, 's, 'q, 'c) handler) list"
  have clean: "cleanURLPath ''/runs'' = ''/runs''" by code_simp
  have "filter (\<lambda>e. patternMatches ''/runs'' (fst e)) ?table = [(''/runs'', True, handleRuns)]"
    by (simp add: routes_def patternMatches_def)
  then have "muxMatch ?table ''/runs'' = Some (''/runs'', True, handleRuns)" by (simp add: muxMatch_def)
  moreover have "''/runs'' \<in> set (map fst ?table)" by (simp add: routes_def)
  ultimately show ?thesis using assms by (simp add: ServeHTTP_def clean withMiddleware_def)
qed

text \<open>A request to run a workflow under an idempotency key.\<close>

definition keyedRun :: "('e, 's, 'q) Server \<Rightarrow> ('e, 'c) apiEnv \<Rightarrow> httpRequest \<Rightarrow> runRequest \<Rightarrow> string \<Rightarrow> bool" where
  "keyedRun s env r req key \<longleftrightarrow>
     hr_Path r = ''/runs'' \<and> hr_Method r = ''POST'' \<and> isAuthorized s r \<and> bd_run (ae_json env) (hr_Body r) = Inr req \<and>
     qr_WorkflowID req \<noteq> '''' \<and> idempotencyKeyOf r = key \<and> key \<noteq> ''''"

lemma keyed_postRun:
  assumes "keyedRun s env r req key" and "ws_GetWorkflow (sv_store s) (ae_op env 0) (qr_WorkflowID req) (storeOf st) = Inr w"
  shows "handleRuns s env r st =
     (if qr_Async req then postAsyncRun key req s env r st else postIdempotentRun key req w s env r st)"
  using assms by (simp add: keyedRun_def handleRuns_def postRun_def)

text \<open>A text whose first and last characters are printable ASCII characters is trimmed.\<close>

definition printable :: "char \<Rightarrow> bool" where
  "printable c \<longleftrightarrow> 33 \<le> (of_char c :: nat) \<and> (of_char c :: nat) \<le> 126"

lemma trimSpace_plain:
  assumes "s \<noteq> []" and "printable (hd s)" and "printable (last s)"
  shows "trimSpace s = s"
proof (rule trimSpace_id)
  fix r assume r: "r \<in> set spaceRunes"
  have "list_all (\<lambda>r. r \<noteq> [] \<and> \<not> printable (hd r) \<and> \<not> printable (last r)) spaceRunes" by code_simp
  with r have "r \<noteq> []" "\<not> printable (hd r)" "\<not> printable (last r)" by (auto simp: list_all_iff)
  with assms show "\<not> prefix r s \<and> \<not> suffix r s" by (auto simp: prefix_def suffix_def)
qed

lemma idem_plain: "trimSpace (deterministicRunID w k) = deterministicRunID w k"
proof (rule trimSpace_plain)
  have len: "length (sha1Hex (w @ ''|'' @ k)) = 40" and hex: "list_all isHexDigit (sha1Hex (w @ ''|'' @ k))"
    using sha1Hex_format by auto
  then have "isHexDigit (last (sha1Hex (w @ ''|'' @ k)))" by (metis last_in_set length_0_conv list.pred_set zero_neq_numeral)
  moreover have "printable c" if "isHexDigit c" for c
    using that by (auto simp: isHexDigit_def printable_def Let_def)
  moreover have "sha1Hex (w @ ''|'' @ k) \<noteq> []" using len by auto
  ultimately show "printable (last (deterministicRunID w k))" by (simp add: deterministicRunID_def)
qed (simp_all add: deterministicRunID_def printable_def)

lemma keyed_run_id:
  assumes "ValidateWorkflow w = None"
    and "RunWithID ex env w (deterministicRunID i k) rid s m = RunReturned run err s' m'"
  shows "r_ID run = deterministicRunID i k"
proof -
  have "deterministicRunID i k \<noteq> ''''" by (simp add: deterministicRunID_def)
  moreover obtain run0 where "finishRun (ex_registry ex) env w run0 = Some run"
      "r_ID run0 = r_ID (newRun env w (deterministicRunID i k) rid)"
    using assms unfolding RunWithID_def by (elim runWithID_cases) auto
  ultimately show ?thesis by (auto simp: newRun_def idem_plain dest: finishRun_facts(2))
qed

text \<open>The answer to a request that finds the run of its key.\<close>

lemma keyed_run_found:
  assumes "keyedRun s env r req key" and "ws_GetWorkflow (sv_store s) (ae_op env 0) (qr_WorkflowID req) (storeOf st) = Inr w"
    and "ws_GetRun (sv_store s) (ae_op env 1) (deterministicRunID (qr_WorkflowID req) key) (storeOf st) = Inr run"
    and "sv_queue s \<noteq> None"
  obtains st' where "ServeHTTP s env r st = Answered (writeJSON 200 (RunBody run)) st'" and "unmodified st st'"
proof -
  obtain queue where q: "sv_queue s = Some queue" using assms(4) by blast
  have "handleRuns s env r st = Answered (writeJSON 200 (RunBody run)) st"
    using assms(1,3) by (simp add: keyed_postRun[OF assms(1,2)] postAsyncRun_def postIdempotentRun_def q keyedRun_def)
  then show thesis using that assms(1) by (simp add: keyedRun_def serve_runs)
qed

text \<open>A request that creates the run of its key.\<close>

lemma keyed_run_created:
  assumes "keyedRun s env r req key" and "\<not> qr_Async req" and "ServeHTTP s env r st = Answered resp st'" and "hp_Status resp = 201"
  obtains w run s' m' st1 where "ws_GetWorkflow (sv_store s) (ae_op env 0) (qr_WorkflowID req) (storeOf st) = Inr w"
    and "RunWithID (sv_executor s) (ae_run env) w (deterministicRunID (qr_WorkflowID req) key) key (storeOf st)
       (wd_metrics (as_world st)) = RunReturned run None s' m'"
    and "resp = writeJSON 201 (RunBody run)" and "storeOf st' = s'" and "queueOf st' = queueOf st"
proof -
  have K: "hr_Path r = ''/runs''" "isAuthorized s r" using assms(1) by (simp_all add: keyedRun_def)
  obtain st1 where h: "handleRuns s env r st = Answered resp st1"
    and st': "st' = recordRequest (hr_Method r) ''/runs'' (hp_Status resp) st1"
    using assms(3) by (auto simp: serve_runs[OF K] split: served.splits)
  show thesis
  proof (cases "ws_GetWorkflow (sv_store s) (ae_op env 0) (qr_WorkflowID req) (storeOf st)")
    case (Inl err)
    with h assms(1,4) show thesis
      by (auto simp: keyedRun_def handleRuns_def postRun_def writeError_def writeJSON_def)
  next
    case (Inr w)
    let ?ret = "RunWithID (sv_executor s) (ae_run env) w (deterministicRunID (qr_WorkflowID req) key) key (storeOf st)
       (wd_metrics (as_world st))"
    have "postIdempotentRun key req w s env r st = Answered resp st1" using h assms(2) by (simp add: keyed_postRun[OF assms(1) Inr])
    then have "runAnswer ?ret st = Answered resp st1"
      using assms(4) by (auto simp: postIdempotentRun_def Let_def writeJSON_def split: sum.splits)
    then show thesis using that[OF Inr] assms(4) st'
      by (auto simp: runAnswer_def writeError_def writeJSON_def split: runReturn.splits option.splits)
  qed
qed


lemma example_run:
  obtains run s' m' where "RunWithID exampleDiskExecutor exampleEnv (examplePipeline ''ok'') fid rid s m = RunReturned run None s' m'"
proof -
  obtain run err s' m' where ret: "runWithID exampleDiskExecutor exampleEnv (examplePipeline ''ok'') fid rid s m = RunReturned run err s' m'"
    using runWithID_returns[OF example_valid(1) example_envOk example_resolves example_events,
      where ex = exampleDiskExecutor and fid = fid and rid = rid and s = s and m = m] by blast
  have "fst (fsSaveRun snapshotCodec (\<lambda>_. ioFine) e run sf) = None" for e run sf
    by (simp add: fsSaveRun_def SaveRun_def flushLocked_def ListWorkflows_def ListRuns_def snapshotCodec_def osWriteFile_def
        ioFine_def split: prod.splits)
  then have save: "\<exists>x. ws_SaveRun exampleFiles e run sf = (None, x)" for e run sf
    by (metis fileStore_def prod.collapse WorkflowStore.select_convs(4))
  obtain s1 where "saveFinal exampleDiskExecutor exampleEnv run s1 m = RunReturned run err s' m'"
    by (rule runWithID_cases[OF example_valid(1) ret]) blast
  moreover obtain x where "ws_SaveRun exampleFiles (re_finalSave exampleEnv) run s1 = (None, x)" using save by blast
  ultimately have "err = None" by (simp add: saveFinal_def)
  with ret that show thesis by (simp add: RunWithID_def)
qed

lemma example_keyed:
  "keyedRun exampleServer exampleApiEnv (exampleRequest ''w1'' ''POST'' ''/runs'' b)
     \<lparr>qr_WorkflowID = ''deploy'', qr_Async = (b = ''async''), qr_MaxAttempts = 0\<rparr> ''k1''"
  by (simp add: keyedRun_def exampleRequest_token isAuthorized_def exampleServer_tokens exampleDecoders_def)

lemma example_get:
  "ms_workflows (fst_mem (fst sf)) ''deploy'' = Some w \<Longrightarrow> ws_GetWorkflow exampleFiles e ''deploy'' sf = Inr w"
  by (simp add: fileStore_def GetWorkflow_def)

lemma example_created:
  obtains resp st1 where "ServeHTTP exampleServer exampleApiEnv (exampleRequest ''w1'' ''POST'' ''/runs'' '''') exampleApiState =
      Answered resp st1" and "hp_Status resp = 201"
proof -
  let ?r = "exampleRequest ''w1'' ''POST'' ''/runs'' ''''"
  let ?req = "\<lparr>qr_WorkflowID = ''deploy'', qr_Async = False, qr_MaxAttempts = 0\<rparr> :: runRequest"
  have K: "keyedRun exampleServer exampleApiEnv ?r ?req ''k1''" using example_keyed[of "''''"] by simp
  then have path: "isAuthorized exampleServer ?r" by (simp add: keyedRun_def)
  obtain run s' m' where run: "RunWithID exampleDiskExecutor exampleEnv (examplePipeline ''ok'') (deterministicRunID ''deploy'' ''k1'') ''k1''
      (exampleDisk, Map.empty) (Some NewCollector) = RunReturned run None s' m'" by (rule example_run)
  have none: "ws_GetRun exampleFiles e i (exampleDisk, Map.empty) = Inl ''run not found''" for e i
    by (simp add: fileStore_def GetRun_def)
  have "handleRuns exampleServer exampleApiEnv ?r exampleApiState =
      Answered (writeJSON 201 (RunBody run)) (setMetrics m' (setStore s' exampleApiState))"
    by (subst keyed_postRun[OF K, of exampleApiState "examplePipeline ''ok''"])
      (simp_all add: example_get postIdempotentRun_def none run runAnswer_def)
  then show thesis using that by (simp add: serve_runs path writeJSON_def)
qed


text \<open>A request that puts the job of its key into the queue.\<close>

lemma keyed_job_put:
  assumes "keyedRun s env r req key" and "qr_Async req" and "sv_queue s = Some queue"
    and "ServeHTTP s env r st = Answered resp st'" and "hp_Status resp = 202"
  defines "job \<equiv> asyncJob req (deterministicRunID (qr_WorkflowID req) key) key (ae_now env 1)"
  obtains w where "ws_GetWorkflow (sv_store s) (ae_op env 0) (qr_WorkflowID req) (storeOf st) = Inr w"
    and "resp = writeJSON 202 (JobBody job)" and "rq_EnqueueRunJob queue (ae_op env 3) job (queueOf st) = (None, queueOf st')"
    and "storeOf st' = storeOf st"
proof -
  have K: "hr_Path r = ''/runs''" "isAuthorized s r" using assms(1) by (simp_all add: keyedRun_def)
  obtain st1 where h: "handleRuns s env r st = Answered resp st1"
    and st': "st' = recordRequest (hr_Method r) ''/runs'' (hp_Status resp) st1"
    using assms(4) by (auto simp: serve_runs[OF K] split: served.splits)
  show thesis
  proof (cases "ws_GetWorkflow (sv_store s) (ae_op env 0) (qr_WorkflowID req) (storeOf st)")
    case (Inl err)
    with h assms(1,5) show thesis
      by (auto simp: keyedRun_def handleRuns_def postRun_def writeError_def writeJSON_def)
  next
    case (Inr w)
    have "postAsyncRun key req s env r st = Answered resp st1" using h assms(2) by (simp add: keyed_postRun[OF assms(1) Inr])
    then have "enqueueAsync req (deterministicRunID (qr_WorkflowID req) key) key queue env st = Answered resp st1"
      using assms(1,3,5) by (auto simp: keyedRun_def postAsyncRun_def Let_def writeJSON_def split: sum.splits)
    then show thesis using that[OF Inr] assms(5) st'
      by (auto simp: enqueueAsync_def Let_def job_def writeError_def writeJSON_def split: prod.splits option.splits)
  qed
qed

lemma keyed_job_enqueued:
  assumes "keyedRun s env r req key" and "qr_Async req" and "sv_queue s = Some memoryQueue"
    and "ServeHTTP s env r st = Answered resp st'" and "hp_Status resp = 202"
  defines "job \<equiv> asyncJob req (deterministicRunID (qr_WorkflowID req) key) key (ae_now env 1)"
  shows "resp = writeJSON 202 (JobBody job) \<and> queueOf st' = snd (EnqueueRunJob (ae_op env 3) job (queueOf st)) \<and> storeOf st' = storeOf st"
  unfolding job_def by (rule keyed_job_put[OF assms(1-5)]) (simp add: memoryQueue_def)

text \<open>The answer to an asynchronous request whose job is in the queue.\<close>

lemma keyed_job_found:
  assumes "keyedRun s env r req key" and "qr_Async req" and "sv_queue s = Some memoryQueue"
    and "ws_GetWorkflow (sv_store s) (ae_op env 0) (qr_WorkflowID req) (storeOf st) = Inr w"
    and "mq_jobs (queueOf st) i = Some j" and "j_WorkflowID j = qr_WorkflowID req" and "j_RequestID j = key"
    and "iterates (oe_ord (ae_op env 2)) (mq_jobs (queueOf st))"
  obtains body st' where "ServeHTTP s env r st = Answered (writeJSON 200 body) st'" and "unmodified st st'"
    and "(\<exists>run. ws_GetRun (sv_store s) (ae_op env 1) (deterministicRunID (qr_WorkflowID req) key) (storeOf st) = Inr run \<and> body = RunBody run) \<or>
      (\<exists>j'. j' \<in> ran (mq_jobs (queueOf st)) \<and> j_WorkflowID j' = qr_WorkflowID req \<and> j_RequestID j' = key \<and> body = JobBody j')"
proof -
  have K: "hr_Path r = ''/runs''" "isAuthorized s r" "key \<noteq> ''''" using assms(1) by (simp_all add: keyedRun_def)
  let ?jobs = "rangeValues (oe_ord (ae_op env 2)) (mq_jobs (queueOf st))"
  let ?P = "\<lambda>job. j_WorkflowID job = qr_WorkflowID req \<and> j_RequestID job = key"
  have ran: "set ?jobs = ran (mq_jobs (queueOf st))" by (rule set_rangeValues_iterates[OF assms(8)])
  moreover have "j \<in> ran (mq_jobs (queueOf st))" using assms(5) by (rule ranI)
  ultimately have "find ?P ?jobs \<noteq> None" using assms(6,7) by (auto simp: find_None_iff)
  then obtain j' where find: "find ?P ?jobs = Some j'" by blast
  then have j': "j' \<in> ran (mq_jobs (queueOf st))" "?P j'" using ran by (auto simp: find_Some_iff dest: nth_mem)
  have post: "handleRuns s env r st = postAsyncRun key req s env r st"
    using assms(2) by (simp add: keyed_postRun[OF assms(1,4)])
  show thesis
  proof (cases "ws_GetRun (sv_store s) (ae_op env 1) (deterministicRunID (qr_WorkflowID req) key) (storeOf st)")
    case (Inr run)
    then have "handleRuns s env r st = Answered (writeJSON 200 (RunBody run)) st" using K(3) by (simp add: post postAsyncRun_def assms(3))
    with Inr show thesis using that[of "RunBody run"] by (simp add: serve_runs[OF K(1,2)])
  next
    case (Inl err)
    then have "handleRuns s env r st = Answered (writeJSON 200 (JobBody j')) st"
      using K(3) find by (simp add: post postAsyncRun_def assms(3) memoryQueue_def GetRunJobByRequest_def)
    with j' show thesis using that[of "JobBody j'"] by (simp add: serve_runs[OF K(1,2)])
  qed
qed

text \<open>C17. An idempotency key enqueues one job: when an asynchronous request with a key was answered 202, and its job was
  not in the queue before, the queue holds the answered job; and as long as a job of this workflow and key is in the
  queue, wherever the workers have brought it, a further asynchronous request with this workflow and key is answered 200
  with the run if it has been stored and with a job of this workflow and key otherwise, and changes nothing.\<close>

theorem async_run_once:
  assumes "sv_queue s = Some memoryQueue"
    and "keyedRun s env1 r1 req1 key" and "qr_Async req1" and "ServeHTTP s env1 r1 st = Answered resp st1" and "hp_Status resp = 202"
    and "mq_jobs (queueOf st) (''job-'' @ deterministicRunID (qr_WorkflowID req1) key) = None" and "ae_now env1 1 \<noteq> 0"
    and "keyedRun s env2 r2 req2 key" and "qr_Async req2" and "qr_WorkflowID req2 = qr_WorkflowID req1"
    and "ws_GetWorkflow (sv_store s) (ae_op env2 0) (qr_WorkflowID req2) (storeOf st2) = Inr w"
    and "iterates (oe_ord (ae_op env2 2)) (mq_jobs (queueOf st2))"
  shows "\<exists>job. resp = writeJSON 202 (JobBody job) \<and> mq_jobs (queueOf st1) (j_ID job) = Some job \<and> j_Status job = RunJobStatusQueued \<and>
     (\<forall>i j. mq_jobs (queueOf st2) i = Some j \<and> sameJob job j \<longrightarrow>
        (\<exists>body st3. ServeHTTP s env2 r2 st2 = Answered (writeJSON 200 body) st3 \<and> unmodified st2 st3 \<and>
           ((\<exists>run. body = RunBody run) \<or> (\<exists>j'. body = JobBody j' \<and> j_WorkflowID j' = qr_WorkflowID req1 \<and> j_RequestID j' = key))))"
proof -
  define job where "job = asyncJob req1 (deterministicRunID (qr_WorkflowID req1) key) key (ae_now env1 1)"
  note E = keyed_job_enqueued[OF assms(2,3,1,4,5), folded job_def]
  have J: "j_ID job = ''job-'' @ deterministicRunID (qr_WorkflowID req1) key" "j_WorkflowID job = qr_WorkflowID req1"
    "j_RequestID job = key" "j_Status job = RunJobStatusQueued" "stored (ae_op env1 3) job = job"
    using assms(7) by (simp_all add: job_def asyncJob_def stored_def isZero_def)
  have new: "mq_jobs (queueOf st1) (j_ID job) = Some job"
    using E EnqueueRunJob_new[of "queueOf st" job "ae_op env1 3"] assms(6) J by (simp add: moveJob_simps)
  have "\<exists>body st3. ServeHTTP s env2 r2 st2 = Answered (writeJSON 200 body) st3 \<and> unmodified st2 st3 \<and>
      ((\<exists>run. body = RunBody run) \<or> (\<exists>j'. body = JobBody j' \<and> j_WorkflowID j' = qr_WorkflowID req1 \<and> j_RequestID j' = key))"
    if j: "mq_jobs (queueOf st2) i = Some j" "sameJob job j" for i j
  proof -
    have same: "j_WorkflowID j = qr_WorkflowID req2" "j_RequestID j = key" using j(2) J assms(10) by (simp_all add: sameJob_def)
    show ?thesis by (rule keyed_job_found[OF assms(8,9,1,11) j(1) same assms(12)]) (use assms(10) in auto)
  qed
  with E new J(4) show ?thesis by blast
qed

theorem async_run_once_witness:
  "\<exists>job st1. ServeHTTP exampleServer exampleApiEnv (exampleRequest ''w1'' ''POST'' ''/runs'' ''async'') exampleApiState =
     Answered (writeJSON 202 (JobBody job)) st1 \<and> mq_jobs (queueOf st1) (j_ID job) = Some job"
proof -
  let ?r = "exampleRequest ''w1'' ''POST'' ''/runs'' ''async''"
  let ?req = "\<lparr>qr_WorkflowID = ''deploy'', qr_Async = True, qr_MaxAttempts = 0\<rparr> :: runRequest"
  have K: "keyedRun exampleServer exampleApiEnv ?r ?req ''k1''" using example_keyed[of "''async''"] by simp
  then have auth: "isAuthorized exampleServer ?r" by (simp add: keyedRun_def)
  have none: "ws_GetRun exampleFiles e i (exampleDisk, Map.empty) = Inl ''run not found''" for e i
    by (simp add: fileStore_def GetRun_def)
  have "case GetRunJobByRequest (at 102 [''b'', ''a'']) ''deploy'' ''k1'' enqueuedQueue of Inl _ \<Rightarrow> True | Inr _ \<Rightarrow> False" by code_simp
  then obtain err where nojob: "GetRunJobByRequest (at 102 [''b'', ''a'']) ''deploy'' ''k1'' enqueuedQueue = Inl err" by (auto split: sum.splits)
  have "\<exists>q1. EnqueueRunJob e job q = (None, q1)" for e job q by (simp add: EnqueueRunJob_def Let_def)
  then obtain q1 where enq: "EnqueueRunJob (at 103 [''b'', ''a'']) (asyncJob ?req (deterministicRunID ''deploy'' ''k1'') ''k1'' 401)
      enqueuedQueue = (None, q1)" by blast
  have "\<exists>job st1. handleRuns exampleServer exampleApiEnv ?r exampleApiState = Answered (writeJSON 202 (JobBody job)) st1"
    by (subst keyed_postRun[OF K, of exampleApiState "examplePipeline ''ok''"])
      (simp_all add: example_get postAsyncRun_def none nojob enqueueAsync_def Let_def memoryQueue_def enq, blast)
  then obtain resp st1 where first: "ServeHTTP exampleServer exampleApiEnv ?r exampleApiState = Answered resp st1" "hp_Status resp = 202"
    by (auto simp: serve_runs auth writeJSON_def)
  have "''job-'' @ deterministicRunID ''deploy'' ''k1'' \<notin> dom (mq_jobs enqueuedQueue)" by (simp add: example_dom(1))
  with async_run_once[OF exampleServer_simps(2) K _ first _ _ K, of exampleApiState "examplePipeline ''ok''"] example_dom(3) first(1)
  show ?thesis by (auto simp: example_get dom_def)
qed

section \<open>Cancelling and purging jobs\<close>

text \<open>C18. A bulk cancellation of given jobs does what it reports: the answer lists, in the order of the request, the jobs for
  which the cancellation is accepted, all of them cancelled; the failures are exactly the other ids of the request, and the result
  code tells whether all, some or none failed; jobs that are not named, and jobs that have succeeded, are untouched.\<close>

theorem bulk_cancel_exact:
  assumes "sv_queue s = Some memoryQueue" and "mqreach (queueOf st)" and "hr_Method r = ''POST''"
    and "bd_bulkCancel (ae_json env) (hr_Body r) = Inr req" and "\<not> badJobStatus (qc_Status req)"
    and "givenJobIDs (qc_JobIDs req) = ids" and "ids \<noteq> []"
  shows "\<exists>js res st'. handleJobsBulkCancel s env r st = Answered (writeJSON 200 (BulkCancelBody js res)) st' \<and>
     map j_ID js = filter (cancellable (queueOf st)) ids \<and> (\<forall>j \<in> set js. j_Status j = RunJobStatusCancelled) \<and>
     fst ` set (br_Failed res) = {i \<in> set ids. \<not> cancellable (queueOf st) i} \<and>
     br_ResultCode res = (if \<forall>i \<in> set ids. cancellable (queueOf st) i then ''BULK_OK''
       else if \<forall>i \<in> set ids. \<not> cancellable (queueOf st) i then ''BULK_ALL_FAILED'' else ''BULK_PARTIAL_FAILURE'') \<and>
     cancels (set ids) (queueOf st) (queueOf st') \<and> storeOf st' = storeOf st"
proof -
  let ?q = "queueOf st"
  obtain b q' where loop: "bulkCancelLoop memoryQueue (ae_item env) 0 (trimSpace (qc_Reason req)) ids (bulkStart, ?q) = (b, q')"
    by fastforce
  from bulkCancelLoop_exact[OF mqreach_inv[OF assms(2)] loop]
  have C: "cancels (set ids) ?q q'" and D: "map j_ID (bk_done b) = filter (cancellable ?q) ids"
    "\<forall>j \<in> set (bk_done b). j_Status j = RunJobStatusCancelled"
    and F: "fst ` set (bk_failed b) = {i \<in> set ids. \<not> cancellable ?q i}" by (auto simp: bulkStart_def)
  have "handleJobsBulkCancel s env r st = Answered (writeJSON 200 (BulkCancelBody (bk_done b) (bulkResultOf b))) (setQueue q' st)"
    using assms loop by (simp add: handleJobsBulkCancel_def bulkCancelAnswer_def)
  moreover have "bk_failed b = [] \<longleftrightarrow> (\<forall>i \<in> set ids. cancellable ?q i)"
    using F by (metis (mono_tags, lifting) Collect_empty_eq image_is_empty set_empty)
  moreover have "bk_done b = [] \<longleftrightarrow> (\<forall>i \<in> set ids. \<not> cancellable ?q i)"
    using D(1) by (metis filter_empty_conv list.map_disc_iff)
  ultimately show ?thesis using C D F by (intro exI[of _ "bk_done b"] exI[of _ "bulkResultOf b"] exI[of _ "setQueue q' st"])
    (simp add: bulkResultOf_def bulkResultCode_def)
qed

theorem bulk_cancel_exact_witness:
  "\<exists>js res st'. handleJobsBulkCancel exampleServer exampleApiEnv (exampleRequest ''w1'' ''POST'' ''/jobs/cancel'' '''') exampleApiState =
      Answered (writeJSON 200 (BulkCancelBody js res)) st' \<and> map j_ID js = [''b''] \<and> fst ` set (br_Failed res) = {''c''} \<and>
      br_ResultCode res = ''BULK_PARTIAL_FAILURE''"
proof -
  let ?r = "exampleRequest ''w1'' ''POST'' ''/jobs/cancel'' ''''"
  define req where "req = \<lparr>qc_JobIDs = ['' b'', ''c''], qc_Status = '''', qc_WorkflowID = '''', qc_RequestID = '''',
     qc_Limit = 0, qc_Reason = ''stop''\<rparr>"
  have t: "trimSpace '' b'' = ''b''" "trimSpace ''c'' = ''c''" "trimSpace '''' = ''''" by code_simp+
  have req: "bd_bulkCancel (ae_json exampleApiEnv) (hr_Body ?r) = Inr req" by (simp add: exampleDecoders_def req_def)
  have ids: "givenJobIDs (qc_JobIDs req) = [''b'', ''c'']" "\<not> badJobStatus (qc_Status req)"
    by (simp_all add: req_def givenJobIDs_def badJobStatus_def t)
  have "case mq_jobs enqueuedQueue ''b'' of None \<Rightarrow> False | Some j \<Rightarrow> j_Status j \<noteq> RunJobStatusSucceeded" by code_simp
  then have "cancellable enqueuedQueue ''b''" by (auto simp: cancellable_def split: option.splits)
  moreover have "''c'' \<notin> dom (mq_jobs enqueuedQueue)" by (simp add: example_dom(1))
  then have "\<not> cancellable enqueuedQueue ''c''" by (auto simp: cancellable_def)
  moreover have "{i \<in> {''b'', ''c''}. \<not> cancellable enqueuedQueue i} = {''c''}" using calculation by auto
  moreover obtain js res st' where answer: "handleJobsBulkCancel exampleServer exampleApiEnv ?r exampleApiState =
      Answered (writeJSON 200 (BulkCancelBody js res)) st'" 
      and "map j_ID js = filter (cancellable enqueuedQueue) [''b'', ''c'']"
      "fst ` set (br_Failed res) = {i \<in> set [''b'', ''c'']. \<not> cancellable enqueuedQueue i}"
      "br_ResultCode res = (if \<forall>i \<in> set [''b'', ''c'']. cancellable enqueuedQueue i then ''BULK_OK''
       else if \<forall>i \<in> set [''b'', ''c'']. \<not> cancellable enqueuedQueue i then ''BULK_ALL_FAILED'' else ''BULK_PARTIAL_FAILURE'')"
    using bulk_cancel_exact[OF exampleServer_simps(2), of exampleApiState, unfolded exampleState_simps,
        OF example_reach(1) exampleRequest_simps(1) req ids(2,1)] by blast
  ultimately have "map j_ID js = [''b'']" "fst ` set (br_Failed res) = {''c''}" "br_ResultCode res = ''BULK_PARTIAL_FAILURE''"
    by simp_all
  then show ?thesis by (intro exI conjI) (rule answer)
qed



text \<open>The dry run of a purge foretells it: on the same queue, with the same filter and at the same instant, the purge
  deletes as many jobs as the dry run matched when a limit is given, and otherwise at most a thousand of them; the queue has that
  many jobs less. The dry run itself changes nothing.\<close>

theorem purge_dry_run_foretells:
  assumes "mqreach (queueOf st)" and "iterates (oe_ord (ae_op env1 0)) (mq_jobs (queueOf st))"
    and "iterates (oe_ord (ae_op env2 0)) (mq_jobs (queueOf st))" and "ae_now env1 0 = oe_now (ae_op env2 0) 0"
  shows "\<exists>matched deleted code1 code2 q'.
     purgeDryRun memoryQueue req d env1 st = Answered (writeJSON 200 (PurgeBody
       \<lparr>pr_Deleted = 0, pr_ResultCode = code1, pr_DryRun = Some True, pr_Matched = Some matched\<rparr>)) st \<and>
     purgeNow memoryQueue req d env2 st = Answered (writeJSON 200 (PurgeBody
       \<lparr>pr_Deleted = deleted, pr_ResultCode = code2, pr_DryRun = None, pr_Matched = None\<rparr>)) (setQueue q' st) \<and>
     deleted = (if 0 < qp_Limit req then matched else min matched 1000) \<and>
     int (card (dom (mq_jobs q'))) = int (card (dom (mq_jobs (queueOf st)))) - deleted"
proof -
  let ?q = "queueOf st"
  let ?P = "jobMatches (trimSpace (qp_Status req)) '''' '''' 0 (purgeCutoff (oe_now (ae_op env2 0) 0) d)"
  note inv = mqreach_inv[OF assms(1)]
  define n where "n = length (filter ?P (rangeValues (oe_ord (ae_op env2 0)) (mq_jobs ?q)))"
  have n: "length (filter ?P (rangeValues (oe_ord (ae_op env1 0)) (mq_jobs ?q))) = n"
    unfolding n_def using listing_unique[OF inv assms(2,3), of ?P] by (metis length_sortSlice)
  obtain q' where purge: "PurgeRunJobs (ae_op env2 0) (trimSpace (qp_Status req)) d (qp_Limit req) ?q =
      (Inr (min (purgeLimit (qp_Limit req)) n), q')"
    using purge_deletes[OF inv assms(3), of "trimSpace (qp_Status req)" d "qp_Limit req"] n_def by (metis prod.collapse)
  from purge_removes_oldest[OF assms(1,3) purge] obtain V where V: "min (purgeLimit (qp_Limit req)) n = card V"
    "mq_jobs q' = mq_jobs ?q |` (- V)" "V \<subseteq> dom (mq_jobs ?q)" by blast
  have "finite (dom (mq_jobs ?q))" using assms(3) by (metis iterates_def List.finite_set)
  moreover have "dom (mq_jobs q') = dom (mq_jobs ?q) - V" using V(2) by auto
  ultimately have size: "int (card (dom (mq_jobs q'))) = int (card (dom (mq_jobs ?q))) - int (card V)"
    using V(3) by (simp add: card_Diff_subset card_mono finite_subset of_nat_diff)
  have counted: "rq_CountRunJobsFiltered memoryQueue (ae_op env1 0) (trimSpace (qp_Status req)) '''' '''' 0
      (if 0 < d then ae_now env1 0 - d else 0) ?q = Inr n"
    unfolding assms(4) using n by (simp add: memoryQueue_def CountRunJobsFiltered_def purgeCutoff_def split del: if_split)
  define m where "m = (if 0 < qp_Limit req \<and> qp_Limit req < int n then qp_Limit req else int n)"
  have dry: "purgeDryRun memoryQueue req d env1 st = Answered (writeJSON 200 (PurgeBody
       \<lparr>pr_Deleted = 0, pr_ResultCode = if 0 < qp_Limit req \<and> qp_Limit req \<le> m then ''PURGE_DRY_RUN_LIMIT_REACHED'' else ''BULK_OK'',
        pr_DryRun = Some True, pr_Matched = Some m\<rparr>)) st"
    by (simp add: purgeDryRun_def counted m_def Let_def)
  obtain code2 where purged: "purgeNow memoryQueue req d env2 st = Answered (writeJSON 200 (PurgeBody
       \<lparr>pr_Deleted = int (card V), pr_ResultCode = code2, pr_DryRun = None, pr_Matched = None\<rparr>)) (setQueue q' st)"
    using purge V(1) by (simp add: purgeNow_def memoryQueue_def Let_def)
  have number: "int (card V) = (if 0 < qp_Limit req then m else min m 1000)"
    using V(1)[symmetric] by (auto simp: m_def purgeLimit_def min_def)
  show ?thesis by (intro exI conjI) (rule dry, rule purged, rule number, rule size)
qed

theorem purge_dry_run_foretells_witness:
  "\<exists>n code1 code2 q'.
     purgeDryRun memoryQueue \<lparr>qp_Status = ''QUEUED'', qp_OlderThan = '''', qp_Limit = 1, qp_DryRun = True\<rparr> 0
       (exampleApiEnv\<lparr>ae_now := (\<lambda>_. 100)\<rparr>) exampleApiState = Answered (writeJSON 200 (PurgeBody
         \<lparr>pr_Deleted = 0, pr_ResultCode = code1, pr_DryRun = Some True, pr_Matched = Some n\<rparr>)) exampleApiState \<and>
     purgeNow memoryQueue \<lparr>qp_Status = ''QUEUED'', qp_OlderThan = '''', qp_Limit = 1, qp_DryRun = True\<rparr> 0
       exampleApiEnv exampleApiState = Answered (writeJSON 200 (PurgeBody
         \<lparr>pr_Deleted = n, pr_ResultCode = code2, pr_DryRun = None, pr_Matched = None\<rparr>)) (setQueue q' exampleApiState)"
proof -
  let ?env = "exampleApiEnv\<lparr>ae_now := (\<lambda>_. 100)\<rparr>"
  let ?req = "\<lparr>qp_Status = ''QUEUED'', qp_OlderThan = '''', qp_Limit = 1, qp_DryRun = True\<rparr> :: purgeRequest"
  have "mqreach (queueOf exampleApiState)" "iterates (oe_ord (ae_op ?env 0)) (mq_jobs (queueOf exampleApiState))"
    "iterates (oe_ord (ae_op exampleApiEnv 0)) (mq_jobs (queueOf exampleApiState))" "ae_now ?env 0 = oe_now (ae_op exampleApiEnv 0) 0"
    using example_reach(1) example_dom(3) by (simp_all add: exampleApiEnv_def at_def)
  from purge_dry_run_foretells[OF this, of ?req 0] show ?thesis by (elim exE conjE) (simp, blast)
qed

section \<open>Workflow texts\<close>

lemma requestDuration_readsBack: "readsBack requestDuration"
proof -
  have "trimSpace (durationText d) \<noteq> ''''" for d
  proof -
    have "trimSpace (durationText d) = durationText d"
      using natDigits_head[of "nat d"] by (intro trimSpace_plain) (auto simp: durationText_def itoa_def printable_def isDigit_def)
    then show ?thesis by (simp add: durationText_def)
  qed
  then show ?thesis by (auto simp: readsBack_def requestDuration_def durationText_def int64_def parseDuration_itoa)
qed

lemma requestDuration_int64: "readsInt64 requestDuration"
  by (auto simp: readsInt64_def requestDuration_def int64_def parseDuration_range split: if_splits sum.splits)

text \<open>C21. A workflow written with its durations in nanoseconds is read back as it is, from a JSON file, from a YAML file and
  from the body of a request, as long as its durations are 64-bit values and the decoder gives back the configuration
  that was encoded; so the loader and the API agree on it.\<close>

theorem workflow_text_roundtrip:
  assumes "durationsFit w" and "fs path = Some content" and "io_read (ld_io env) = None"
    and "ld_yaml env content = Inr (configOf w)" and "ld_json env content = Inr (configOf w)" and "bd_workflow dec content = Inr (configOf w)"
  shows "LoadWorkflowFromFile env path fs = Inr w \<and> decodeWorkflowRequest dec content = Inr w"
  using assms
  by (simp add: LoadWorkflowFromFile_def decodeWorkflowFile_def decodeWorkflowRequest_def osReadFile_def
      readWorkflow_configOf[OF loadDuration_readsBack] readWorkflow_configOf[OF requestDuration_readsBack])

theorem workflow_text_roundtrip_witness:
  "LoadWorkflowFromFile \<lparr>ld_io = ioFine, ld_yaml = (\<lambda>_. Inr (configOf (examplePipeline ''ok''))),
     ld_json = (\<lambda>_. Inr (configOf (examplePipeline ''ok'')))\<rparr> ''deploy.yaml'' [''deploy.yaml'' \<mapsto> ''...''] = Inr (examplePipeline ''ok'')"
proof -
  have "durationsFit (examplePipeline ''ok'')"
    by (simp add: durationsFit_def examplePipeline_def exampleTask_def zeroTaskNode_def zeroCompensationSpec_def taskDurations_def int64_def)
  from workflow_text_roundtrip[OF this, of "[''deploy.yaml'' \<mapsto> ''...'']" "''deploy.yaml''" "''...''"
      "\<lparr>ld_io = ioFine, ld_yaml = (\<lambda>_. Inr (configOf (examplePipeline ''ok''))),
        ld_json = (\<lambda>_. Inr (configOf (examplePipeline ''ok'')))\<rparr>" exampleDecoders]
  show ?thesis by (simp add: ioFine_def exampleDecoders_def)
qed



section \<open>Pages\<close>

text \<open>Fetching all jobs page by page ends and is complete: over a reachable queue that fits the machine the loop
  returns every job of the status, each once, in the order of creation, whatever the size of the pages and the iteration
  orders of the calls.\<close>

theorem paged_listing_complete:
  assumes "mqreach q" and "\<And>k. iterates (oe_ord (op k)) (mq_jobs q)"
    and "int (card (dom (mq_jobs q))) + (if pageSize \<le> 0 then 500 else pageSize) \<le> maxInt64"
  shows "\<exists>jobs. listAllRunJobsPaged memoryQueue op status pageSize q = Some (PagedItems jobs) \<and> sorted_wrt jobLess jobs \<and>
     distinct (map j_ID jobs) \<and>
     set jobs = {j. mq_jobs q (j_ID j) = Some j \<and> (status = '''' \<or> runJobStatusString (j_Status j) = status)}"
proof -
  let ?P = "\<lambda>j. status = '''' \<or> runJobStatusString (j_Status j) = status"
  let ?jobs = "jobsWhere (oe_ord (op 0)) ?P q"
  note inv = mqreach_inv[OF assms(1)]
  note dist = rangeValues_jobs(2)[OF inv assms(2)[of 0], of ?P]
  have "sorted_wrt jobLess ?jobs" unfolding jobsWhere_def by (rule byCreationID.sortSlice_strictly[OF dist])
  moreover have "distinct (map j_ID ?jobs)" using dist by (simp add: jobsWhere_def)
  ultimately show ?thesis using listAllRunJobsPaged_exact[OF inv assms(2,3), of "\<lambda>k. k" status] set_jobsWhere[OF inv assms(2)[of 0], of ?P]
    by (intro exI[of _ ?jobs]) simp
qed

theorem paged_listing_complete_witness:
  "\<exists>jobs. listAllRunJobsPaged memoryQueue (\<lambda>_. at 50 [''b'', ''a'']) '''' 1 enqueuedQueue = Some (PagedItems jobs) \<and> distinct (map j_ID jobs)"
  using paged_listing_complete[OF example_reach(1), of "\<lambda>_. at 50 [''b'', ''a'']" 1 "''''"] example_dom(1,3) by auto

section \<open>Status filters\<close>

lemma runJobStatusString_upper: "toUpper (runJobStatusString x) = runJobStatusString x"
proof -
  have "list_all (\<lambda>x. toUpper (runJobStatusString x) = runJobStatusString x) [RunJobStatusUnset, RunJobStatusQueued, RunJobStatusLeased,
      RunJobStatusSucceeded, RunJobStatusFailed, RunJobStatusDead, RunJobStatusCancelled]" by code_simp
  then show ?thesis by (cases x) simp_all
qed

lemma no_job_of_lower_status:
  assumes "toUpper status \<noteq> status"
  shows "filter (jobMatches status w i a b) jobs = []"
proof -
  have "status \<noteq> ''''" using assms by (auto simp: toUpper_def)
  moreover have "runJobStatusString x \<noteq> status" for x using assms runJobStatusString_upper[of x] by auto
  ultimately show ?thesis by (simp add: filter_empty_conv jobMatches_def)
qed

text \<open>C23. The job listing accepts a status in any case but compares it as it is given: for a valid status that is not in
  upper case the request is answered 200 with an empty list and the total 0, whatever jobs the queue holds.\<close>

theorem lower_case_status_lists_nothing:
  assumes "sv_queue s = Some memoryQueue" and "hr_Method r = ''GET''" and "trimSpace (queryGet r ''status'') = status"
    and "isValidRunJobStatus status" and "toUpper status \<noteq> status"
    and "readWindow ''updatedAfter'' ''updatedBefore'' r = Inr window" and "\<not> windowReversed window"
  shows "\<exists>jobs. handleJobs s env r st = Answered (writeJSON 200 (JobsBody jobs)) st \<and>
     jobs = (if useListEnvelope r
             then EnvelopeList \<lparr>lr_Items = [], lr_Total = 0, lr_Limit = parseLimit r, lr_Offset = parseOffset r, lr_Returned = 0\<rparr>
             else PlainList [])"
proof -
  have "sliceWindow ([] :: RunQueueJob list) limit (parseOffset r) = Some []" for limit
    using parseOffset_bounds[of r] by (simp add: sliceWindow_def Let_def)
  then show ?thesis
    using assms by (simp add: handleJobs_def listJobs_def memoryQueue_def ListRunJobsFiltered_def CountRunJobsFiltered_def
        no_job_of_lower_status parseLimitOffset_def writeListResponse_def Let_def)
qed

theorem lower_case_status_lists_nothing_witness:
  "handleJobs exampleServer exampleApiEnv ((exampleRequest ''r1'' ''GET'' ''/jobs'' '''')\<lparr>hr_Query := [(''status'', ''queued'')]\<rparr>)
     exampleApiState = Answered (writeJSON 200 (JobsBody (PlainList []))) exampleApiState"
proof -
  let ?r = "(exampleRequest ''r1'' ''GET'' ''/jobs'' '''')\<lparr>hr_Query := [(''status'', ''queued'')]\<rparr>"
  have t: "trimSpace '''' = ''''" "trimSpace ''queued'' = ''queued''" "toUpper ''queued'' = ''QUEUED''" "isValidRunJobStatus ''queued''"
    by code_simp+
  have "trimSpace (queryGet ?r ''status'') = ''queued''" "readWindow ''updatedAfter'' ''updatedBefore'' ?r = Inr ((0, False), (0, False))"
    "\<not> windowReversed ((0, False), (0, False))" "\<not> useListEnvelope ?r" "hr_Method ?r = ''GET''"
    by (simp_all add: queryGet_def headerGet_def lookupOrEmpty_def readWindow_def parseOptionalTime_def windowReversed_def useListEnvelope_def
        parseOptionalBool_def exampleRequest_def t)
  with lower_case_status_lists_nothing[OF exampleServer_simps(2), of ?r "''queued''" "((0, False), (0, False))" exampleApiEnv exampleApiState] t
  show ?thesis by simp
qed

section \<open>Start-up\<close>

lemma probePorts_first:
  "probePorts check host port steps = Some a \<Longrightarrow>
   \<exists>as n bs. steps = as @ n # bs \<and> a = candidateAddr host port n \<and> check n a = None \<and>
     (\<forall>k \<in> set as. check k (candidateAddr host port k) \<noteq> None)"
proof (induction steps)
  case (Cons n steps)
  show ?case
  proof (cases "check n (candidateAddr host port n) = None")
    case True
    with Cons.prems show ?thesis by (intro exI[of _ "[]"]) auto
  next
    case False
    with Cons obtain as m bs where "steps = as @ m # bs" "a = candidateAddr host port m" "check m a = None"
      "\<forall>k \<in> set as. check k (candidateAddr host port k) \<noteq> None" by auto
    with False show ?thesis by (intro exI[of _ "n # as"] exI[of _ m] exI[of _ bs]) auto
  qed
qed simp

text \<open>The address the server listens on was found free: it is the given one, or, with the automatic choice of a port, the first
  free one among the ports above it, at most \<^verbatim>\<open>maxOffset\<close> (twenty if that is not positive) away.\<close>

theorem resolved_address_is_free:
  assumes "resolveAPIAddrWithCheck addr autoPort maxOffset check = Inr a"
  shows "a = addr \<and> check 0 addr = None \<or>
    autoPort \<and> check 0 addr \<noteq> None \<and>
    (\<exists>host port n. 1 \<le> n \<and> int n \<le> (if maxOffset \<le> 0 then 20 else maxOffset) \<and> a = candidateAddr host port n \<and> check n a = None \<and>
       (\<forall>k. 1 \<le> k \<and> k < n \<longrightarrow> check k (candidateAddr host port k) \<noteq> None))"
proof (cases "check 0 addr")
  case (Some err)
  define m where "m = (if maxOffset \<le> 0 then 20 else maxOffset)"
  have m: "0 < m" by (simp add: m_def)
  from assms Some obtain host port where auto: autoPort and p: "probePorts check host port [1..<Suc (nat m)] = Some a"
    by (auto simp: resolveAPIAddrWithCheck_def m_def Let_def split: if_splits option.splits sum.splits)
  from probePorts_first[OF p] obtain as n bs where split: "[1..<Suc (nat m)] = as @ n # bs"
    and a: "a = candidateAddr host port n" "check n a = None"
    and before: "\<forall>k \<in> set as. check k (candidateAddr host port k) \<noteq> None" by blast
  have "n \<in> set [1..<Suc (nat m)]" unfolding split by simp
  then have n: "1 \<le> n" "int n \<le> m" using m by auto
  have "k \<in> set as" if "1 \<le> k" "k < n" for k
  proof -
    have "k \<in> set (as @ n # bs)" unfolding split[symmetric] using that n by auto
    moreover have "sorted_wrt (<) (as @ n # bs)" unfolding split[symmetric] by (rule sorted_wrt_upt)
    ultimately show ?thesis using that by (auto simp: sorted_wrt_append)
  qed
  with auto a before n Some show ?thesis unfolding m_def[symmetric] by blast
qed (use assms in \<open>simp add: resolveAPIAddrWithCheck_def\<close>)

text \<open>A patch changes only what it names: an empty one changes nothing.\<close>

theorem empty_patch_keeps_workflow:
  "applyPatch \<lparr>wp_ID = None, wp_Name = None, wp_Description = None, wp_Version = None, wp_MaxConcurrency = None,
     wp_FailFast = None, wp_CompensateOnFailure = None, wp_Timeout = None, wp_Tasks = None\<rparr> w = Inr w"
  by (simp add: applyPatch_def patchTimeout_def patched_def)

text \<open>The collision of idempotency keys: the id of a run does not separate the workflow's id from the key.\<close>

theorem run_ids_collide: "deterministicRunID ''a|b'' ''c'' = deterministicRunID ''a'' ''b|c''"
  by (simp add: deterministicRunID_def)

end
