(* ===== verification/Program.thy ===== *)
theory Program
  imports Orchestrator
begin

text \<open>
  The program itself: \<^verbatim>\<open>main\<close> of \<^verbatim>\<open>cmd/orchestrator/main.go\<close>, from the loading of the workflow to the end of its mode. After the
  persistence is chosen the code works on the interfaces, so the modes are written over a store and a queue of any
  kind. The goroutines of a process are events: executions of schedules in three sections each, requests, and
  ticks of the retention. \<^verbatim>\<open>log.Fatalf\<close> ends the program with a message; what was printed before is kept.
\<close>

section \<open>Outcomes\<close>

text \<open>How the program ends: by \<^verbatim>\<open>log.Fatal\<close> or by returning from \<^verbatim>\<open>main\<close>, with the text on the standard output, or not yet.\<close>

datatype 'w mainOutcome =
    MainFatal string error
  | MainReturns string 'w
  | MainGoesOn

definition newline :: string where
  "newline = [CHR 0x0A]"

text \<open>\<^verbatim>\<open>json.MarshalIndent\<close> is given.\<close>

definition printRun :: "(Run \<Rightarrow> error + string) \<Rightarrow> Run \<Rightarrow> error + string" where
  "printRun marshalIndent run =
     (case marshalIndent run of
        Inl err \<Rightarrow> Inl (''marshal run: '' @ err)
      | Inr output \<Rightarrow> Inr (output @ newline))"

text \<open>Print a run after what is on the output already, and return.\<close>

definition printAndReturn :: "(Run \<Rightarrow> error + string) \<Rightarrow> string \<Rightarrow> Run \<Rightarrow> 'w \<Rightarrow> 'w mainOutcome" where
  "printAndReturn marshalIndent out run w =
     (case printRun marshalIndent run of Inl err \<Rightarrow> MainFatal out err | Inr text \<Rightarrow> MainReturns (out @ text) w)"

section \<open>Start-up\<close>

text \<open>From saving the workflow to the collector: the executor works on the built-in actions and the store.\<close>

definition mainSetup ::
  "'s WorkflowStore \<Rightarrow> opEnv \<Rightarrow> Workflow \<Rightarrow> 's \<Rightarrow> 'q \<Rightarrow> error + (builtinEnv, 's) Executor \<times> ('s, 'q) world" where
  "mainSetup store op w s q =
     (case ws_SaveWorkflow store op w s of
        (Some err, s') \<Rightarrow> Inl (''save workflow: '' @ err)
      | (None, s') \<Rightarrow>
          Inr (\<lparr>ex_registry = RegisterBuiltins NewRegistry, ex_store = Some store\<rparr>,
               \<lparr>wd_queue = q, wd_store = s', wd_metrics = Some NewCollector\<rparr>))"

text \<open>The mode that \<^verbatim>\<open>main\<close> switches on.\<close>

datatype runMode = ModeRun | ModeSchedule | ModeServe | ModeWorker

definition selectMode :: "string \<Rightarrow> error + runMode" where
  "selectMode mode =
     (if mode = ''run'' then Inr ModeRun else if mode = ''schedule'' then Inr ModeSchedule
      else if mode = ''serve'' then Inr ModeServe else if mode = ''worker'' then Inr ModeWorker
      else Inl (''unsupported mode: '' @ mode))"

section \<open>Mode run\<close>

definition mainRun ::
  "(Run \<Rightarrow> error + string) \<Rightarrow> ('e, 's) Executor \<Rightarrow> 'e runEnv \<Rightarrow> Workflow \<Rightarrow> ('s, 'q) world \<Rightarrow> ('s, 'q) world mainOutcome" where
  "mainRun marshalIndent executor env w wd =
     (case ExecutorRun executor env w (wd_store wd) (wd_metrics wd) of
        RunReturned run (Some err) s m \<Rightarrow> MainFatal '''' (''execute workflow: '' @ err)
      | RunReturned run None s m \<Rightarrow> printAndReturn marshalIndent '''' run (wd\<lparr>wd_store := s, wd_metrics := m\<rparr>)
      | _ \<Rightarrow> MainGoesOn)"

section \<open>Executions of schedules\<close>

text \<open>The goroutines of a started scheduler call \<^verbatim>\<open>executeOnce\<close>, whose three sections are events of their own: the guards, the
  work, and the reset. Which trigger fires when is given; an execution that has begun is in \<open>tr_begun\<close>, one that has done its work
  in \<open>tr_worked\<close>.\<close>

datatype 'e triggerEvent = TriggerBegin ScheduleConfig | TriggerWork "'e onceEnv" ScheduleConfig | TriggerEnd ScheduleConfig

record flight =
  tr_begun :: "ScheduleConfig list"
  tr_worked :: "ScheduleConfig list"

fun triggerStep ::
  "'e triggerEvent \<Rightarrow> ('e, 's, 'q, 'c) SchedulerService \<times> ('s, 'q) world \<times> flight \<Rightarrow>
   (('e, 's, 'q, 'c) SchedulerService \<times> ('s, 'q) world \<times> flight) option" where
  "triggerStep (TriggerBegin cfg) (s, w, fl) =
     (case executeBegin cfg s of
        (True, s') \<Rightarrow> Some (s', w, fl\<lparr>tr_begun := cfg # tr_begun fl\<rparr>)
      | (False, s') \<Rightarrow> Some (s', w, fl))"
| "triggerStep (TriggerWork env cfg) (s, w, fl) =
     (if cfg \<notin> set (tr_begun fl) then Some (s, w, fl)
      else case executeBody s env cfg w of
             None \<Rightarrow> None
           | Some (r, w') \<Rightarrow> Some (s, w', fl\<lparr>tr_begun := remove1 cfg (tr_begun fl), tr_worked := cfg # tr_worked fl\<rparr>))"
| "triggerStep (TriggerEnd cfg) (s, w, fl) =
     (if cfg \<notin> set (tr_worked fl) then Some (s, w, fl)
      else Some (executeEnd cfg s, w, fl\<lparr>tr_worked := remove1 cfg (tr_worked fl)\<rparr>))"

fun triggerSteps ::
  "'e triggerEvent list \<Rightarrow> ('e, 's, 'q, 'c) SchedulerService \<times> ('s, 'q) world \<times> flight \<Rightarrow>
   (('e, 's, 'q, 'c) SchedulerService \<times> ('s, 'q) world \<times> flight) option" where
  "triggerSteps [] x = Some x"
| "triggerSteps (ev # evs) x = (case triggerStep ev x of None \<Rightarrow> None | Some y \<Rightarrow> triggerSteps evs y)"

definition noFlight :: flight where
  "noFlight = \<lparr>tr_begun = [], tr_worked = []\<rparr>"

section \<open>Mode schedule\<close>

text \<open>The scheduler of the modes \<^verbatim>\<open>schedule\<close> and \<^verbatim>\<open>serve\<close>, before it is started.\<close>

definition newScheduler ::
  "scEnv \<Rightarrow> mainFlags \<Rightarrow> ('e, 's) Executor \<Rightarrow> 's WorkflowStore \<Rightarrow> 'q RunQueue \<Rightarrow> 'c \<Rightarrow> fileSystem \<Rightarrow> ('e, 's, 'q, 'c) scState" where
  "newScheduler e fl executor store queue cronEngine fs =
     SetScheduleStorePath e (fl_scheduleStoreFile fl)
       (SetLeaderLockPath (fl_schedulerLockFile fl) (SetRunQueue queue (NewSchedulerService executor store cronEngine)), fs)"

definition mainScheduleConfig :: "mainFlags \<Rightarrow> Workflow \<Rightarrow> ScheduleConfig" where
  "mainScheduleConfig fl w =
     \<lparr>s_WorkflowID = w_ID w, s_Interval = fl_interval fl, s_Cron = fl_cronExpr fl, s_RunOnStartup = fl_runOnStartup fl,
      s_AllowOverlap = fl_allowOverlap fl\<rparr>"

text \<open>The started scheduler.\<close>

definition scheduleStarted ::
  "'c Cron \<Rightarrow> scEnv \<Rightarrow> scEnv \<Rightarrow> scEnv \<Rightarrow> mainFlags \<Rightarrow> Workflow \<Rightarrow> ('e, 's) Executor \<Rightarrow> 's WorkflowStore \<Rightarrow> 'q RunQueue \<Rightarrow>
   'c \<Rightarrow> fileSystem \<Rightarrow> error + ('e, 's, 'q, 'c) scState" where
  "scheduleStarted cr e1 e2 e3 fl w executor store queue cronEngine fs =
     (case RegisterSchedule cr e2 (mainScheduleConfig fl w) (newScheduler e1 fl executor store queue cronEngine fs) of
        (Some err, _) \<Rightarrow> Inl (''register schedule: '' @ err)
      | (None, sf) \<Rightarrow> Inr (SchedulerStart cr e3 sf))"

text \<open>What the mode prints when its time is over: the number of runs and the last of them.\<close>

definition scheduleReport ::
  "(Run \<Rightarrow> error + string) \<Rightarrow> 's WorkflowStore \<Rightarrow> opEnv \<Rightarrow> Workflow \<Rightarrow> ('s, 'q) world \<Rightarrow> ('s, 'q) world mainOutcome" where
  "scheduleReport marshalIndent store op w wd =
     (case ws_ListRuns store op (w_ID w) (wd_store wd) of
        Inl err \<Rightarrow> MainFatal '''' (''list runs: '' @ err)
      | Inr runs \<Rightarrow>
          (let out = ''scheduled run count: '' @ itoa (int (length runs)) @ newline
           in if runs = [] then MainReturns out wd else printAndReturn marshalIndent out (last runs) wd))"

text \<open>The waiting for the end of the context is the list of the executions that happen until then.\<close>

definition mainSchedule ::
  "(Run \<Rightarrow> error + string) \<Rightarrow> 'c Cron \<Rightarrow> scEnv \<Rightarrow> scEnv \<Rightarrow> scEnv \<Rightarrow> opEnv \<Rightarrow> 'e triggerEvent list \<Rightarrow> mainFlags \<Rightarrow> Workflow \<Rightarrow>
   ('e, 's) Executor \<Rightarrow> 's WorkflowStore \<Rightarrow> 'q RunQueue \<Rightarrow> 'c \<Rightarrow> fileSystem \<Rightarrow> ('s, 'q) world \<Rightarrow> ('s, 'q) world mainOutcome" where
  "mainSchedule marshalIndent cr e1 e2 e3 op evs fl w executor store queue cronEngine fs wd =
     (case scheduleStarted cr e1 e2 e3 fl w executor store queue cronEngine fs of
        Inl err \<Rightarrow> MainFatal '''' err
      | Inr (svc, fs') \<Rightarrow>
          (case triggerSteps evs (svc, wd, noFlight) of
             None \<Rightarrow> MainGoesOn
           | Some (svc', wd', _) \<Rightarrow> scheduleReport marshalIndent store op w wd'))"

section \<open>Mode serve\<close>

text \<open>The server, the address it is to listen on, and the state its handlers work on.\<close>

definition serveStarted ::
  "(nat \<Rightarrow> string \<Rightarrow> error option) \<Rightarrow> (nat \<Rightarrow> string \<Rightarrow> error option) \<Rightarrow> 'c Cron \<Rightarrow> scEnv \<Rightarrow> scEnv \<Rightarrow> gotime \<Rightarrow> (string \<rightharpoonup> string) \<Rightarrow> mainFlags \<Rightarrow>
   ('e, 's) Executor \<Rightarrow> 's WorkflowStore \<Rightarrow> 'q RunQueue \<Rightarrow> 'c \<Rightarrow> fileSystem \<Rightarrow> ('s, 'q) world \<Rightarrow>
   error + string \<times> ('e, 's, 'q) Server \<times> ('e, 's, 'q, 'c) apiState" where
  "serveStarted listen close cr e1 e2 now getenv fl executor store queue cronEngine fs wd =
     (case resolveAPIAddr listen close (fl_apiAddr fl) (fl_apiAutoPort fl) (fl_apiAutoPortMaxOffset fl) of
        Inl err \<Rightarrow> Inl (apiServerStartError (fl_apiAddr fl) (Some err))
      | Inr addr \<Rightarrow>
          (let sf = SchedulerStart cr e2 (newScheduler e1 fl executor store queue cronEngine fs);
               server = NewServer now addr (authConfigOf getenv fl) store (Some queue) executor;
               server = (if fl_queueRetentionEnabled fl
                         then SetQueueRetention (fl_queueRetentionStatus fl) (fl_queueRetentionOlderThan fl)
                                (fl_queueRetentionInterval fl) (fl_queueRetentionBatch fl) server
                         else server)
           in Inr (addr, server, \<lparr>as_world = wd, as_sched = Some sf\<rparr>)))"

text \<open>What happens while the server runs: a request, a tick of the retention loop (if it was started), or an execution of a
  schedule. \<^const>\<open>None\<close>: a run for which a request waits does not return.\<close>

datatype ('e, 'c) serveEvent =
    ServeRequest "('e, 'c) apiEnv" httpRequest
  | ServeRetention opEnv
  | ServeTrigger "'e triggerEvent"

definition retentionOn :: "('e, 's, 'q) Server \<Rightarrow> bool" where
  "retentionOn server = fst (ServerStart server StartCtxDone)"

fun serveStep ::
  "('e, 's, 'q) Server \<Rightarrow> ('e, 'c) serveEvent \<Rightarrow> ('e, 's, 'q, 'c) apiState \<times> flight \<Rightarrow>
   (('e, 's, 'q, 'c) apiState \<times> flight) option" where
  "serveStep server (ServeRequest env r) (st, fl) =
     (case ServeHTTP server env r st of
        Answered resp st' \<Rightarrow> Some (st', fl)
      | Panicked st' \<Rightarrow> Some (st', fl)
      | NoAnswer \<Rightarrow> None)"
| "serveStep server (ServeRetention op) (st, fl) =
     (case sv_queue server of
        None \<Rightarrow> Some (st, fl)
      | Some queue \<Rightarrow>
          if retentionOn server
          then Some (setQueue (snd (runQueueRetentionLoop server queue [RetentionTick op] (queueOf st))) st, fl)
          else Some (st, fl))"
| "serveStep server (ServeTrigger ev) (st, fl) =
     (case as_sched st of
        None \<Rightarrow> Some (st, fl)
      | Some (svc, fs) \<Rightarrow>
          (case triggerStep ev (svc, as_world st, fl) of
             None \<Rightarrow> None
           | Some (svc', w', fl') \<Rightarrow> Some (\<lparr>as_world = w', as_sched = Some (svc', fs)\<rparr>, fl')))"

fun serveSteps ::
  "('e, 's, 'q) Server \<Rightarrow> ('e, 'c) serveEvent list \<Rightarrow> ('e, 's, 'q, 'c) apiState \<times> flight \<Rightarrow>
   (('e, 's, 'q, 'c) apiState \<times> flight) option" where
  "serveSteps server [] x = Some x"
| "serveSteps server (ev # evs) x = (case serveStep server ev x of None \<Rightarrow> None | Some y \<Rightarrow> serveSteps server evs y)"

text \<open>\<^verbatim>\<open>Start\<close> of the server returns after the events; \<^const>\<open>None\<close> for its result: it has not returned yet.\<close>

definition mainServe ::
  "(nat \<Rightarrow> string \<Rightarrow> error option) \<Rightarrow> (nat \<Rightarrow> string \<Rightarrow> error option) \<Rightarrow> 'c Cron \<Rightarrow> scEnv \<Rightarrow> scEnv \<Rightarrow> gotime \<Rightarrow>
   (string \<rightharpoonup> string) \<Rightarrow> ('e, 'c) serveEvent list \<Rightarrow> startEvent option \<Rightarrow> mainFlags \<Rightarrow> ('e, 's) Executor \<Rightarrow> 's WorkflowStore \<Rightarrow> 'q RunQueue \<Rightarrow> 'c \<Rightarrow> fileSystem \<Rightarrow> ('s, 'q) world \<Rightarrow>
   ('s, 'q) world mainOutcome" where
  "mainServe listen close cr e1 e2 now getenv evs stop fl executor store queue cronEngine fs wd =
     (case serveStarted listen close cr e1 e2 now getenv fl executor store queue cronEngine fs wd of
        Inl err \<Rightarrow> MainFatal '''' err
      | Inr (addr, server, st) \<Rightarrow>
          (case serveSteps server evs (st, noFlight) of
             None \<Rightarrow> MainGoesOn
           | Some (st', _) \<Rightarrow>
               (let out = ''api listening on '' @ addr @ newline
                in case stop of
                     None \<Rightarrow> MainGoesOn
                   | Some ev \<Rightarrow>
                       (case ServerStart server ev of
                          (_, Some err) \<Rightarrow> MainFatal out (apiServerStartError addr (Some err))
                        | (_, None) \<Rightarrow> MainReturns out (as_world st')))))"

section \<open>Mode worker\<close>

definition newWorker ::
  "gotime \<Rightarrow> mainFlags \<Rightarrow> 'q RunQueue \<Rightarrow> 's WorkflowStore \<Rightarrow> ('e, 's) Executor \<Rightarrow> ('e, 's, 'q) WorkerService" where
  "newWorker now fl queue store executor =
     SetPolling (fl_workerPoll fl) (fl_workerLease fl) (NewWorkerService now (fl_workerID fl) queue store executor)"

text \<open>The goroutine that waits for the signal, calls \<^verbatim>\<open>Drain\<close> and later cancels the worker's context, seen from the turns of the
  polling loop: whether the signal has come when the loop looks at the flag, whether it comes during the turn, and whether
  the grace period is over and the context done when the loop waits for the ticker. The context is not cancelled before
  the signal.\<close>

record ('e, 'q) workerTurn =
  wt_signalBefore :: bool
  wt_env :: "('e, 'q) procEnv"
  wt_signalDuring :: bool
  wt_cancelled :: bool

fun drainTurns :: "bool \<Rightarrow> ('e, 'q) workerTurn list \<Rightarrow> ('e, 'q) loopTurn list" where
  "drainTurns signalled [] = []"
| "drainTurns signalled (t # ts) =
     (let before = signalled \<or> wt_signalBefore t; during = before \<or> wt_signalDuring t
      in \<lparr>lt_draining = before, lt_env = wt_env t, lt_ctxDone = (during \<and> wt_cancelled t)\<rparr> # drainTurns during ts)"

definition mainWorker ::
  "gotime \<Rightarrow> ('e, 'q) workerTurn list \<Rightarrow> mainFlags \<Rightarrow> ('e, 's) Executor \<Rightarrow> 's WorkflowStore \<Rightarrow> 'q RunQueue option \<Rightarrow>
   ('s, 'q) world \<Rightarrow> ('s, 'q) world mainOutcome" where
  "mainWorker now turns fl executor store runQueue wd =
     (case runQueue of
        None \<Rightarrow> MainFatal '''' ''worker mode requires a configured queue''
      | Some queue \<Rightarrow>
          (case WorkerStart (newWorker now fl queue store executor) (drainTurns False turns) wd of
             None \<Rightarrow> MainGoesOn
           | Some wd' \<Rightarrow> MainReturns '''' wd'))"

section \<open>The whole program\<close>

text \<open>What the surroundings decide after the persistence is chosen.\<close>

record ('q, 'c) modeEnv =
  me_save :: opEnv
  me_marshalIndent :: "Run \<Rightarrow> error + string"
  me_run :: "builtinEnv runEnv"
  me_cron :: "'c Cron"
  me_cronEngine :: 'c
  me_path :: scEnv
  me_register :: scEnv
  me_start :: scEnv
  me_triggers :: "builtinEnv triggerEvent list"
  me_list :: opEnv
  me_listen :: "nat \<Rightarrow> string \<Rightarrow> error option"
  me_close :: "nat \<Rightarrow> string \<Rightarrow> error option"
  me_now :: gotime
  me_getenv :: "string \<rightharpoonup> string"
  me_events :: "(builtinEnv, 'c) serveEvent list"
  me_stop :: "startEvent option"
  me_turns :: "(builtinEnv, 'q) workerTurn list"

definition mainModes ::
  "('q, 'c) modeEnv \<Rightarrow> mainFlags \<Rightarrow> Workflow \<Rightarrow> 's WorkflowStore \<Rightarrow> 'q RunQueue \<Rightarrow> fileSystem \<Rightarrow> 's \<Rightarrow> 'q \<Rightarrow>
   ('s, 'q) world mainOutcome" where
  "mainModes env fl w store queue fs s q =
     (case mainSetup store (me_save env) w s q of
        Inl err \<Rightarrow> MainFatal '''' err
      | Inr (executor, wd) \<Rightarrow>
          (case selectMode (fl_mode fl) of
             Inl err \<Rightarrow> MainFatal '''' err
           | Inr ModeRun \<Rightarrow> mainRun (me_marshalIndent env) executor (me_run env) w wd
           | Inr ModeSchedule \<Rightarrow>
               mainSchedule (me_marshalIndent env) (me_cron env) (me_path env) (me_register env) (me_start env) (me_list env)
                 (me_triggers env) fl w executor store queue (me_cronEngine env) fs wd
           | Inr ModeServe \<Rightarrow>
               mainServe (me_listen env) (me_close env) (me_cron env) (me_path env) (me_start env) (me_now env) (me_getenv env) (me_events env)
                 (me_stop env) fl executor store queue (me_cronEngine env) fs wd
           | Inr ModeWorker \<Rightarrow> mainWorker (me_now env) (me_turns env) fl executor store (Some queue) wd))"

text \<open>With the database, the store and the queue are one object; they use different tables, so the model gives each its own
  copy, as the scheduler and the file store have their own view of the file system, since they use different files.\<close>

datatype programOutcome =
    StartFails error
  | OnSQLite "(SQLiteStore, SQLiteStore) world mainOutcome"
  | OnFiles "(fileState, MemoryRunQueue) world mainOutcome"

record 'c programEnv =
  pg_loader :: loaderEnv
  pg_open :: openEnv
  pg_onDisk :: SQLiteStore
  pg_codecs :: sqlCodecs
  pg_db :: "opEnv \<Rightarrow> dbEnv"
  pg_sqlite :: "(SQLiteStore, 'c) modeEnv"
  pg_codec :: "persistedSnapshot codec"
  pg_io :: ioEnv
  pg_load :: opEnv
  pg_ioOf :: "opEnv \<Rightarrow> ioEnv"
  pg_files :: "(MemoryRunQueue, 'c) modeEnv"

definition main :: "'c programEnv \<Rightarrow> mainFlags \<Rightarrow> fileSystem \<Rightarrow> programOutcome" where
  "main env fl fs =
     (case LoadWorkflowFromFile (pg_loader env) (fl_workflowFile fl) fs of
        Inl err \<Rightarrow> StartFails (''load workflow: '' @ err)
      | Inr w \<Rightarrow>
          (case buildPersistence (pg_open env) (pg_onDisk env) (pg_codec env) (pg_io env) (pg_load env) fs
                  (fl_storeBackend fl) (fl_dataDir fl) (fl_sqlitePath fl) of
             Inl err \<Rightarrow> StartFails (''init persistence: '' @ err)
           | Inr (SQLiteBackend db) \<Rightarrow>
               OnSQLite (mainModes (pg_sqlite env) fl w (sqliteStore (pg_codecs env) (pg_db env)) (sqliteQueue (pg_db env)) fs db db)
           | Inr (FileBackend store queue) \<Rightarrow>
               OnFiles (mainModes (pg_files env) fl w (fileStore (pg_codec env) (pg_ioOf env)) memoryQueue fs (store, fs) queue)))"

end
