(* ===== verification/ProgramInv.thy ===== *)
theory ProgramInv
  imports Program ApiProperties
begin

text \<open>
  Facts about the running program: the scheduler keeps the executor, the store and the queue it was given, whatever is
  asked of it; what the events of a process do to the queue and to the store; and how the modes end.
\<close>

section \<open>The wiring of the scheduler\<close>

definition wiring :: "('e, 's, 'q, 'c) SchedulerService \<Rightarrow> ('e, 's) Executor \<times> 's WorkflowStore \<times> 'q RunQueue option" where
  "wiring s = (sc_executor s, sc_store s, sc_queue s)"

named_theorems wired "operations that keep the wiring of the scheduler"

lemma wiring_load [wired]: "wiring (snd (loadLocked e fs s)) = wiring s"
  by (auto simp: wiring_def loadLocked_def split: sum.splits fileError.splits)

lemma wiring_unschedule [wired]: "wiring (unscheduleLocked cr i s) = wiring s"
  by (simp add: wiring_def unscheduleLocked_def cancelLoop_def Let_def split: option.splits)

lemma wiring_startJob [wired]: "wiring (snd (startJobLocked cr job s)) = wiring s"
  using wiring_unschedule[of cr "s_WorkflowID job" s]
  by (auto simp: wiring_def startJobLocked_def Let_def split: sum.splits prod.splits)

lemma wiring_storePath [wired]: "wiring (fst (SetScheduleStorePath e path sf)) = wiring (fst sf)"
  by (cases sf) (simp add: SetScheduleStorePath_def wired, simp add: wiring_def)

lemma wiring_pause [wired]: "wiring (fst (snd (Pause e i sf))) = wiring (fst sf)"
  by (cases sf) (simp add: Pause_def wiring_def Let_def)

lemma wiring_resume [wired]: "wiring (fst (snd (Resume e i sf))) = wiring (fst sf)"
  by (cases sf) (simp add: Resume_def wiring_def Let_def)

lemma wiring_register [wired]: "wiring (fst (snd (RegisterSchedule cr e cfg sf))) = wiring (fst sf)"
proof (cases sf)
  case (Pair s fs)
  let ?s = "(unscheduleLocked cr (s_WorkflowID cfg) s)\<lparr>sc_jobs := (sc_jobs s)(s_WorkflowID cfg \<mapsto> cfg)\<rparr>"
  have "wiring ?s = wiring s" using wiring_unschedule[of cr "s_WorkflowID cfg" s] by (simp add: wiring_def)
  with wiring_startJob[of cr cfg ?s] show ?thesis
    by (cases "checkSchedule cfg") (simp_all add: Pair register_eq Let_def, simp add: RegisterSchedule_def)
qed

lemma wiring_unregister [wired]: "wiring (fst (Unregister cr e i sf)) = wiring (fst sf)"
  by (cases sf) (simp add: Unregister_def Let_def wired, simp add: wiring_def)

lemma wiring_lock [wired]: "wiring (fst (snd (tryAcquireLeaderLockLocked io sf))) = wiring (fst sf)"
  by (cases sf) (simp add: tryAcquireLeaderLockLocked_def wiring_def split: option.splits prod.splits)

lemma wiring_startAll [wired]: "wiring (fst (fold (startOne cr) jobs sf)) = wiring (fst sf)"
  by (induction jobs arbitrary: sf) (simp_all add: startOne_def wired split: prod.splits)

lemma wiring_start [wired]: "wiring (fst (SchedulerStart cr e sf)) = wiring (fst sf)"
proof -
  have "wiring (fst (snd (startBegin cr e sf))) = wiring (fst sf)"
  proof (cases sf)
    case (Pair s0 fs)
    obtain ok s fs' where l: "tryAcquireLeaderLockLocked (se_io e) (snd (loadLocked e fs s0), fs) = (ok, (s, fs'))"
      by (metis prod.collapse)
    have "wiring s = wiring s0"
      using wiring_lock[of "se_io e" "(snd (loadLocked e fs s0), fs)"] by (simp add: l wired)
    then show ?thesis by (cases ok) (simp_all add: Pair startBegin_def l, simp_all add: wiring_def)
  qed
  then show ?thesis by (auto simp: SchedulerStart_def wired split: prod.splits)
qed

lemma wiring_begin [wired]: "wiring (snd (executeBegin cfg s)) = wiring s"
  by (simp add: executeBegin_def wiring_def)

lemma wiring_end [wired]: "wiring (executeEnd cfg s) = wiring s"
  by (simp add: executeEnd_def wiring_def)

lemma wiring_new: "wiring (fst (newScheduler e fl ex store queue c fs)) = (ex, store, Some queue)"
  by (simp add: newScheduler_def wired) (simp add: wiring_def SetLeaderLockPath_def SetRunQueue_def NewSchedulerService_def)

section \<open>Requests keep the wiring\<close>

definition wiringOf ::
  "('e, 's, 'q, 'c) apiState \<Rightarrow> (('e, 's) Executor \<times> 's WorkflowStore \<times> 'q RunQueue option) option" where
  "wiringOf st = map_option (wiring \<circ> fst) (as_sched st)"

definition keepsWiring :: "('e, 's, 'q, 'c) apiState \<Rightarrow> ('e, 's, 'q, 'c) apiState served \<Rightarrow> bool" where
  "keepsWiring st res \<longleftrightarrow>
     (case res of Answered resp st' \<Rightarrow> wiringOf st' = wiringOf st | Panicked st' \<Rightarrow> wiringOf st' = wiringOf st | NoAnswer \<Rightarrow> True)"

lemma keepsWiring_simps [simp]:
  "keepsWiring st (Answered resp st') = (wiringOf st' = wiringOf st)"
  "keepsWiring st (Panicked st') = (wiringOf st' = wiringOf st)"
  "keepsWiring st NoAnswer"
  by (simp_all add: keepsWiring_def)

lemma wiringOf_simps [simp]:
  "wiringOf (setStore x st) = wiringOf st" "wiringOf (setQueue y st) = wiringOf st" "wiringOf (setMetrics m st) = wiringOf st"
  "wiringOf (setSched z st) = Some (wiring (fst z))" "wiringOf (recordRequest a b c st) = wiringOf st"
  by (simp_all add: wiringOf_def)

lemma onlyReads_wiring: "onlyReads st res \<Longrightarrow> keepsWiring st res"
  by (cases res) (auto simp: unmodified_def wiringOf_def)

lemma schedule_handlers_wiring:
  shows "keepsWiring st (handleSchedules s env r st)" and "keepsWiring st (handleScheduleByWorkflowID s env r st)"
    and "keepsWiring st (handleSchedulePauseByWorkflowID s env r st)"
    and "keepsWiring st (handleScheduleResumeByWorkflowID s env r st)"
proof -
  have "wiring (fst sched') = wiring (fst sched)" if "RegisterSchedule cr e cfg sched = (x, sched')" for cr e cfg x sched sched'
    using wiring_register[of cr e cfg sched] that by simp
  then show "keepsWiring st (handleSchedules s env r st)"
    using listSchedules_reads[THEN onlyReads_wiring]
    by (auto simp: handleSchedules_def Let_def wiringOf_def[of st] split: option.splits sum.splits prod.splits)
  show "keepsWiring st (handleScheduleByWorkflowID s env r st)"
    by (auto simp: handleScheduleByWorkflowID_def Let_def wiringOf_def[of st] wired split: option.splits)
  have "wiring (fst sched') = wiring (fst sched)" if "Pause e i sched = (x, sched')" for e i x sched sched'
    using wiring_pause[of e i sched] that by simp
  then show "keepsWiring st (handleSchedulePauseByWorkflowID s env r st)"
    by (auto simp: handleSchedulePauseByWorkflowID_def Let_def wiringOf_def[of st] split: option.splits prod.splits)
  have "wiring (fst sched') = wiring (fst sched)" if "Resume e i sched = (x, sched')" for e i x sched sched'
    using wiring_resume[of e i sched] that by simp
  then show "keepsWiring st (handleScheduleResumeByWorkflowID s env r st)"
    by (auto simp: handleScheduleResumeByWorkflowID_def Let_def wiringOf_def[of st] split: option.splits prod.splits)
qed

lemma job_handlers_wiring:
  shows "keepsWiring st (handleJobByID s env r st)" and "keepsWiring st (handleJobRequeueByID s env r st)"
    and "keepsWiring st (handleJobsBulkCancel s env r st)" and "keepsWiring st (handleJobsBulkRequeue s env r st)"
    and "keepsWiring st (handleJobsPurge s env r st)"
proof -
  show requeue: "keepsWiring st (handleJobRequeueByID s env r st)"
    by (auto simp: handleJobRequeueByID_def Let_def split: option.splits sum.splits prod.splits)
  then show "keepsWiring st (handleJobByID s env r st)"
    by (auto simp: handleJobByID_def Let_def split: option.splits sum.splits prod.splits)
  show "keepsWiring st (handleJobsBulkCancel s env r st)"
    by (auto simp: handleJobsBulkCancel_def bulkCancelAnswer_def Let_def split: option.splits sum.splits prod.splits)
  show "keepsWiring st (handleJobsBulkRequeue s env r st)"
    by (auto simp: handleJobsBulkRequeue_def bulkRequeueAnswer_def Let_def split: option.splits sum.splits prod.splits)
  show "keepsWiring st (handleJobsPurge s env r st)"
    by (auto simp: handleJobsPurge_def purgeNow_def purgeDryRun_def Let_def split: option.splits sum.splits prod.splits)
qed

lemma run_handlers_wiring:
  shows "keepsWiring st (handleRuns s env r st)" and "keepsWiring st (handleRunByID s env r st)"
    and "keepsWiring st (handleWorkflows s env r st)" and "keepsWiring st (handleWorkflowByID s env r st)"
proof -
  have ra: "keepsWiring st (runAnswer ret st)" for ret
    by (auto simp: runAnswer_def split: runReturn.splits option.splits)
  have "keepsWiring st (postAsyncRun key req s env r st)" for key req
    by (auto simp: postAsyncRun_def enqueueAsync_def Let_def split: option.splits sum.splits prod.splits)
  moreover have "keepsWiring st (postIdempotentRun key req w s env r st)" for key req w
    using ra by (auto simp: postIdempotentRun_def Let_def split: sum.splits)
  ultimately show "keepsWiring st (handleRuns s env r st)"
    using ra listRuns_reads[THEN onlyReads_wiring] by (auto simp: handleRuns_def postRun_def Let_def split: sum.splits)
  show "keepsWiring st (handleRunByID s env r st)"
    by (auto simp: handleRunByID_def deleteRun_def Let_def split: option.splits sum.splits prod.splits paged.splits)
  have sw: "keepsWiring st (storeWorkflow status s op w st)" for status op w
    by (auto simp: storeWorkflow_def split: option.splits prod.splits)
  then show "keepsWiring st (handleWorkflows s env r st)"
    using listWorkflows_reads[THEN onlyReads_wiring] by (auto simp: handleWorkflows_def split: sum.splits)
  show "keepsWiring st (handleWorkflowByID s env r st)"
    using sw by (auto simp: handleWorkflowByID_def putWorkflow_def patchWorkflow_def Let_def split: sum.splits)
qed

lemma serve_keeps_wiring: "keepsWiring st (ServeHTTP s env r st)"
proof (cases rule: ServeHTTP_cases[of s env r st])
  case (route rt au h)
  note reads = onlyReads_wiring[of st]
  have "keepsWiring st (h s env r st)"
    using route(1) run_handlers_wiring job_handlers_wiring schedule_handlers_wiring open_handlers_read[THEN reads]
      handleJobs_reads[THEN reads] handleJobStats_reads[THEN reads] handleDeadLetterJobs_reads[THEN reads]
      handleJobHistoryByID_reads[THEN reads]
    by (auto simp: routes_def)
  then show ?thesis
    using route(3) by (cases rule: middleware_cases[of au s r rt h env st]) auto
qed simp

section \<open>Executions of schedules\<close>

text \<open>With a queue, an execution only puts a job into it; it ends always and leaves the store alone.\<close>

lemma scheduledJob_fresh: "freshJob (scheduledJob env w)"
  by (simp add: freshJob_def scheduledJob_def zeroRunQueueJob_def Let_def)

lemma executeBody_queue:
  assumes "sc_queue s = Some queue"
  obtains r w' where "executeBody s env cfg w = Some (r, w')" and "wd_store w' = wd_store w" and "wd_metrics w' = wd_metrics w"
    and "wd_queue w' = wd_queue w \<or> (\<exists>e job. freshJob job \<and> wd_queue w' = snd (rq_EnqueueRunJob queue e job (wd_queue w)))"
proof (cases "ws_GetWorkflow (sc_store s) (on_get env) (s_WorkflowID cfg) (wd_store w)")
  case (Inl err)
  with that[of "Some err" w] show thesis by (simp add: executeBody_def)
next
  case (Inr workflow)
  obtain r q where e: "rq_EnqueueRunJob queue (on_enqueue env) (scheduledJob env workflow) (wd_queue w) = (r, q)" by fastforce
  show thesis
  proof (rule that[of r "w\<lparr>wd_queue := q\<rparr>"])
    show "wd_queue (w\<lparr>wd_queue := q\<rparr>) = wd_queue w \<or>
        (\<exists>e job. freshJob job \<and> wd_queue (w\<lparr>wd_queue := q\<rparr>) = snd (rq_EnqueueRunJob queue e job (wd_queue w)))"
      using scheduledJob_fresh[of env workflow] e by (intro disjI2 exI[of _ "on_enqueue env"] exI[of _ "scheduledJob env workflow"]) simp
  qed (simp_all add: executeBody_def Inr assms e)
qed

text \<open>So a relation on queues that covers these operations covers the executions.\<close>

definition coversEnqueue :: "'q RunQueue \<Rightarrow> ('q \<Rightarrow> 'q \<Rightarrow> bool) \<Rightarrow> bool" where
  "coversEnqueue queue R \<longleftrightarrow> (\<forall>q. R q q) \<and> (\<forall>e job q. freshJob job \<longrightarrow> R q (snd (rq_EnqueueRunJob queue e job q)))"

lemma triggerStep_queue:
  assumes "sc_queue s = Some queue" and "coversEnqueue queue R"
  obtains s' w' fl' where "triggerStep ev (s, w, fl) = Some (s', w', fl')" and "wiring s' = wiring s"
    and "wd_store w' = wd_store w" and "wd_metrics w' = wd_metrics w" and "R (wd_queue w) (wd_queue w')"
proof (cases ev)
  case (TriggerBegin cfg)
  obtain b s' where "executeBegin cfg s = (b, s')" by fastforce
  then show thesis using that wiring_begin[of cfg s] assms(2) by (cases b) (auto simp: TriggerBegin coversEnqueue_def)
next
  case (TriggerWork env cfg)
  show thesis
  proof (cases "cfg \<in> set (tr_begun fl)")
    case True
    obtain r w' where "executeBody s env cfg w = Some (r, w')" "wd_store w' = wd_store w" "wd_metrics w' = wd_metrics w"
      and "wd_queue w' = wd_queue w \<or> (\<exists>e job. freshJob job \<and> wd_queue w' = snd (rq_EnqueueRunJob queue e job (wd_queue w)))"
      by (rule executeBody_queue[OF assms(1)])
    then show thesis using that assms(2) True by (auto simp: TriggerWork coversEnqueue_def)
  qed (use that assms(2) in \<open>auto simp: TriggerWork coversEnqueue_def\<close>)
next
  case (TriggerEnd cfg)
  then show thesis using that wiring_end[of cfg s] assms(2) by (cases "cfg \<in> set (tr_worked fl)") (auto simp: coversEnqueue_def)
qed

lemma triggerSteps_queue:
  assumes "sc_queue s = Some queue" and "coversEnqueue queue R"
  shows "\<exists>s' w' fl'. triggerSteps evs (s, w, fl) = Some (s', w', fl') \<and> wiring s' = wiring s \<and> wd_store w' = wd_store w \<and>
    wd_metrics w' = wd_metrics w \<and> R\<^sup>*\<^sup>* (wd_queue w) (wd_queue w')"
  using assms(1)
proof (induction evs arbitrary: s w fl)
  case (Cons ev evs)
  obtain s1 w1 fl1 where one: "triggerStep ev (s, w, fl) = Some (s1, w1, fl1)" "wiring s1 = wiring s" "wd_store w1 = wd_store w"
    "wd_metrics w1 = wd_metrics w" "R (wd_queue w) (wd_queue w1)" by (rule triggerStep_queue[OF Cons.prems assms(2)])
  then have "sc_queue s1 = Some queue" using Cons.prems by (simp add: wiring_def)
  from Cons.IH[OF this, of w1 fl1] one show ?case by (auto intro: converse_rtranclp_into_rtranclp)
qed simp

section \<open>The events of a serving process\<close>

lemma covers_client: "coversEnqueue memoryQueue clientStep\<^sup>*\<^sup>*"
  by (auto simp: coversEnqueue_def memoryQueue_def intro: r_into_rtranclp clientStep.enqueue)

text \<open>A process over the memory queue and the file store, as the program puts it together.\<close>

definition servesFiles ::
  "persistedSnapshot codec \<Rightarrow> (opEnv \<Rightarrow> ioEnv) \<Rightarrow> ('e, fileState, MemoryRunQueue) Server \<Rightarrow>
   ('e, fileState, MemoryRunQueue, 'c) apiState \<Rightarrow> bool" where
  "servesFiles codec ioOf server st \<longleftrightarrow>
     sv_store server = fileStore codec ioOf \<and> ex_store (sv_executor server) = Some (fileStore codec ioOf) \<and>
     sv_queue server = Some memoryQueue \<and> wiringOf st = Some (sv_executor server, fileStore codec ioOf, Some memoryQueue)"

lemma served_request:
  assumes "serveStep server (ServeRequest env r) (st, fl) = Some (st', fl')"
  shows "keepsWiring st (ServeHTTP server env r st) \<Longrightarrow> wiringOf st' = wiringOf st"
    and "queueHolds Q (ServeHTTP server env r st) \<Longrightarrow> Q (queueOf st')"
    and "storeHolds P (ServeHTTP server env r st) \<Longrightarrow> P (storeOf st')"
  using assms by (auto split: served.splits)

lemma serveStep_files:
  assumes "servesFiles codec ioOf server st" and "serveStep server ev (st, fl) = Some (st', fl')"
  shows "servesFiles codec ioOf server st'" and "qsteps (queueOf st) (queueOf st')"
    and "workflowsValid (ms_workflows (fst_mem (fst (storeOf st)))) \<Longrightarrow> workflowsValid (ms_workflows (fst_mem (fst (storeOf st'))))"
proof -
  have S: "sv_store server = fileStore codec ioOf" "ex_store (sv_executor server) = Some (fileStore codec ioOf)"
    "sv_queue server = Some memoryQueue" "wiringOf st = Some (sv_executor server, fileStore codec ioOf, Some memoryQueue)"
    using assms(1) by (simp_all add: servesFiles_def)
  have "wiringOf st' = wiringOf st \<and> qsteps (queueOf st) (queueOf st') \<and>
    (workflowsValid (ms_workflows (fst_mem (fst (storeOf st)))) \<longrightarrow> workflowsValid (ms_workflows (fst_mem (fst (storeOf st')))))"
  proof (cases ev)
    case (ServeRequest env r)
    note step = assms(2)[unfolded ServeRequest]
    have "workflowsValid (ms_workflows (fst_mem (fst (storeOf st'))))" if "workflowsValid (ms_workflows (fst_mem (fst (storeOf st))))"
      by (rule served_request(3)[OF step]) (rule diskc.serve_keeps_valid[OF S(1,2) that])
    moreover have "qsteps (queueOf st) (queueOf st')" by (rule served_request(2)[OF step]) (rule serve_steps[OF S(3)])
    ultimately show ?thesis using served_request(1)[OF step serve_keeps_wiring] by blast
  next
    case (ServeRetention op)
    have "qsteps q (snd (runQueueRetentionLoop server memoryQueue [RetentionTick op] q))" for q
      by (simp add: memoryQueue_def r_into_rtranclp clientStep.purge)
    then show ?thesis using assms(2) S(3) by (auto simp: ServeRetention simp del: runQueueRetentionLoop.simps split: if_splits)
  next
    case (ServeTrigger tr)
    obtain svc fs where sched: "as_sched st = Some (svc, fs)" "sc_queue svc = Some memoryQueue"
      using S(4) by (auto simp: wiringOf_def wiring_def)
    obtain s' w' g where "triggerStep tr (svc, as_world st, fl) = Some (s', w', g)" "wiring s' = wiring svc"
      "wd_store w' = storeOf st" "qsteps (queueOf st) (wd_queue w')"
      by (rule triggerStep_queue[OF sched(2) covers_client])
    then show ?thesis using assms(2) by (auto simp: ServeTrigger sched(1) wiringOf_def)
  qed
  then show "servesFiles codec ioOf server st'" "qsteps (queueOf st) (queueOf st')"
    "workflowsValid (ms_workflows (fst_mem (fst (storeOf st)))) \<Longrightarrow> workflowsValid (ms_workflows (fst_mem (fst (storeOf st'))))"
    using S by (simp_all add: servesFiles_def)
qed

lemma serveSteps_files:
  assumes "servesFiles codec ioOf server st" and "serveSteps server evs (st, fl) = Some (st', fl')"
  shows "servesFiles codec ioOf server st' \<and> qsteps (queueOf st) (queueOf st') \<and>
    (workflowsValid (ms_workflows (fst_mem (fst (storeOf st)))) \<longrightarrow> workflowsValid (ms_workflows (fst_mem (fst (storeOf st')))))"
  using assms
proof (induction evs arbitrary: st fl)
  case (Cons ev evs)
  obtain st1 fl1 where one: "serveStep server ev (st, fl) = Some (st1, fl1)" and rest: "serveSteps server evs (st1, fl1) = Some (st', fl')"
    using Cons.prems(2) by (auto split: option.splits)
  note F = serveStep_files[OF Cons.prems(1) one]
  note I = Cons.IH[OF F(1) rest]
  have "qsteps (queueOf st) (queueOf st')" by (rule rtranclp_trans[OF F(2)]) (use I in blast)
  with I F(3) show ?case by blast
qed simp

text \<open>Executions of schedules always end in such a process.\<close>

lemma serveTriggers_total:
  assumes "servesFiles codec ioOf server st"
  shows "\<exists>st' fl'. serveSteps server (map ServeTrigger evs) (st, fl) = Some (st', fl')"
  using assms
proof (induction evs arbitrary: st fl)
  case (Cons ev evs)
  obtain svc fs where sched: "as_sched st = Some (svc, fs)" "sc_queue svc = Some memoryQueue"
    using Cons.prems by (auto simp: servesFiles_def wiringOf_def wiring_def)
  obtain s' w' g where "triggerStep ev (svc, as_world st, fl) = Some (s', w', g)"
    by (rule triggerStep_queue[OF sched(2) covers_client])
  then obtain st1 where e: "serveStep server (ServeTrigger ev) (st, fl) = Some (st1, g)" using sched by simp
  with Cons.IH[OF serveStep_files(1)[OF Cons.prems e]] show ?case by simp
qed simp

lemma serveStarted_files:
  assumes "serveStarted listen close cr e1 e2 now getenv fl ex (fileStore codec ioOf) memoryQueue c fs wd = Inr (addr, server, st)"
    and "ex_store ex = Some (fileStore codec ioOf)"
  shows "servesFiles codec ioOf server st" and "as_world st = wd"
proof -
  have "wiring (fst (SchedulerStart cr e2 (newScheduler e1 fl ex (fileStore codec ioOf) memoryQueue c fs))) =
      (ex, fileStore codec ioOf, Some memoryQueue)" by (simp add: wired wiring_new)
  moreover have "sv_store server = fileStore codec ioOf \<and> sv_executor server = ex \<and> sv_queue server = Some memoryQueue"
    using assms(1) by (auto simp: serveStarted_def Let_def NewServer_def SetQueueRetention_def split: sum.splits prod.splits if_splits)
  moreover have "st = \<lparr>as_world = wd, as_sched = Some (SchedulerStart cr e2 (newScheduler e1 fl ex (fileStore codec ioOf) memoryQueue c fs))\<rparr>"
    using assms(1) by (auto simp: serveStarted_def Let_def split: sum.splits)
  ultimately show "servesFiles codec ioOf server st" "as_world st = wd" using assms(2) by (simp_all add: servesFiles_def wiringOf_def)
qed

section \<open>Jobs without a worker\<close>

text \<open>No job of the queue was ever worked on.\<close>

definition unworked :: "MemoryRunQueue \<Rightarrow> bool" where
  "unworked q \<longleftrightarrow> (\<forall>i j. mq_jobs q i = Some j \<longrightarrow>
     j_Status j \<in> {RunJobStatusQueued, RunJobStatusCancelled} \<and> j_Attempts j = 0)"

lemma unworked_new: "unworked NewMemoryRunQueue"
  by (simp add: unworked_def NewMemoryRunQueue_def)

lemma unworked_step:
  assumes "clientStep q q'" and "unworked q"
  shows "unworked q'"
  using assms
proof (cases rule: clientStep.cases)
  case (enqueue job e)
  show ?thesis
  proof (cases "mq_jobs q (j_ID job)")
    case None
    with enqueue assms(2) show ?thesis by (auto simp: EnqueueRunJob_new unworked_def stored_def freshJob_def qsimps split: if_splits)
  next
    case (Some j)
    with enqueue assms(2) show ?thesis by (simp add: EnqueueRunJob_def)
  qed
next
  case (cancel e i reason)
  then show ?thesis using assms(2)
    by (auto simp: CancelRunJob_def unworked_def Let_def qsimps split: option.splits if_splits)
next
  case (requeue e i d who why)
  have "j_Status j \<noteq> RunJobStatusDead \<and> j_Status j \<noteq> RunJobStatusFailed" if "mq_jobs q i = Some j" for j
    using assms(2) that by (fastforce simp: unworked_def)
  then have "snd (RequeueRunJob e i d who why q) = q" by (cases "mq_jobs q i") (simp_all add: RequeueRunJob_def)
  with requeue assms(2) show ?thesis by simp
next
  case (purge e status olderThan limit)
  then show ?thesis using assms(2) by (auto simp: PurgeRunJobs_eq Let_def unworked_def restrict_map_def split: if_splits)
qed

lemma unworked_steps: "qsteps q q' \<Longrightarrow> unworked q \<Longrightarrow> unworked q'"
  by (induction rule: rtranclp_induct) (auto intro: unworked_step)

end
