(* ===== verification/ProgramProperties.thy ===== *)
theory ProgramProperties
  imports ProgramInv SQLiteProperties
begin

text \<open>The properties of the program as a whole, from its flags to the end of its mode, and of the cooperation of the server and
  a worker through the database.\<close>

section \<open>A program to instantiate the properties\<close>

definition exampleBuiltin :: builtinEnv where
  "exampleBuiltin = \<lparr>be_ctxDone = None, be_rand = 0\<rparr>"

definition exampleBuiltinRun :: "builtinEnv runEnv" where
  "exampleBuiltinRun =
     \<lparr>re_idNow = 0, re_startedAt = 1, re_firstSave = at 0 [], re_finalSave = at 0 [], re_depsOrd = exampleIDs,
      re_clk = (\<lambda>n. 10 + int n),
      re_events = replicate 4 (Recv 0 \<lparr>te_now = (\<lambda>n. int n), te_exec = (\<lambda>_. exampleBuiltin), te_wait = (\<lambda>_. None)\<rparr>),
      re_markNow = 50, re_finishedAt = 60, re_statusOrd = exampleIDs, re_errorOrd = exampleIDs, re_compOrd = exampleIDs,
      re_metricsOrd = exampleIDs, re_comp = (\<lambda>_. \<lparr>ce_now = (\<lambda>n. 70 + int n), ce_exec = exampleBuiltin\<rparr>)\<rparr>"

definition exampleFiring :: "builtinEnv triggerEvent list" where
  "exampleFiring =
     [TriggerBegin exampleSchedule,
      TriggerWork \<lparr>on_get = at 20 [], on_idNow = 21, on_now = (\<lambda>n. 22 + int n), on_enqueue = at 30 [], on_run = exampleBuiltinRun\<rparr> exampleSchedule,
      TriggerEnd exampleSchedule]"

definition exampleModes :: "('q, ScheduleConfig option list) modeEnv" where
  "exampleModes =
     \<lparr>me_save = at 1 [''deploy''], me_marshalIndent = (\<lambda>run. Inr (r_ID run)), me_run = exampleBuiltinRun, me_cron = listCron, me_cronEngine = [],
      me_path = exampleScEnv, me_register = exampleScEnv, me_start = exampleScEnv, me_triggers = exampleFiring, me_list = at 90 [],
      me_listen = (\<lambda>_ _. None), me_close = (\<lambda>_ _. None), me_now = 5, me_getenv = Map.empty,
      me_events = map ServeTrigger exampleFiring, me_stop = Some StartCtxDone, me_turns = []\<rparr>"

definition exampleProgram :: "ScheduleConfig option list programEnv" where
  "exampleProgram =
     \<lparr>pg_loader = \<lparr>ld_io = ioFine, ld_yaml = (\<lambda>_. Inl ''unused''), ld_json = (\<lambda>_. Inr (configOf (examplePipeline ''ok'')))\<rparr>,
      pg_open = \<lparr>op_io = ioFine, op_open = None, op_pragmas = [], op_creates = [], op_alters = []\<rparr>, pg_onDisk = emptyDB,
      pg_codecs = dbCodecs, pg_db = (\<lambda>_ _. None), pg_sqlite = exampleModes, pg_codec = snapshotCodec, pg_io = ioFine,
      pg_load = at 0 [], pg_ioOf = (\<lambda>_. ioFine), pg_files = exampleModes\<rparr>"

definition exampleFlags :: "string \<Rightarrow> mainFlags" where
  "exampleFlags mode = defaultFlags\<lparr>fl_mode := mode, fl_workflowFile := ''deploy.json''\<rparr>"

definition exampleDir :: fileSystem where
  "exampleDir = [''deploy.json'' \<mapsto> ''...'']"

lemma exampleFlags_simps [simp]:
  "fl_mode (exampleFlags m) = m" "fl_workflowFile (exampleFlags m) = ''deploy.json''" "fl_storeBackend (exampleFlags m) = ''file''"
  "fl_dataDir (exampleFlags m) = ''data''" "fl_interval (exampleFlags m) = 15 * second" "fl_cronExpr (exampleFlags m) = ''''"
  by (simp_all add: exampleFlags_def defaultFlags_def)

lemma exampleProgram_simps [simp]:
  "pg_codec exampleProgram = snapshotCodec" "pg_ioOf exampleProgram = (\<lambda>_. ioFine)" "pg_files exampleProgram = exampleModes"
  "pg_io exampleProgram = ioFine" "pg_load exampleProgram = at 0 []"
  by (simp_all add: exampleProgram_def)

definition exampleFresh :: FileStore where
  "exampleFresh = \<lparr>fst_baseDir = ''data'', fst_mem = NewMemoryStore\<rparr>"

lemma example_load:
  "LoadWorkflowFromFile (pg_loader exampleProgram) (fl_workflowFile (exampleFlags m)) exampleDir = Inr (examplePipeline ''ok'')"
proof -
  have "durationsFit (examplePipeline ''ok'')"
    by (simp add: durationsFit_def examplePipeline_def exampleTask_def zeroTaskNode_def zeroCompensationSpec_def taskDurations_def int64_def)
  note R = readWorkflow_configOf[OF loadDuration_readsBack this]
  have "toLower (pathExt ''deploy.json'') = ''.json''" by code_simp
  then show ?thesis
    by (simp add: LoadWorkflowFromFile_def decodeWorkflowFile_def osReadFile_def exampleDir_def exampleProgram_def ioFine_def R)
qed

lemma example_newStore:
  "NewFileStore (pg_codec exampleProgram) (pg_io exampleProgram) (pg_load exampleProgram) (fl_dataDir (exampleFlags m)) exampleDir = Inr exampleFresh"
proof -
  have "pathJoin ''data'' ''snapshot.json'' = ''data/snapshot.json''" by code_simp
  then show ?thesis
    by (simp add: NewFileStore_def load_def osMkdirAll_def osStat_def ioFine_def snapshotPath_def exampleDir_def exampleFresh_def)
qed

lemma example_save: "\<exists>x. ws_SaveWorkflow exampleFiles e w sf = (None, x)" "\<exists>x. ws_SaveRun exampleFiles e run sf = (None, x)"
  by (auto simp: fileStore_def fsSaveWorkflow_def SaveWorkflow_def fsSaveRun_def SaveRun_def flushLocked_def ListWorkflows_def ListRuns_def
      snapshotCodec_def osWriteFile_def ioFine_def split: prod.splits)

lemma example_main:
  "main exampleProgram (exampleFlags m) exampleDir =
     OnFiles (mainModes exampleModes (exampleFlags m) (examplePipeline ''ok'') exampleFiles memoryQueue exampleDir
       (exampleFresh, exampleDir) NewMemoryRunQueue)"
proof -
  have "toLower (trimSpace ''file'') = ''file''" by code_simp
  then show ?thesis
    using example_load[of m] example_newStore[of m] by (simp add: main_def buildPersistence_def)
qed

lemma example_setup:
  obtains ex wd where "mainSetup exampleFiles e (examplePipeline ''ok'') (exampleFresh, exampleDir) NewMemoryRunQueue = Inr (ex, wd)"
    and "ex_store ex = Some exampleFiles" and "ms_runs (fst_mem (fst (wd_store wd))) = Map.empty"
proof -
  obtain x where x: "ws_SaveWorkflow exampleFiles e (examplePipeline ''ok'') (exampleFresh, exampleDir) = (None, x)"
    using example_save(1) by blast
  have "ms_runs (fst_mem (fst x)) = Map.empty"
    using disk.save_workflow[OF x] by (simp add: exampleFresh_def NewMemoryStore_def)
  with x that show thesis by (simp add: mainSetup_def)
qed

lemma example_schedule_returns:
  "\<exists>wd. main exampleProgram (exampleFlags ''schedule'') exampleDir = OnFiles (MainReturns (''scheduled run count: '' @ itoa 0 @ newline) wd)"
proof -
  let ?m = "exampleModes :: (MemoryRunQueue, ScheduleConfig option list) modeEnv" and ?fl = "exampleFlags ''schedule''"
  let ?w = "examplePipeline ''ok''"
  obtain ex wd where S: "mainSetup exampleFiles (me_save ?m) ?w (exampleFresh, exampleDir) NewMemoryRunQueue = Inr (ex, wd)"
    "ms_runs (fst_mem (fst (wd_store wd))) = Map.empty" by (rule example_setup)
  let ?new = "newScheduler (me_path ?m) ?fl ex exampleFiles memoryQueue (me_cronEngine ?m) exampleDir"
  have "checkSchedule (mainScheduleConfig ?fl ?w) = None"
    by (simp add: checkSchedule_def mainScheduleConfig_def examplePipeline_def)
  moreover have "\<not> sc_started (fst ?new)"
    by (simp add: newScheduler_def SetScheduleStorePath_def load_simps[OF prod.collapse[symmetric]] SetLeaderLockPath_def SetRunQueue_def
        NewSchedulerService_def)
  ultimately obtain sf where R: "RegisterSchedule (me_cron ?m) (me_register ?m) (mainScheduleConfig ?fl ?w) ?new = (None, sf)"
    by (cases ?new) (simp add: register_eq Let_def)
  obtain svc fs' where T: "SchedulerStart (me_cron ?m) (me_start ?m) sf = (svc, fs')" by fastforce
  have "sc_queue svc = Some memoryQueue"
    using wiring_start[of "me_cron ?m" "me_start ?m" sf] wiring_register[of "me_cron ?m" "me_register ?m" "mainScheduleConfig ?fl ?w" ?new]
    by (simp add: T R wiring_new) (simp add: wiring_def)
  from triggerSteps_queue[OF this covers_client, of "me_triggers ?m" wd noFlight] obtain s' w' g where
    E: "triggerSteps (me_triggers ?m) (svc, wd, noFlight) = Some (s', w', g)" "wd_store w' = wd_store wd" by blast
  have "ws_ListRuns exampleFiles e i (wd_store w') = Inr []" for e i
  proof -
    have "rangeValues ord (Map.empty :: string \<rightharpoonup> Run) = []" for ord by (induction ord) simp_all
    then show ?thesis using E(2) S(2) by (simp add: fileStore_def ListRuns_def)
  qed
  then have "mainSchedule (me_marshalIndent ?m) (me_cron ?m) (me_path ?m) (me_register ?m) (me_start ?m) (me_list ?m) (me_triggers ?m) ?fl ?w ex
      exampleFiles memoryQueue (me_cronEngine ?m) exampleDir wd = MainReturns (''scheduled run count: '' @ itoa 0 @ newline) w'"
    using E(1) by (simp add: mainSchedule_def scheduleStarted_def R T scheduleReport_def)
  then show ?thesis using S(1) by (simp add: example_main mainModes_def selectMode_def)
qed

lemma example_serve_returns: "\<exists>out wd. main exampleProgram (exampleFlags ''serve'') exampleDir = OnFiles (MainReturns out wd)"
proof -
  let ?m = "exampleModes :: (MemoryRunQueue, ScheduleConfig option list) modeEnv" and ?fl = "exampleFlags ''serve''"
  obtain ex wd where S: "mainSetup exampleFiles (me_save ?m) (examplePipeline ''ok'') (exampleFresh, exampleDir) NewMemoryRunQueue = Inr (ex, wd)"
    "ex_store ex = Some exampleFiles" by (rule example_setup)
  have "resolveAPIAddr (me_listen ?m) (me_close ?m) (fl_apiAddr ?fl) (fl_apiAutoPort ?fl) (fl_apiAutoPortMaxOffset ?fl) = Inr (fl_apiAddr ?fl)"
    by (simp add: resolveAPIAddr_def resolveAPIAddrWithCheck_def checkAPIAddrAvailable_def exampleModes_def)
  then obtain addr server st where A: "serveStarted (me_listen ?m) (me_close ?m) (me_cron ?m) (me_path ?m) (me_start ?m) (me_now ?m) (me_getenv ?m)
      ?fl ex exampleFiles memoryQueue (me_cronEngine ?m) exampleDir wd = Inr (addr, server, st)"
    by (simp add: serveStarted_def Let_def)
  from serveTriggers_total[OF serveStarted_files(1)[OF A S(2)], of exampleFiring noFlight] obtain st' g where
    E: "serveSteps server (me_events ?m) (st, noFlight) = Some (st', g)" by (auto simp: exampleModes_def)
  have "me_stop ?m = Some StartCtxDone" by (simp add: exampleModes_def)
  then have "\<exists>out wd'. mainServe (me_listen ?m) (me_close ?m) (me_cron ?m) (me_path ?m) (me_start ?m) (me_now ?m) (me_getenv ?m) (me_events ?m)
      (me_stop ?m) ?fl ex exampleFiles memoryQueue (me_cronEngine ?m) exampleDir wd = MainReturns out wd'"
    by (simp add: mainServe_def A E Let_def)
  then show ?thesis using S(1) by (auto simp: example_main mainModes_def selectMode_def)
qed

lemma example_run_returns: "\<exists>out wd. main exampleProgram (exampleFlags ''run'') exampleDir = OnFiles (MainReturns out wd)"
proof -
  let ?m = "exampleModes :: (MemoryRunQueue, ScheduleConfig option list) modeEnv" and ?w = "examplePipeline ''ok''"
  obtain ex wd where S: "mainSetup exampleFiles (me_save ?m) ?w (exampleFresh, exampleDir) NewMemoryRunQueue = Inr (ex, wd)"
    "ex_store ex = Some exampleFiles" by (rule example_setup)
  have env: "me_run ?m = exampleBuiltinRun" "runEnvOk ?w exampleBuiltinRun"
    "\<forall>ev \<in> set (re_events exampleBuiltinRun). \<exists>n te. ev = Recv n te" "length (w_Tasks ?w) \<le> length (re_events exampleBuiltinRun)"
    using example_ids by (simp_all add: exampleModes_def exampleBuiltinRun_def runEnvOk_def examplePipeline_def)
  obtain run err s' m' where ret: "ExecutorRun ex exampleBuiltinRun ?w (wd_store wd) (wd_metrics wd) = RunReturned run err s' m'"
    using runWithID_returns[OF example_valid(1) env(2) example_resolves env(3,4), where ex = ex and s = "wd_store wd" and m = "wd_metrics wd"]
    unfolding ExecutorRun_def by blast
  obtain s1 where "saveFinal ex exampleBuiltinRun run s1 (wd_metrics wd) = RunReturned run err s' m'"
    by (rule runWithID_cases[OF example_valid(1) ret[unfolded ExecutorRun_def]]) blast
  moreover obtain x where "ws_SaveRun exampleFiles (re_finalSave exampleBuiltinRun) run s1 = (None, x)" using example_save(2) by blast
  ultimately have "err = None" using S(2) by (simp add: saveFinal_def)
  then have "\<exists>out wd'. mainRun (me_marshalIndent ?m) ex (me_run ?m) ?w wd = MainReturns out wd'"
    using ret by (simp add: mainRun_def env(1) printAndReturn_def printRun_def) (simp add: exampleModes_def)
  then show ?thesis using S(1) by (auto simp: example_main mainModes_def selectMode_def)
qed

section \<open>From main to its modes\<close>

lemma main_files:
  assumes "main env fl fs = OnFiles res"
  obtains w store where "LoadWorkflowFromFile (pg_loader env) (fl_workflowFile fl) fs = Inr w"
    and "NewFileStore (pg_codec env) (pg_io env) (pg_load env) (fl_dataDir fl) fs = Inr store"
    and "mainModes (pg_files env) fl w (fileStore (pg_codec env) (pg_ioOf env)) memoryQueue fs (store, fs) NewMemoryRunQueue = res"
  using assms
  by (auto simp: main_def buildPersistence_def Let_def split: sum.splits backend.splits if_splits)

lemma main_sqlite:
  assumes "main env fl fs = OnSQLite res"
  obtains w where "LoadWorkflowFromFile (pg_loader env) (fl_workflowFile fl) fs = Inr w"
    and "mainModes (pg_sqlite env) fl w (sqliteStore (pg_codecs env) (pg_db env)) (sqliteQueue (pg_db env)) fs
      (pg_onDisk env) (pg_onDisk env) = res"
proof -
  have "db = pg_onDisk env" if "NewSQLiteStore (pg_open env) path (pg_onDisk env) = Inr db" for path db
    using that by (auto simp: NewSQLiteStore_def split: option.splits if_splits)
  with assms that show thesis
    by (auto simp: main_def buildPersistence_def Let_def split: sum.splits backend.splits if_splits)
qed

lemma modes_returned:
  assumes "mainModes env fl w store queue fs s q = MainReturns out wd"
  obtains s' ex wd0 where "ws_SaveWorkflow store (me_save env) w s = (None, s')" and "wd_store wd0 = s'" and "wd_queue wd0 = q"
    and "ex_store ex = Some store"
    and "fl_mode fl = ''run'' \<Longrightarrow> mainRun (me_marshalIndent env) ex (me_run env) w wd0 = MainReturns out wd"
    and "fl_mode fl = ''schedule'' \<Longrightarrow> mainSchedule (me_marshalIndent env) (me_cron env) (me_path env) (me_register env) (me_start env)
      (me_list env) (me_triggers env) fl w ex store queue (me_cronEngine env) fs wd0 = MainReturns out wd"
    and "fl_mode fl = ''serve'' \<Longrightarrow> mainServe (me_listen env) (me_close env) (me_cron env) (me_path env) (me_start env) (me_now env)
      (me_getenv env) (me_events env) (me_stop env) fl ex store queue (me_cronEngine env) fs wd0 = MainReturns out wd"
proof (cases "mainSetup store (me_save env) w s q")
  case (Inr x)
  obtain ex wd0 where x: "x = (ex, wd0)" by fastforce
  obtain s' where s': "ws_SaveWorkflow store (me_save env) w s = (None, s')" "wd_store wd0 = s'" "wd_queue wd0 = q" "ex_store ex = Some store"
    using Inr x by (auto simp: mainSetup_def split: prod.splits option.splits)
  show thesis by (rule that[OF s']) (use assms in \<open>simp_all add: mainModes_def Inr x selectMode_def\<close>)
qed (use assms in \<open>simp add: mainModes_def\<close>)

section \<open>Mode schedule\<close>

lemma mainSchedule_returned:
  assumes "mainSchedule mi cr e1 e2 e3 op evs fl w ex store queue c fs wd = MainReturns out wd'" and "coversEnqueue queue R"
  obtains runs where "wd_store wd' = wd_store wd" and "R\<^sup>*\<^sup>* (wd_queue wd) (wd_queue wd')"
    and "ws_ListRuns store op (w_ID w) (wd_store wd) = Inr runs"
    and "prefix (''scheduled run count: '' @ itoa (int (length runs)) @ newline) out"
proof -
  obtain svc fs' where S: "scheduleStarted cr e1 e2 e3 fl w ex store queue c fs = Inr (svc, fs')"
    using assms(1) by (auto simp: mainSchedule_def split: sum.splits)
  obtain sf where sf: "RegisterSchedule cr e2 (mainScheduleConfig fl w) (newScheduler e1 fl ex store queue c fs) = (None, sf)"
    and svc: "SchedulerStart cr e3 sf = (svc, fs')"
    using S by (auto simp: scheduleStarted_def split: prod.splits option.splits)
  have "wiring svc = wiring (fst sf)" using wiring_start[of cr e3 sf] by (simp add: svc)
  also have "\<dots> = (ex, store, Some queue)"
    using wiring_register[of cr e2 "mainScheduleConfig fl w" "newScheduler e1 fl ex store queue c fs"] by (simp add: sf wiring_new)
  finally have q: "sc_queue svc = Some queue" by (simp add: wiring_def)
  obtain s' w' fl' where T: "triggerSteps evs (svc, wd, noFlight) = Some (s', w', fl')" "wd_store w' = wd_store wd"
    "R\<^sup>*\<^sup>* (wd_queue wd) (wd_queue w')" using triggerSteps_queue[OF q assms(2), of evs wd noFlight] by auto
  have rep: "scheduleReport mi store op w w' = MainReturns out wd'" using assms(1) by (simp add: mainSchedule_def S T(1))
  then obtain runs where runs: "ws_ListRuns store op (w_ID w) (wd_store w') = Inr runs"
    by (auto simp: scheduleReport_def split: sum.splits)
  with rep have "wd' = w'" "prefix (''scheduled run count: '' @ itoa (int (length runs)) @ newline) out"
    by (auto simp: scheduleReport_def printAndReturn_def Let_def prefix_def split: if_splits sum.splits)
  with T runs that show thesis by simp
qed

lemma schedule_on_files:
  assumes "fl_mode fl = ''schedule''" and "main env fl fs = OnFiles (MainReturns out wd)"
  shows "\<exists>store w runs. NewFileStore (pg_codec env) (pg_io env) (pg_load env) (fl_dataDir fl) fs = Inr store \<and>
      LoadWorkflowFromFile (pg_loader env) (fl_workflowFile fl) fs = Inr w \<and>
      ms_runs (fst_mem (fst (wd_store wd))) = ms_runs (fst_mem store) \<and> unworked (wd_queue wd) \<and>
      ListRuns (me_list (pg_files env)) (w_ID w) (fst_mem store) = Inr runs \<and>
      prefix (''scheduled run count: '' @ itoa (int (length runs)) @ newline) out"
proof -
  from assms(2) obtain w store where L: "LoadWorkflowFromFile (pg_loader env) (fl_workflowFile fl) fs = Inr w"
    and N: "NewFileStore (pg_codec env) (pg_io env) (pg_load env) (fl_dataDir fl) fs = Inr store"
    and M: "mainModes (pg_files env) fl w (fileStore (pg_codec env) (pg_ioOf env)) memoryQueue fs (store, fs) NewMemoryRunQueue =
      MainReturns out wd" by (rule main_files)
  from M obtain s' ex wd0 where S: "ws_SaveWorkflow (fileStore (pg_codec env) (pg_ioOf env)) (me_save (pg_files env)) w (store, fs) = (None, s')"
      "wd_store wd0 = s'" "wd_queue wd0 = NewMemoryRunQueue"
    and R: "mainSchedule (me_marshalIndent (pg_files env)) (me_cron (pg_files env)) (me_path (pg_files env)) (me_register (pg_files env))
      (me_start (pg_files env)) (me_list (pg_files env)) (me_triggers (pg_files env)) fl w ex (fileStore (pg_codec env) (pg_ioOf env))
      memoryQueue (me_cronEngine (pg_files env)) fs wd0 = MainReturns out wd" using modes_returned[OF M] assms(1) by metis
  from mainSchedule_returned[OF R covers_client] obtain runs where Q: "wd_store wd = wd_store wd0" "(clientStep\<^sup>*\<^sup>*)\<^sup>*\<^sup>* NewMemoryRunQueue (wd_queue wd)"
      "ws_ListRuns (fileStore (pg_codec env) (pg_ioOf env)) (me_list (pg_files env)) (w_ID w) (wd_store wd0) = Inr runs"
      "prefix (''scheduled run count: '' @ itoa (int (length runs)) @ newline) out" unfolding S(3) by metis
  have runs: "ms_runs (fst_mem (fst s')) = ms_runs (fst_mem store)" using disk.save_workflow[OF S(1)] by simp
  then have "ListRuns (me_list (pg_files env)) (w_ID w) (fst_mem store) = Inr runs"
    using Q(3) S(2) by (simp add: fileStore_def ListRuns_def)
  moreover have "unworked (wd_queue wd)" using unworked_steps[OF Q(2)[unfolded rtranclp_idemp] unworked_new] .
  ultimately show ?thesis
    using L N Q(1,4) S(2) runs by auto
qed

lemma schedule_on_sqlite:
  assumes "fl_mode fl = ''schedule''" and "main env fl fs = OnSQLite (MainReturns out wd)"
  shows "db_runs (wd_store wd) = db_runs (pg_onDisk env)"
proof -
  from assms(2) obtain w where M: "mainModes (pg_sqlite env) fl w (sqliteStore (pg_codecs env) (pg_db env)) (sqliteQueue (pg_db env)) fs
      (pg_onDisk env) (pg_onDisk env) = MainReturns out wd" by (rule main_sqlite)
  from M obtain s' ex wd0 where S: "ws_SaveWorkflow (sqliteStore (pg_codecs env) (pg_db env)) (me_save (pg_sqlite env)) w (pg_onDisk env) = (None, s')"
      "wd_store wd0 = s'"
    and R: "mainSchedule (me_marshalIndent (pg_sqlite env)) (me_cron (pg_sqlite env)) (me_path (pg_sqlite env)) (me_register (pg_sqlite env))
      (me_start (pg_sqlite env)) (me_list (pg_sqlite env)) (me_triggers (pg_sqlite env)) fl w ex (sqliteStore (pg_codecs env) (pg_db env))
      (sqliteQueue (pg_db env)) (me_cronEngine (pg_sqlite env)) fs wd0 = MainReturns out wd" using modes_returned[OF M] assms(1) by metis
  have "coversEnqueue (sqliteQueue (pg_db env)) (\<lambda>_ _. True)" by (simp add: coversEnqueue_def)
  from mainSchedule_returned[OF R this] have "wd_store wd = s'" unfolding S(2) by metis
  moreover have "db_runs s' = db_runs (pg_onDisk env)"
    using S(1) by (auto simp: sqliteStore_def sqSaveWorkflow_def split: sum.splits option.splits)
  ultimately show ?thesis by simp
qed

text \<open>C11. The mode \<^verbatim>\<open>schedule\<close> executes nothing: \<^verbatim>\<open>main\<close> gives the scheduler the queue, so every trigger puts a job into the queue, and
  no worker runs in this process. Whatever triggers fire, when the program returns the runs in the store are those it
  found at the start, the number it prints counts these old runs, and with the file store, whose queue is in the
  memory of the process, every scheduled job is lost unworked.\<close>

theorem schedule_mode_executes_nothing:
  assumes "fl_mode fl = ''schedule''"
  shows "(\<forall>out wd. main env fl fs = OnFiles (MainReturns out wd) \<longrightarrow>
      (\<exists>store w runs. NewFileStore (pg_codec env) (pg_io env) (pg_load env) (fl_dataDir fl) fs = Inr store \<and>
         LoadWorkflowFromFile (pg_loader env) (fl_workflowFile fl) fs = Inr w \<and>
         ms_runs (fst_mem (fst (wd_store wd))) = ms_runs (fst_mem store) \<and> unworked (wd_queue wd) \<and>
         ListRuns (me_list (pg_files env)) (w_ID w) (fst_mem store) = Inr runs \<and>
         prefix (''scheduled run count: '' @ itoa (int (length runs)) @ newline) out)) \<and>
    (\<forall>out wd. main env fl fs = OnSQLite (MainReturns out wd) \<longrightarrow> db_runs (wd_store wd) = db_runs (pg_onDisk env))"
  by (intro conjI allI impI schedule_on_files[OF assms] schedule_on_sqlite[OF assms])

theorem schedule_mode_executes_nothing_witness:
  "\<exists>wd. main exampleProgram (exampleFlags ''schedule'') exampleDir = OnFiles (MainReturns (''scheduled run count: '' @ itoa 0 @ newline) wd) \<and>
     unworked (wd_queue wd)"
proof -
  obtain wd where "main exampleProgram (exampleFlags ''schedule'') exampleDir =
      OnFiles (MainReturns (''scheduled run count: '' @ itoa 0 @ newline) wd)" using example_schedule_returns by blast
  with schedule_mode_executes_nothing[of "exampleFlags ''schedule''" exampleProgram exampleDir] show ?thesis by auto
qed

section \<open>Mode serve\<close>

lemma mainServe_files:
  assumes "mainServe listen close cr e1 e2 now getenv evs stop fl ex (fileStore codec ioOf) memoryQueue c fs wd = MainReturns out wd'"
    and "ex_store ex = Some (fileStore codec ioOf)"
  shows "qsteps (wd_queue wd) (wd_queue wd')"
    and "workflowsValid (ms_workflows (fst_mem (fst (wd_store wd)))) \<Longrightarrow> workflowsValid (ms_workflows (fst_mem (fst (wd_store wd'))))"
proof -
  obtain addr server st where S: "serveStarted listen close cr e1 e2 now getenv fl ex (fileStore codec ioOf) memoryQueue c fs wd =
      Inr (addr, server, st)" using assms(1) by (auto simp: mainServe_def split: sum.splits)
  obtain st' fl' where E: "serveSteps server evs (st, noFlight) = Some (st', fl')"
    using assms(1) by (auto simp: mainServe_def S split: option.splits)
  have "as_world st' = wd'"
    using assms(1) by (auto simp: mainServe_def S E Let_def split: option.splits prod.splits)
  with serveSteps_files[OF serveStarted_files(1)[OF S assms(2)] E] serveStarted_files(2)[OF S assms(2)]
  show "qsteps (wd_queue wd) (wd_queue wd')"
    "workflowsValid (ms_workflows (fst_mem (fst (wd_store wd)))) \<Longrightarrow> workflowsValid (ms_workflows (fst_mem (fst (wd_store wd'))))"
    by auto
qed

lemma serve_on_files:
  assumes "fl_mode fl = ''serve''" and "main env fl fs = OnFiles (MainReturns out wd)"
  obtains w store where "LoadWorkflowFromFile (pg_loader env) (fl_workflowFile fl) fs = Inr w"
    and "NewFileStore (pg_codec env) (pg_io env) (pg_load env) (fl_dataDir fl) fs = Inr store"
    and "qsteps NewMemoryRunQueue (wd_queue wd)"
    and "workflowsValid ((ms_workflows (fst_mem store))(w_ID w \<mapsto> w)) \<Longrightarrow> workflowsValid (ms_workflows (fst_mem (fst (wd_store wd))))"
proof -
  let ?S = "fileStore (pg_codec env) (pg_ioOf env)" and ?m = "pg_files env"
  from assms(2) obtain w store where L: "LoadWorkflowFromFile (pg_loader env) (fl_workflowFile fl) fs = Inr w"
    and N: "NewFileStore (pg_codec env) (pg_io env) (pg_load env) (fl_dataDir fl) fs = Inr store"
    and M: "mainModes ?m fl w ?S memoryQueue fs (store, fs) NewMemoryRunQueue = MainReturns out wd" by (rule main_files)
  from M obtain s' ex wd0 where S: "ws_SaveWorkflow ?S (me_save ?m) w (store, fs) = (None, s')" "wd_store wd0 = s'"
      "wd_queue wd0 = NewMemoryRunQueue" "ex_store ex = Some ?S"
    and R: "mainServe (me_listen ?m) (me_close ?m) (me_cron ?m) (me_path ?m) (me_start ?m) (me_now ?m)
      (me_getenv ?m) (me_events ?m) (me_stop ?m) fl ex ?S memoryQueue (me_cronEngine ?m) fs wd0 = MainReturns out wd"
    using modes_returned[OF M] assms(1) by metis
  have "ms_workflows (fst_mem (fst s')) = (ms_workflows (fst_mem store))(w_ID w \<mapsto> w)" using disk.save_workflow[OF S(1)] by simp
  with that[OF L N] mainServe_files[OF R S(4)] S(2,3) show thesis by simp
qed

text \<open>C13. Only valid workflows are in the store of a serving program: whatever requests, executions of schedules and retention
  sweeps come in whatever order, and whatever the disk does, if the workflow named on the command line and those of
  the snapshot are valid, every workflow in the store is valid and stored under its own id when the program
  returns. (The first of these hypotheses is needed: \<^verbatim>\<open>main\<close> itself does not validate the workflow it saves.)\<close>

theorem served_workflows_valid:
  assumes "fl_mode fl = ''serve''" and "main env fl fs = OnFiles (MainReturns out wd)"
    and "LoadWorkflowFromFile (pg_loader env) (fl_workflowFile fl) fs = Inr w" and "ValidateWorkflow w = None"
    and "NewFileStore (pg_codec env) (pg_io env) (pg_load env) (fl_dataDir fl) fs = Inr store"
    and "workflowsValid (ms_workflows (fst_mem store))"
  shows "workflowsValid (ms_workflows (fst_mem (fst (wd_store wd))))"
proof -
  have "workflowsValid ((ms_workflows (fst_mem store))(w_ID w \<mapsto> w))"
    using assms(4,6) by (auto simp: workflowsValid_def split: if_splits)
  then show ?thesis using serve_on_files[OF assms(1,2)] assms(3,5) by (metis Inr_inject)
qed

theorem served_workflows_valid_witness:
  "\<exists>out wd. main exampleProgram (exampleFlags ''serve'') exampleDir = OnFiles (MainReturns out wd) \<and>
     workflowsValid (ms_workflows (fst_mem (fst (wd_store wd))))"
proof -
  obtain out wd where m: "main exampleProgram (exampleFlags ''serve'') exampleDir = OnFiles (MainReturns out wd)"
    using example_serve_returns by blast
  have "workflowsValid (ms_workflows (fst_mem exampleFresh))" by (simp add: workflowsValid_def exampleFresh_def NewMemoryStore_def)
  from served_workflows_valid[OF _ m example_load example_valid(1) example_newStore this] m show ?thesis by auto
qed

text \<open>C14. A serving program acts on its memory queue as a client only: requests, scheduled executions and retention sweeps lead
  to reachable queues, by steps of the abstract board of job statuses; and since the memory queue of a process is
  shared with no worker, a job is never leased there: all jobs stay queued until they are cancelled or purged. A server
  with the default file store thus accepts asynchronous runs and schedules without ever executing them.\<close>

theorem file_server_never_runs_jobs:
  assumes "fl_mode fl = ''serve''" and "main env fl fs = OnFiles (MainReturns out wd)"
  shows "mqreach (wd_queue wd) \<and> board_step\<^sup>*\<^sup>* Map.empty (board (wd_queue wd)) \<and>
    (\<forall>i j. mq_jobs (wd_queue wd) i = Some j \<longrightarrow>
       j_Status j \<in> {RunJobStatusQueued, RunJobStatusCancelled} \<and> j_Attempts j = 0)"
proof -
  have steps: "qsteps NewMemoryRunQueue (wd_queue wd)" by (rule serve_on_files[OF assms])
  have "board NewMemoryRunQueue = Map.empty" by (simp add: board_def[abs_def] NewMemoryRunQueue_def)
  with board_steps[OF qsteps_mqsteps[OF steps]] unworked_steps[OF steps unworked_new] show ?thesis by (simp add: unworked_def)
qed

theorem file_server_never_runs_jobs_witness:
  "\<exists>out wd. main exampleProgram (exampleFlags ''serve'') exampleDir = OnFiles (MainReturns out wd) \<and> mqreach (wd_queue wd)"
proof -
  obtain out wd where m: "main exampleProgram (exampleFlags ''serve'') exampleDir = OnFiles (MainReturns out wd)"
    using example_serve_returns by blast
  from file_server_never_runs_jobs[OF _ m] m show ?thesis by auto
qed

section \<open>Mode run\<close>



section \<open>Mode worker\<close>

text \<open>The turns of the worker without the end of the loop.\<close>

fun turnsDone :: "('e, 's, 'q) WorkerService \<Rightarrow> ('e, 'q) procEnv list \<Rightarrow> ('s, 'q) world \<Rightarrow> ('s, 'q) world option" where
  "turnsDone svc [] w = Some w"
| "turnsDone svc (env # envs) w = (case processOne svc env w of ProcReturned r w' \<Rightarrow> turnsDone svc envs w' | _ \<Rightarrow> None)"

lemma drained_loop:
  assumes "wt_signalBefore t" and "turnsDone svc (map wt_env ts) w = Some w1"
  shows "\<exists>n w'. n \<le> length ts \<and> WorkerStart svc (drainTurns sg (ts @ t # rest)) w = Some w' \<and>
    turnsDone svc (map wt_env (take n ts)) w = Some w' \<and>
    (\<not> sg \<and> (\<forall>t' \<in> set ts. \<not> wt_signalBefore t' \<and> \<not> wt_signalDuring t') \<longrightarrow> w' = w1)"
  using assms(2)
proof (induction ts arbitrary: sg w)
  case Nil
  with assms(1) show ?case by (simp add: Let_def)
next
  case (Cons u ts)
  obtain r w2 where p: "processOne svc (wt_env u) w = ProcReturned r w2" "turnsDone svc (map wt_env ts) w2 = Some w1"
    using Cons.prems by (auto split: procOutcome.splits)
  let ?b = "sg \<or> wt_signalBefore u" and ?d = "(sg \<or> wt_signalBefore u) \<or> wt_signalDuring u"
  from Cons.IH[OF p(2), of ?d] obtain n w' where I: "n \<le> length ts" "WorkerStart svc (drainTurns ?d (ts @ t # rest)) w2 = Some w'"
    "turnsDone svc (map wt_env (take n ts)) w2 = Some w'"
    "\<not> ?d \<and> (\<forall>t' \<in> set ts. \<not> wt_signalBefore t' \<and> \<not> wt_signalDuring t') \<longrightarrow> w' = w1" by blast
  consider (drains) ?b | (stops) err where "\<not> ?b" "r = Some err" "wt_signalDuring u" "wt_cancelled u"
    | (continues) "\<not> ?b" "r = None \<or> \<not> (?d \<and> wt_cancelled u)" by (cases r) blast+
  then show ?case
  proof cases
    case drains
    then show ?thesis by (intro exI[of _ 0] exI[of _ w]) (auto simp: Let_def)
  next
    case stops
    then show ?thesis by (intro exI[of _ 1] exI[of _ w2]) (simp add: Let_def p)
  next
    case continues
    then have "WorkerStart svc (drainTurns sg ((u # ts) @ t # rest)) w = Some w'" using I(2) p(1) by (cases r) (auto simp: Let_def)
    with I p continues(1) show ?thesis by (intro exI[of _ "Suc n"] exI[of _ w']) auto
  qed
qed



end
