(* ===== verification/EndToEnd.thy ===== *)
theory EndToEnd
  imports ApiProperties SQLiteProperties
begin

text \<open>
  The server and a worker that share a database, the configuration in which asynchronous runs are executed: the job that a
  request enqueues is the job the worker leases, and the run it executes is the run the server finds afterwards.
\<close>

section \<open>The route of a run\<close>

text \<open>A path made of one more segment is clean.\<close>

lemma clean_run_path:
  assumes "CHR ''/'' \<notin> set i" and "i \<notin> {'''', ''.'', ''..''}"
  shows "cleanURLPath (''/runs/'' @ i) = ''/runs/'' @ i"
proof -
  have "strSplit (''/runs/'' @ i) CHR ''/'' = ['''', ''runs'', i]"
    using strSplit_append[of "CHR ''/''" "''''" "''runs/'' @ i"] strSplit_append[of "CHR ''/''" "''runs''" i] strSplit_none[OF assms(1)]
    by simp
  then have "pathClean (''/runs/'' @ i) = ''/runs/'' @ i" using assms(2) by (simp add: pathClean_def hasPrefix_def)
  moreover have "\<not> suffix ''/'' (''/runs/'' @ i)"
  proof
    assume "suffix ''/'' (''/runs/'' @ i)"
    then obtain zs where "''/runs/'' @ i = zs @ ''/''" by (auto simp: suffix_def)
    then have "last (''/runs/'' @ i) = CHR ''/''" by (metis last_snoc)
    moreover have "last (''/runs/'' @ i) = last i" using assms(2) by simp
    ultimately show False using assms last_in_set[of i] by auto
  qed
  ultimately show ?thesis by (simp add: cleanURLPath_def hasPrefix_def)
qed

lemma serve_run_by_id:
  fixes st :: "('e, 's, 'q, 'c) apiState"
  assumes "hr_Path r = ''/runs/'' @ i" and "isAuthorized s r" and "CHR ''/'' \<notin> set i" and "i \<notin> {'''', ''.'', ''..''}"
  shows "ServeHTTP s env r st =
     (case handleRunByID s env r st of
        Answered resp st' \<Rightarrow> Answered resp (recordRequest (hr_Method r) ''/runs/'' (hp_Status resp) st')
      | Panicked st' \<Rightarrow> Panicked st' | NoAnswer \<Rightarrow> NoAnswer)"
proof -
  let ?table = "routes :: (string \<times> bool \<times> ('e, 's, 'q, 'c) handler) list"
  have "suffix ''/'' ''/runs/''" "\<not> suffix ''/'' ''/runs''" by code_simp+
  then have "filter (\<lambda>e. patternMatches (''/runs/'' @ i) (fst e)) ?table = [(''/runs/'', True, handleRunByID)]"
    using assms(4) by (simp add: routes_def patternMatches_def)
  then have "muxMatch ?table (''/runs/'' @ i) = Some (''/runs/'', True, handleRunByID)" by (simp add: muxMatch_def)
  moreover have "(''/runs/'' @ i) @ ''/'' \<notin> set (map fst ?table)" using assms(4) by (simp add: routes_def)
  moreover define p where "p = ''/runs/'' @ i"
  ultimately have "muxMatch ?table p = Some (''/runs/'', True, handleRunByID)" "p @ ''/'' \<notin> set (map fst ?table)" "hr_Path r = p"
    "cleanURLPath p = p" using assms(1) clean_run_path[OF assms(3,4)] by simp_all
  then show ?thesis using assms(2) by (simp add: ServeHTTP_def withMiddleware_def)
qed

lemma idem_segment: "CHR ''/'' \<notin> set (deterministicRunID w k)" "deterministicRunID w k \<notin> {'''', ''.'', ''..''}"
proof -
  have "list_all isHexDigit (sha1Hex (w @ ''|'' @ k))" using sha1Hex_format by auto
  moreover have "\<not> isHexDigit CHR ''/''" by (simp add: isHexDigit_def)
  ultimately show "CHR ''/'' \<notin> set (deterministicRunID w k)" by (auto simp: deterministicRunID_def list_all_iff)
qed (simp add: deterministicRunID_def)

lemma get_run_by_id:
  assumes "hr_Path r = ''/runs/'' @ deterministicRunID w k" and "isAuthorized s r" and "hr_Method r = ''GET''"
    and "ws_GetRun (sv_store s) (ae_op env 0) (deterministicRunID w k) (storeOf st) = Inr run"
  obtains st' where "ServeHTTP s env r st = Answered (writeJSON 200 (RunBody run)) st'" and "unmodified st st'"
proof -
  have "handleRunByID s env r st = Answered (writeJSON 200 (RunBody run)) st"
    using assms idem_segment(2)[of w k] by (simp add: handleRunByID_def trimPrefix_def hasPrefix_def Let_def)
  then show thesis using that by (simp add: serve_run_by_id[OF assms(1,2) idem_segment])
qed

section \<open>From the request to the result\<close>

text \<open>A worker's turn that returns without an error executed a run that succeeded.\<close>

lemma processOne_success:
  assumes "processOne svc env w0 = ProcReturned None w'"
    and "rq_LeaseNextRunJob (wk_queue svc) (pe_lease env) (wk_workerID svc) (wk_leaseDuration svc) (wd_queue w0) = (Inr job, q1)"
    and "ws_GetWorkflow (wk_store svc) (pe_get env) (j_WorkflowID job) (wd_store w0) = Inr workflow"
  obtains q2 cancelled run s m where "fold (duringStep svc (j_ID job)) (pe_during env) (q1, False) = (q2, cancelled)"
    and "RunWithID (wk_executor svc) (pe_run env cancelled) workflow (j_RunID job) (j_RequestID job) (wd_store w0)
      (map_option RecordWorkerLease (wd_metrics w0)) = RunReturned run None s m"
    and "r_Status run \<noteq> RunStatusFailed" and "r_Status run \<noteq> RunStatusCancelled"
proof -
  obtain q2 c where during: "fold (duringStep svc (j_ID job)) (pe_during env) (q1, False) = (q2, c)" by fastforce
  let ?run = "RunWithID (wk_executor svc) (pe_run env c) workflow (j_RunID job) (j_RequestID job) (wd_store w0)
      (map_option RecordWorkerLease (wd_metrics w0))"
  obtain run err s m where run: "?run = RunReturned run err s m"
    using assms during by (cases ?run) (simp_all add: processOne_def Let_def)
  have "\<exists>w2. settleJob svc (pe_settle env) job run err (w0\<lparr>wd_queue := q2, wd_store := s, wd_metrics := m\<rparr>) = ProcReturned None w2"
    using assms during run by (auto simp: processOne_def Let_def split: procOutcome.splits)
  then have "err = None \<and> r_Status run \<noteq> RunStatusFailed \<and> r_Status run \<noteq> RunStatusCancelled"
    by (auto simp: settleJob_def Let_def split: if_splits)
  with that during run show thesis by blast
qed

text \<open>Such a turn over the database leaves the job succeeded.\<close>

lemma sqlite_worker_success:
  assumes "sqreach (wd_queue w0)" and "iterates (oe_ord (pe_lease env)) (db_queue (wd_queue w0))"
    and "wk_queue svc = sqlite" and "\<forall>ev \<in> set (pe_during env). ownEvent ev"
    and "rq_LeaseNextRunJob sqlite (pe_lease env) (wk_workerID svc) (wk_leaseDuration svc) (wd_queue w0) = (Inr job, q1)"
    and "ws_GetWorkflow (wk_store svc) (pe_get env) (j_WorkflowID job) (wd_store w0) = Inr workflow"
    and "processOne svc env w0 = ProcReturned None w'"
  obtains env' run m row where "RunWithID (wk_executor svc) env' workflow (j_RunID job) (j_RequestID job) (wd_store w0)
      (map_option RecordWorkerLease (wd_metrics w0)) = RunReturned run None (wd_store w') m"
    and "r_Status run \<noteq> RunStatusFailed" and "r_Status run \<noteq> RunStatusCancelled"
    and "db_queue (wd_queue w') (j_ID job) = Some row" and "j_Status row = RunJobStatusSucceeded"
proof -
  obtain q2 b run s' m where R: "fold (duringStep svc (j_ID job)) (pe_during env) (q1, False) = (q2, b)"
    "RunWithID (wk_executor svc) (pe_run env b) workflow (j_RunID job) (j_RequestID job) (wd_store w0)
      (map_option RecordWorkerLease (wd_metrics w0)) = RunReturned run None s' m"
    "r_Status run \<noteq> RunStatusFailed" "r_Status run \<noteq> RunStatusCancelled"
    using processOne_success[OF assms(7) _ assms(6)] assms(3,5) by metis
  note inv = sqreach_inv[OF assms(1)]
  have att: "\<forall>i j. sqJobs (wd_queue w0) i = Some j \<longrightarrow> 0 \<le> j_Attempts j"
    using inv by (auto simp: sqJobs_def sq_inv_def row_ok_def)
  obtain j' where P: "wd_store w' = s'" "sqJobs (wd_queue w') (j_ID job) = Some j'" "j_Status j' = settledStatus job run None"
    using sqlq.processOne_run[OF assms(3) inv assms(2) att assms(4-6) R(1,2)] assms(7) by auto
  then obtain row where "db_queue (wd_queue w') (j_ID job) = Some row" "j_Status row = RunJobStatusSucceeded"
    using R(3,4) by (auto simp: sqJobs_def settledStatus_def)
  with that R P(1) show thesis by blast
qed

text \<open>The database holds the run that the executor returned.\<close>

lemma sqlite_run_stored:
  assumes "ValidateWorkflow w = None" and "ex_store ex = Some (sqliteStore c (\<lambda>_ _. None))"
    and "RunWithID ex env w fid rid s m = RunReturned run None s' m'" and "codecExact (cd_run c) run"
  shows "ws_GetRun (sqliteStore c (\<lambda>_ _. None)) e (r_ID run) s' = Inr run"
proof -
  obtain s1 where "saveFinal ex env run s1 m = RunReturned run None s' m'"
    by (rule runWithID_cases[OF assms(1) assms(3)[unfolded RunWithID_def]]) blast
  then have "sqSaveRun c (\<lambda>_. None) (re_finalSave env) run s1 = (None, s')"
    using assms(2) by (auto simp: saveFinal_def sqliteStore_def split: prod.splits option.splits)
  from sqlite_run_roundtrip[OF assms(4) this] show ?thesis by (simp add: sqliteStore_def)
qed

text \<open>The job of a request, as the queue in the database keeps it.\<close>

lemma sqlite_enqueued:
  assumes "sqEnqueueRunJob (\<lambda>_. None) e job s = (None, s')" and "db_queue s (j_ID job) = None" and "freshJob job" and "sqreach s"
  shows "sqreach s'" and "\<exists>j. sqJobs s' (j_ID job) = Some j \<and> j_WorkflowID j = j_WorkflowID job \<and> j_RunID j = j_RunID job \<and>
    j_RequestID j = j_RequestID job"
proof -
  have "sqstep s (snd (sqEnqueueRunJob (\<lambda>_. None) e job s))" by (rule sqstep.enqueue[OF assms(3)])
  with assms(1,4) show "sqreach s'" by (simp add: rtranclp.rtrancl_into_rtrancl)
  have f: "j_ID (enqueueDefaults now job) = j_ID job" "j_WorkflowID (enqueueDefaults now job) = j_WorkflowID job"
    "j_RunID (enqueueDefaults now job) = j_RunID job" "j_RequestID (enqueueDefaults now job) = j_RequestID job" for now
    by (simp_all add: enqueueDefaults_def Let_def)
  have "j_ID job \<noteq> ''''" using assms(1) by (auto simp: sqEnqueueRunJob_def)
  then have "db_queue s' (j_ID job) = Some (toRow (enqueueDefaults (oe_now e 0) job))"
    using assms(1,2) by (auto simp: sqEnqueueRunJob_def sqAppendTransition_def Let_def f)
  then show "\<exists>j. sqJobs s' (j_ID job) = Some j \<and> j_WorkflowID j = j_WorkflowID job \<and> j_RunID j = j_RunID job \<and>
    j_RequestID j = j_RequestID job" by (simp add: sqJobs_def toRow_def f)
qed


section \<open>An instance\<close>

definition pipelineCodecs :: sqlCodecs where
  "pipelineCodecs =
     \<lparr>cd_workflow = \<lparr>co_Marshal = (\<lambda>_. Inr ''w''), co_Unmarshal = (\<lambda>_. Inr (examplePipeline ''ok''))\<rparr>, cd_run = runCodec\<rparr>"

abbreviation exampleTables :: "SQLiteStore WorkflowStore" where
  "exampleTables \<equiv> sqliteStore pipelineCodecs (\<lambda>_ _. None)"

definition exampleDbExecutor :: "(unit, SQLiteStore) Executor" where
  "exampleDbExecutor = \<lparr>ex_registry = exampleRegistry, ex_store = Some exampleTables\<rparr>"

definition exampleDbServer :: "(unit, SQLiteStore, SQLiteStore) Server" where
  "exampleDbServer = NewServer 0 '''' ''read:r1,write:w1'' exampleTables (Some sqlite) exampleDbExecutor"

definition exampleDbWorker :: "(unit, SQLiteStore, SQLiteStore) WorkerService" where
  "exampleDbWorker = NewWorkerService 0 ''w1'' sqlite exampleTables exampleDbExecutor"

definition exampleDbState :: "(unit, SQLiteStore, SQLiteStore, ScheduleConfig option list) apiState" where
  "exampleDbState =
     \<lparr>as_world = \<lparr>wd_queue = emptyDB, wd_store = emptyDB\<lparr>db_workflows := [''deploy'' \<mapsto> \<lparr>wr_payload = ''w'', wr_updatedAt = 0\<rparr>]\<rparr>,
        wd_metrics = None\<rparr>, as_sched = None\<rparr>"

definition exampleRunID :: string where
  "exampleRunID = deterministicRunID ''deploy'' ''k1''"

definition exampleDbProc :: "(unit, SQLiteStore) procEnv" where
  "exampleDbProc = dbProc\<lparr>pe_lease := at 900 [''job-'' @ exampleRunID]\<rparr>"

lemma exampleDb_simps [simp]:
  "sv_store exampleDbServer = exampleTables" "sv_queue exampleDbServer = Some sqlite" "sv_executor exampleDbServer = exampleDbExecutor"
  "ex_store exampleDbExecutor = Some exampleTables" "ex_registry exampleDbExecutor = exampleRegistry"
  "wk_store exampleDbWorker = exampleTables" "wk_queue exampleDbWorker = sqlite" "wk_executor exampleDbWorker = exampleDbExecutor"
  "queueOf exampleDbState = emptyDB" "db_workflows (storeOf exampleDbState) = [''deploy'' \<mapsto> \<lparr>wr_payload = ''w'', wr_updatedAt = 0\<rparr>]"
  "db_runs (storeOf exampleDbState) = Map.empty" "pe_lease exampleDbProc = at 900 [''job-'' @ exampleRunID]"
  "pe_run exampleDbProc b = exampleEnv" "\<forall>ev \<in> set (pe_during exampleDbProc). ownEvent ev"
  by (simp_all add: exampleDbServer_def NewServer_def exampleDbExecutor_def exampleDbWorker_def NewWorkerService_def exampleDbState_def
      emptyDB_def exampleDbProc_def dbProc_def split: prod.splits)

lemma exampleDb_get:
  "db_workflows sf = db_workflows (storeOf exampleDbState) \<Longrightarrow> ws_GetWorkflow exampleTables e ''deploy'' sf = Inr (examplePipeline ''ok'')"
  by (simp add: sqliteStore_def sqGetWorkflow_def pipelineCodecs_def)

lemma exampleDb_keyed:
  "keyedRun exampleDbServer exampleApiEnv (exampleRequest ''w1'' ''POST'' ''/runs'' ''async'')
     \<lparr>qr_WorkflowID = ''deploy'', qr_Async = True, qr_MaxAttempts = 0\<rparr> ''k1''"
  "isAuthorized exampleDbServer (exampleRequest ''r1'' ''GET'' p b)"
proof -
  have t: "sv_authOn exampleDbServer = sv_authOn exampleServer" "sv_authRead exampleDbServer = sv_authRead exampleServer"
    "sv_authWrite exampleDbServer = sv_authWrite exampleServer"
    by (simp_all add: exampleDbServer_def exampleServer_def NewServer_def split: prod.splits)
  then show "keyedRun exampleDbServer exampleApiEnv (exampleRequest ''w1'' ''POST'' ''/runs'' ''async'')
     \<lparr>qr_WorkflowID = ''deploy'', qr_Async = True, qr_MaxAttempts = 0\<rparr> ''k1''"
    by (simp add: keyedRun_def exampleRequest_token isAuthorized_def exampleServer_tokens exampleDecoders_def)
  show "isAuthorized exampleDbServer (exampleRequest ''r1'' ''GET'' p b)"
    by (simp add: isAuthorized_def t exampleServer_tokens exampleRequest_token isWriteMethod_def)
qed

text \<open>The pipeline succeeds, and its run is saved.\<close>

lemma exampleDb_run:
  "\<exists>run s' m'. RunWithID exampleDbExecutor exampleEnv (examplePipeline ''ok'') fid rid s m = RunReturned run None s' m' \<and>
     r_Status run = RunStatusSuccess"
proof -
  let ?w = "examplePipeline ''ok''"
  obtain run err s' m' where ret: "runWithID exampleDbExecutor exampleEnv ?w fid rid s m = RunReturned run err s' m'"
    using runWithID_returns[OF example_valid(1) example_envOk example_resolves example_events,
      where ex = exampleDbExecutor and fid = fid and rid = rid and s = s and m = m] by blast
  have "case exampleLoop ''ok'' 4 of LoopLeft st \<Rightarrow> list_all (\<lambda>i. case x_results st i of None \<Rightarrow> False
      | Some r \<Rightarrow> tr_Status r \<noteq> TaskStatusFailed) exampleIDs | _ \<Rightarrow> False" by code_simp
  then obtain st where loop: "exampleLoop ''ok'' 4 = LoopLeft st"
    and ok: "\<forall>i \<in> set exampleIDs. \<exists>r. x_results st i = Some r \<and> tr_Status r \<noteq> TaskStatusFailed"
    by (auto simp: list_all_iff split: loopOutcome.splits option.splits)
  then have "runLoop (ex_registry exampleDbExecutor) ?w (re_clk exampleEnv) (initState ?w (re_depsOrd exampleEnv))
      (re_events exampleEnv) = LoopLeft st" by (simp add: exampleLoop_def exampleEnv_def)
  note keep = runWithID_keeps_results[OF example_valid(1) ret this]
  note R = runWithID_results[OF example_valid(1) example_envOk ret]
  have "tr_Status r \<noteq> TaskStatusFailed" if "r_Results run i = Some r" for i r
  proof -
    have "i \<in> set exampleIDs" using R(1) that example_ids(2) by (auto simp: terminalResults_def)
    with ok keep that show ?thesis by force
  qed
  then have "r_Status run = RunStatusSuccess" using R(4) example_events(1) by fastforce
  moreover obtain s1 where "saveFinal exampleDbExecutor exampleEnv run s1 m = RunReturned run err s' m'"
    by (rule runWithID_cases[OF example_valid(1) ret]) blast
  then have "err = None"
    by (simp add: saveFinal_def sqliteStore_def sqSaveRun_def pipelineCodecs_def runCodec_def Let_def)
  ultimately show ?thesis using ret by (auto simp: RunWithID_def)
qed

text \<open>The request is answered, the worker leases its job, and its turn succeeds.\<close>

lemma exampleDb_posted:
  obtains resp st1 row where "ServeHTTP exampleDbServer exampleApiEnv (exampleRequest ''w1'' ''POST'' ''/runs'' ''async'') exampleDbState = Answered resp st1"
    and "hp_Status resp = 202" and "db_queue (queueOf st1) = [''job-'' @ exampleRunID \<mapsto> row]" and "j_ID row = ''job-'' @ exampleRunID"
    and "j_WorkflowID row = ''deploy''" and "j_Status row = RunJobStatusQueued" and "j_AvailableAt row = unixNano 401"
    and "storeOf st1 = storeOf exampleDbState"
proof -
  let ?r = "exampleRequest ''w1'' ''POST'' ''/runs'' ''async''" and ?req = "\<lparr>qr_WorkflowID = ''deploy'', qr_Async = True, qr_MaxAttempts = 0\<rparr> :: runRequest"
  define J where "J = asyncJob ?req exampleRunID ''k1'' 401"
  define row where "row = toRow (enqueueDefaults 103 J)"
  have J: "j_ID J = ''job-'' @ exampleRunID" "j_ID (enqueueDefaults now J) = ''job-'' @ exampleRunID" for now
    by (simp_all add: J_def asyncJob_def enqueueDefaults_def Let_def)
  have row: "j_ID row = ''job-'' @ exampleRunID" "j_WorkflowID row = ''deploy''" "j_Status row = RunJobStatusQueued" "j_AvailableAt row = unixNano 401"
    by (simp_all add: row_def J_def asyncJob_def enqueueDefaults_def toRow_def isZero_def Let_def)
  obtain db where enq: "sqEnqueueRunJob (\<lambda>_. None) (at 103 [''b'', ''a'']) J emptyDB = (None, db)" and db: "db_queue db = [''job-'' @ exampleRunID \<mapsto> row]"
    by (simp add: sqEnqueueRunJob_def sqAppendTransition_def J Let_def emptyDB_def row_def at_def)
  have "handleRuns exampleDbServer exampleApiEnv ?r exampleDbState = Answered (writeJSON 202 (JobBody J)) (setQueue db exampleDbState)"
    using enq exampleDb_get[of "storeOf exampleDbState"]
    by (subst keyed_postRun[OF exampleDb_keyed(1), of exampleDbState "examplePipeline ''ok''"])
      (simp_all add: postAsyncRun_def enqueueAsync_def sqliteQueue_def sqliteStore_def sqGetRun_def sqGetRunJobByRequest_def scanRunJob_def firstRow_def
        emptyDB_def Let_def J_def exampleRunID_def)
  moreover have "isAuthorized exampleDbServer ?r" using exampleDb_keyed(1) by (simp add: keyedRun_def)
  ultimately have "ServeHTTP exampleDbServer exampleApiEnv ?r exampleDbState =
      Answered (writeJSON 202 (JobBody J)) (recordRequest ''POST'' ''/runs'' 202 (setQueue db exampleDbState))"
    by (simp add: serve_runs writeJSON_def)
  then show thesis using that[OF _ _ _ row] db by (simp add: writeJSON_def)
qed

lemma exampleDb_leased:
  assumes "db_queue db = [''job-'' @ exampleRunID \<mapsto> row]" and "j_ID row = ''job-'' @ exampleRunID" and "j_Status row = RunJobStatusQueued"
    and "j_AvailableAt row = unixNano 401"
  obtains job q1 where "sqLeaseNextRunJob (\<lambda>_. None) (pe_lease exampleDbProc) (wk_workerID exampleDbWorker) (wk_leaseDuration exampleDbWorker) db =
      (Inr job, q1)" and "j_ID job = ''job-'' @ exampleRunID" and "j_WorkflowID job = j_WorkflowID row"
proof -
  have le: "unixNano 401 \<le> unixNano 900" by (simp add: unixNano_def wrap64_def)
  then have "leaseRow (at 900 [''job-'' @ exampleRunID]) db = Some row"
    using assms by (simp add: leaseRow_def firstRow_def leaseGuard_def at_def Let_def)
  then obtain job q1 where "sqLeaseNextRunJob (\<lambda>_. None) (at 900 [''job-'' @ exampleRunID]) (wk_workerID exampleDbWorker) (wk_leaseDuration exampleDbWorker) db =
      (Inr job, q1)" "j_ID job = ''job-'' @ exampleRunID" "j_WorkflowID job = j_WorkflowID row"
    using assms by (simp add: sqLeaseNextRunJob_def scanRunJob_def updateJob_def sqAppendTransition_def leaseGuard_def Let_def)
  with that show thesis by simp
qed


end
