(* ===== verification/Spec2Isabelle.thy ===== *)
theory Spec2Isabelle
  imports SchedulerProperties SQLiteProperties ApiProperties ProgramProperties EndToEnd
begin

text \<open>
  \<^bold>\<open>Workflow scheduler: a verification library\<close>

  The program (Go, module \<^verbatim>\<open>workflowscheduler\<close>) runs workflows, directed acyclic graphs of tasks with retries, conditions, input
  templates and compensations. A run is executed by the engine; it is asked for on the command line, over HTTP, by a schedule, or by
  a worker that leases jobs from a run queue. Workflows and runs are kept in a store, jobs in a queue; both exist in memory, the
  store also as a JSON snapshot on disk, and both as tables of an SQLite database.

  \<^bold>\<open>Theories and what they model\<close> (paths below \<^verbatim>\<open>src/\<close>)

  \<^item> \<open>Prelude\<close>, \<open>GoStrings\<close>, \<open>GoTime\<close>, \<open>Sha1\<close>, \<open>Files\<close>: the parts of Go's language and standard library that the program uses: 64-bit
    wrap-around, instants and durations, ranging over maps, \<^verbatim>\<open>sort.Slice\<close>, \<^verbatim>\<open>strings\<close>, \<^verbatim>\<open>strconv\<close>, \<^verbatim>\<open>time.ParseDuration\<close> and RFC 3339
    with the binary64 arithmetic they do, SHA-1, and files whose operations may fail.
  \<^item> \<open>Domain\<close>, \<open>Interfaces\<close>: \<^verbatim>\<open>internal/domain\<close>: the structs as records, the typed string constants as datatypes, the interfaces \<^verbatim>\<open>WorkflowStore\<close> and
    \<^verbatim>\<open>RunQueue\<close> as records of methods, and the contracts of a store and of a queue as locales.
  \<^item> \<open>Graph\<close>: \<^verbatim>\<open>internal/engine/graph.go\<close>, validation of workflows. \<open>Templates\<close>, \<open>TaskRunner\<close>, \<open>Dispatch\<close>, \<open>DispatchInv\<close>, \<open>Executor\<close>:
    \<^verbatim>\<open>internal/engine/executor.go\<close>, from the inside out: conditions and input templates, one task with its attempts, the scheduling loop
    and its invariant, the whole run with compensation. \<open>Actions\<close>: \<^verbatim>\<open>internal/actions/registry.go\<close>.
  \<^item> \<open>Telemetry\<close>, \<open>Prometheus\<close>: \<^verbatim>\<open>internal/telemetry/collector.go\<close>, the counters and their text form.
  \<^item> \<open>MemoryStore\<close>, \<open>FileStore\<close>: \<^verbatim>\<open>internal/store/memory_store.go\<close> and \<^verbatim>\<open>file_store.go\<close>. \<open>MemoryQueue\<close>, \<open>MemoryQueueInv\<close>: \<^verbatim>\<open>internal/queue/memory_queue.go\<close>
    and its invariant. \<open>SQLiteStore\<close>, \<open>SQLiteQueue\<close>, \<open>SQLiteInv\<close>: \<^verbatim>\<open>internal/store/sqlite_store.go\<close>, a statement being an operation on tables.
  \<^item> \<open>Worker\<close>: \<^verbatim>\<open>internal/worker/service.go\<close>. \<open>Scheduler\<close>, \<open>SchedulerInv\<close>: \<^verbatim>\<open>internal/scheduler/service.go\<close>.
  \<^item> \<open>WorkflowLoader\<close>: \<^verbatim>\<open>pkg/utils/workflow_loader.go\<close>. \<open>Api\<close>, \<open>ApiWorkflows\<close>, \<open>ApiJobs\<close>, \<open>ApiServer\<close>: \<^verbatim>\<open>internal/api/server.go\<close>: parameters and
    bodies, the handlers by subject, middleware, routes and the server. \<open>ApiInv\<close>, \<open>ApiQueue\<close>: facts about the handlers.
    \<open>Orchestrator\<close>, \<open>Program\<close>: \<^verbatim>\<open>cmd/orchestrator/main.go\<close>, flags, tokens, address and persistence, and then \<^verbatim>\<open>main\<close> as a whole in its four modes.
    \<open>ProgramInv\<close>: what the events of a process do to its scheduler, queue and store.
  \<^item> \<open>EngineProperties\<close>, \<open>QueueProperties\<close>, \<open>WorkerProperties\<close>, \<open>SchedulerProperties\<close>, \<open>SQLiteProperties\<close>, \<open>ApiProperties\<close>,
    \<open>ProgramProperties\<close>, \<open>EndToEnd\<close>: the properties, each with an instance on a small concrete system; the last two are about the program as
    a whole and about a server and a worker that share a database.

  \<^bold>\<open>How state, effects and concurrency appear\<close>

  Operations take and return the state they change: the records \<open>MemoryStore\<close>, \<open>FileStore\<close>, \<open>MemoryRunQueue\<close>, \<open>SQLiteStore\<close>, \<open>Collector\<close>, \<open>SchedulerService\<close>,
  the loop variables \<open>execState\<close>, and for the server \<open>apiState\<close>. Errors are values (\<^verbatim>\<open>error\<close> as its text), a panic is a result of its own.
  What the environment decides is an argument: readings of the clock, the order in which a map is ranged over, the outcome of a file
  operation or of a database statement, which event a \<^verbatim>\<open>select\<close> picks. The theorems hold for all of them, with the
  hypothesis \<open>iterates\<close> that an order names the keys of the map once each.
  An operation under a mutex is one step; goroutines are events between steps: results of tasks and cancellation in \<open>Dispatch\<close>, heartbeats and
  the cancellation watcher in \<open>Worker\<close>, triggers, operations and the locked sections of \<^verbatim>\<open>Start\<close> in \<open>Scheduler\<close>. Step relations (\<open>mqstep\<close>, \<open>schedOp\<close>,
  \<open>sysStep\<close>, \<open>apiStep\<close>) collect the interleavings, and for a whole process \<open>triggerStep\<close> and \<open>serveStep\<close> interpret lists of events; a request is served without steps of other parties between its calls, and
  statements of different callers are not interleaved within one call of the database.

  \<^bold>\<open>What the lemmas show\<close>

  \<^item> Engine: a run ends with one final result per task and the right status; a task starts only after its dependencies and never below a
    failed one; concurrency is bounded; compensations run in reverse order of completion; validation accepts exactly the
    well-formed workflows and its search finds exactly the cycles; attempts, backoff and template resolution.
  \<^item> Queues: every operation is a step of an abstract board of job statuses, for the memory queue and for the database; histories
    are legal paths with matching counters; leases are exclusive and oldest first; finished jobs are final. The contract of a queue is
    a locale with both as instances, and the worker's theorem is proved once from it.
  \<^item> Scheduler and files: live triggers match the registered schedules, executions do not overlap, there is one leader, and schedules and
    snapshots survive a restart.
  \<^item> Server: a token without the right to write changes nothing; requests are queue operations and keep the stored workflows valid;
    no handler panics and every request that does not wait for a run is answered; idempotency keys start one run or one job; bulk cancellation,
    cancellation of a run and dry runs report exactly what happens; workflow texts are read back and durations stay in range.
  \<^item> Program: \<^verbatim>\<open>-mode run\<close> prints and keeps a complete run; a draining worker stops after complete turns; a serving program keeps its
    workflows valid and acts on its queue as a client only, so that with the file store no queued job is ever executed, and
    \<^verbatim>\<open>-mode schedule\<close> executes nothing at all; over the database an asynchronous run is executed by the worker under the id that was answered
    and is found under it by the server.

  \<^bold>\<open>Bounds and fuel\<close>

  Loops are structural or have a termination proof; those that may run for ever are partial functions with \<^const>\<open>None\<close> for not returning
  (template resolution, which indeed may not return, and the page loops, which are shown to end). No fuel is used: the depth-first
  search of the validation terminates because every call marks a node. Integers wrap around at 64 bits wherever
  the code computes with them; where a theorem needs the sizes of maps to stay below $2^{63} - 1000$ it says so.

  \<^bold>\<open>Parameters\<close>

  The cron engine (\<^verbatim>\<open>robfig/cron\<close>), \<^verbatim>\<open>encoding/json\<close> and YAML decoding, failures of the database driver, the sockets of the operating system and the parsing of requests by
  \<^verbatim>\<open>net/http\<close> are parameters or inputs. The mux is modelled as Go documents it: the longest matching pattern, and redirections to the clean path.

  \<^bold>\<open>Not modelled\<close>

  Tracing spans (\<^verbatim>\<open>internal/telemetry/tracing.go\<close> only calls OpenTelemetry and has no effect on the state), the parsing of the command line into
  flag values, the delivery of signals by the operating system (when one arrives is an input), log messages, \<^verbatim>\<open>Close\<close> of the database, response
  headers, and the lengths of ticker periods.
\<close>

end
